theory Spec2Isabelle
  imports Main "HOL-Library.Monad_Syntax" "HOL-Library.Word"
begin

section \<open>The arm64 JIT emitter of Hermes: frame-register binding manager\<close>

text \<open>
  This theory embeds \<^verbatim>\<open>lib/VM/JIT/arm64/JitEmitter.cpp\<close>. Every member function of
  \<^verbatim>\<open>Emitter\<close> becomes a function that takes the emitter state and returns the new one
  inside \<open>option\<close>: \<open>None\<close> stands for every way the C++ aborts (a failed
  \<^verbatim>\<open>assert\<close>, \<^verbatim>\<open>hermes_fatal\<close>, an out-of-range index into \<^verbatim>\<open>frameRegs_\<close>, the use of
  an invalid register handle). Instructions sent to the assembler \<^verbatim>\<open>a\<close> are appended to
  the field \<open>emitted\<close>. Calls of \<^verbatim>\<open>comment(...)\<close> only write to the optional logger and are
  left out.
\<close>

subsection \<open>Handles: frame registers and hardware registers\<close>

text \<open>
  The classes \<^verbatim>\<open>FR\<close>, \<^verbatim>\<open>HWReg\<close>, \<^verbatim>\<open>FRState\<close>, \<^verbatim>\<open>HWRegState\<close> and \<^verbatim>\<open>TempRegAlloc\<close> are
  declared in \<^verbatim>\<open>JitEmitter.h\<close>. Modelled from the spec: a frame register is an index or
  invalid; a hardware register handle names one physical register of the integer or
  of the vector class, or is invalid.
\<close>

datatype FR = NoFR | FR nat

datatype HWReg = NoReg | gpX nat | vecD nat

datatype TAG = GpX | VecD

datatype FRType = Number | Bool | Unknown

fun HWReg_of :: "nat \<Rightarrow> TAG \<Rightarrow> HWReg" where
  "HWReg_of i GpX = gpX i"
| "HWReg_of i VecD = vecD i"

fun isGpX :: "HWReg \<Rightarrow> bool" where
  "isGpX (gpX i) = True"
| "isGpX _ = False"

fun isVecD :: "HWReg \<Rightarrow> bool" where
  "isVecD (vecD i) = True"
| "isVecD _ = False"

fun indexInClass :: "HWReg \<Rightarrow> nat" where
  "indexInClass (gpX i) = i"
| "indexInClass (vecD i) = i"
| "indexInClass NoReg = 0"

text \<open>Modelled from the spec: the binding-state record of one frame register (section 3).\<close>

record FRState =
  localGpX :: HWReg
  localVecD :: HWReg
  globalReg :: HWReg
  localType :: FRType
  globalType :: FRType
  frameUpToDate :: bool
  globalRegUpToDate :: bool

subsection \<open>The temporary register pool\<close>

text \<open>
  Modelled from the spec: \<^verbatim>\<open>TempRegAlloc\<close> (declared in \<^verbatim>\<open>JitEmitter.h\<close>) is, per register
  class, a set of indices available for allocation plus an LRU ordering used to pick an
  eviction victim. \<open>lru\<close> lists the allocated indices, least recently used first.
  \<open>ra_alloc\<close> is \<^verbatim>\<open>alloc\<close>, \<open>ra_free\<close> is \<^verbatim>\<open>free\<close>, \<open>ra_use\<close> is \<^verbatim>\<open>use\<close>.
\<close>

record TempRegAlloc =
  avail :: "nat list"
  lru :: "nat list"

definition ra_alloc :: "nat option \<Rightarrow> TempRegAlloc \<Rightarrow> (nat \<times> TempRegAlloc) option" where
  "ra_alloc preferred ra =
     (case avail ra of
        [] \<Rightarrow> None
      | a # _ \<Rightarrow>
          let index = (case preferred of
                         Some p \<Rightarrow> if p \<in> set (avail ra) then p else a
                       | None \<Rightarrow> a)
          in Some (index, ra\<lparr>avail := removeAll index (avail ra), lru := lru ra @ [index]\<rparr>))"

definition ra_free :: "nat \<Rightarrow> TempRegAlloc \<Rightarrow> TempRegAlloc" where
  "ra_free index ra =
     ra\<lparr>avail := (if index \<in> set (avail ra) then avail ra else index # avail ra),
        lru := removeAll index (lru ra)\<rparr>"

definition ra_use :: "nat \<Rightarrow> TempRegAlloc \<Rightarrow> TempRegAlloc" where
  "ra_use index ra =
     (if index \<in> set (lru ra) then ra\<lparr>lru := removeAll index (lru ra) @ [index]\<rparr> else ra)"

definition leastRecentlyUsed :: "TempRegAlloc \<Rightarrow> nat option" where
  "leastRecentlyUsed ra = (case lru ra of [] \<Rightarrow> None | r # _ \<Rightarrow> Some r)"


subsection \<open>Emitted instructions and the emitter state\<close>

text \<open>
  Operands of the assembler: \<open>X i\<close>, \<open>W i\<close> and \<open>D i\<close> are the registers
  \<^verbatim>\<open>a64::GpX(i)\<close>, \<^verbatim>\<open>a64::GpW(i)\<close> and \<^verbatim>\<open>a64::VecD(i)\<close>; \<open>XRuntime\<close>, \<open>XFrame\<close> and
  \<open>XDoubleLim\<close> are the fixed registers \<^verbatim>\<open>xRuntime\<close>, \<^verbatim>\<open>xFrame\<close> and \<^verbatim>\<open>xDoubleLim\<close> of
  \<^verbatim>\<open>JitEmitter.h\<close>. A label is invalid until the assembler creates it.
\<close>

datatype areg = X nat | W nat | D nat | XRuntime | XFrame | XDoubleLim

datatype label = NoLabel | Label nat

datatype mem =
    Mem areg int
  | MemRO int

datatype fnptr = FnAddr string

datatype instr =
    I_mov areg areg
  | I_mov_imm areg int
  | I_fmov areg areg
  | I_add_imm areg areg int
  | I_sub_imm areg areg int
  | I_sub areg areg areg
  | I_ldr areg mem
  | I_ldur areg mem
  | I_str areg mem
  | I_cmp areg areg
  | I_cmp_imm areg int
  | I_b label
  | I_b_hs label
  | I_b_lo label
  | I_bl label
  | I_bind label
  | I_fast nat areg areg areg

text \<open>
  \<open>I_fast f res dl dr\<close> records the call \<^verbatim>\<open>fast(a, res, dl, dr)\<close> of the caller-supplied
  callback \<open>f\<close> that emits the fast-path instruction.
\<close>

text \<open>
  The \<^verbatim>\<open>emit\<close> closure of a slow path is one of the lambdas of the source file, named
  here by the operation that queues it. The fields of \<^verbatim>\<open>SlowPath\<close> carry the prefix \<open>sl_\<close>
  (the lambdas call their argument \<^verbatim>\<open>sl\<close>), the fields of a data descriptor \<open>desc_\<close>.
\<close>

datatype SlowPathEmit = EmitLoadParam | EmitArithBinOp

record SlowPath =
  sl_slowPathLab :: label
  sl_contLab :: label
  sl_target :: label
  sl_name :: string
  sl_frRes :: FR
  sl_frInput1 :: FR
  sl_frInput2 :: FR
  sl_hwRes :: HWReg
  sl_invert :: bool
  sl_slowCall :: "fnptr option"
  sl_slowCallName :: string
  sl_emit :: SlowPathEmit

datatype asmjit_Error =
    kErrorOk
  | kErrorInvalidImmediate
  | kErrorInvalidDisplacement
  | kErrorOther nat

datatype robyte = Byte "8 word" | PtrByte fnptr nat

datatype TypeId = kUInt8 | kFloat64 | kUInt64

record DataDesc =
  desc_size :: int
  desc_typeId :: TypeId
  desc_itemCount :: int
  desc_comment :: "string option"

record Emitter =
  frameRegs :: "FRState list"
  hwRegs :: "HWReg \<Rightarrow> FR"
  gpTemp :: TempRegAlloc
  vecTemp :: TempRegAlloc
  emitted :: "instr list"
  numLabels :: nat
  slowPaths :: "SlowPath list"
  expectedError :: asmjit_Error
  logger :: bool
  roData :: "robyte list"
  roDataDesc :: "DataDesc list"
  fp64ConstMap :: "64 word \<rightharpoonup> int"
  thunkMap :: "fnptr \<rightharpoonup> nat"
  thunks :: "(label \<times> int) list"
  roOfsReadPropertyCachePtr :: int
  roOfsWritePropertyCachePtr :: int

text \<open>
  Constants of headers that are not part of the translated file, taken as parameters:
  the inclusive ranges \<^verbatim>\<open>kGPTemp\<close> and \<^verbatim>\<open>kVecTemp\<close> of temporary registers, the
  \<^verbatim>\<open>hbc::StackFrameLayout\<close> offsets, the raw bits of \<^verbatim>\<open>_sh_ljs_undefined()\<close>,
  \<^verbatim>\<open>hbc::PROPERTY_CACHING_DISABLED\<close> and \<^verbatim>\<open>sizeof(SHPropertyCacheEntry)\<close>.
\<close>

record Consts =
  kGPTemp :: "nat \<times> nat"
  kVecTemp :: "nat \<times> nat"
  ArgCount :: int
  NewTarget :: int
  CalleeClosureOrCB :: int
  ThisArg :: int
  undefinedRaw :: "64 word"
  PROPERTY_CACHING_DISABLED :: nat
  sizeofPropertyCacheEntry :: nat

definition assert :: "bool \<Rightarrow> unit option" where
  "assert c = (if c then Some () else None)"

definition a_emit :: "instr \<Rightarrow> Emitter \<Rightarrow> Emitter" where
  "a_emit i em = em\<lparr>emitted := emitted em @ [i]\<rparr>"

definition a64GpX :: "HWReg \<Rightarrow> areg option" where
  "a64GpX hw = (case hw of gpX i \<Rightarrow> Some (X i) | _ \<Rightarrow> None)"

definition a64VecD :: "HWReg \<Rightarrow> areg option" where
  "a64VecD hw = (case hw of vecD i \<Rightarrow> Some (D i) | _ \<Rightarrow> None)"

definition isTempGpX :: "Consts \<Rightarrow> HWReg \<Rightarrow> bool" where
  "isTempGpX K hwReg =
     (isGpX hwReg \<and> fst (kGPTemp K) \<le> indexInClass hwReg \<and> indexInClass hwReg \<le> snd (kGPTemp K))"

definition isTempVecD :: "Consts \<Rightarrow> HWReg \<Rightarrow> bool" where
  "isTempVecD K hwReg =
     (isVecD hwReg \<and> fst (kVecTemp K) \<le> indexInClass hwReg \<and> indexInClass hwReg \<le> snd (kVecTemp K))"

definition isTemp :: "Consts \<Rightarrow> HWReg \<Rightarrow> bool" where
  "isTemp K hwReg = (if isGpX hwReg then isTempGpX K hwReg else isTempVecD K hwReg)"

text \<open>\<^verbatim>\<open>frameRegs_[fr.index()]\<close>: reading outside the vector is undefined behaviour.\<close>

definition getFRState :: "FR \<Rightarrow> Emitter \<Rightarrow> FRState option" where
  "getFRState fr em =
     (case fr of
        NoFR \<Rightarrow> None
      | FR i \<Rightarrow> if i < length (frameRegs em) then Some (frameRegs em ! i) else None)"

definition updFR :: "FR \<Rightarrow> (FRState \<Rightarrow> FRState) \<Rightarrow> Emitter \<Rightarrow> Emitter" where
  "updFR fr f em =
     (case fr of
        NoFR \<Rightarrow> em
      | FR i \<Rightarrow> em\<lparr>frameRegs := (frameRegs em)[i := f (frameRegs em ! i)]\<rparr>)"

definition frA64Mem :: "FR \<Rightarrow> mem option" where
  "frA64Mem fr = (case fr of NoFR \<Rightarrow> None | FR i \<Rightarrow> Some (Mem XFrame (8 * int i)))"

text \<open>
  Modelled from the spec: \<^verbatim>\<open>_loadFrame\<close> and \<^verbatim>\<open>_storeFrame\<close> (defined in \<^verbatim>\<open>JitEmitter.h\<close>)
  load a register of either class from the frame slot of a frame register, or store it
  there.
\<close>

definition loadFrame :: "HWReg \<Rightarrow> FR \<Rightarrow> Emitter \<Rightarrow> Emitter option" where
  "loadFrame dest rFrom em = do {
     m \<leftarrow> frA64Mem rFrom;
     r \<leftarrow> (if isVecD dest then a64VecD dest else a64GpX dest);
     Some (a_emit (I_ldr r m) em)
   }"

definition storeFrame :: "HWReg \<Rightarrow> FR \<Rightarrow> Emitter \<Rightarrow> Emitter option" where
  "storeFrame src rTo em = do {
     m \<leftarrow> frA64Mem rTo;
     r \<leftarrow> (if isVecD src then a64VecD src else a64GpX src);
     Some (a_emit (I_str r m) em)
   }"

subsection \<open>Register use, moves and stores\<close>

definition useReg :: "Consts \<Rightarrow> HWReg \<Rightarrow> Emitter \<Rightarrow> Emitter" where
  "useReg K hwReg em =
     (if hwReg = NoReg then em
      else if isGpX hwReg then
        (if isTempGpX K hwReg then em\<lparr>gpTemp := ra_use (indexInClass hwReg) (gpTemp em)\<rparr> else em)
      else
        (if isTempVecD K hwReg then em\<lparr>vecTemp := ra_use (indexInClass hwReg) (vecTemp em)\<rparr>
         else em))"

text \<open>\<^verbatim>\<open>movHWReg<use>(dst, src)\<close>; the template argument is the first parameter.\<close>

definition movHWReg :: "Consts \<Rightarrow> bool \<Rightarrow> HWReg \<Rightarrow> HWReg \<Rightarrow> Emitter \<Rightarrow> Emitter option" where
  "movHWReg K use dst src em = do {
     em \<leftarrow> (if dst \<noteq> src then
              (if isVecD dst \<and> isVecD src then do {
                 d \<leftarrow> a64VecD dst; s \<leftarrow> a64VecD src; Some (a_emit (I_fmov d s) em) }
               else if isVecD dst then do {
                 d \<leftarrow> a64VecD dst; s \<leftarrow> a64GpX src; Some (a_emit (I_fmov d s) em) }
               else if isVecD src then do {
                 d \<leftarrow> a64GpX dst; s \<leftarrow> a64VecD src; Some (a_emit (I_fmov d s) em) }
               else do {
                 d \<leftarrow> a64GpX dst; s \<leftarrow> a64GpX src; Some (a_emit (I_mov d s) em) })
            else Some em);
     Some (if use then useReg K dst (useReg K src em) else em)
   }"

definition storeHWRegToFrame :: "FR \<Rightarrow> HWReg \<Rightarrow> Emitter \<Rightarrow> Emitter option" where
  "storeHWRegToFrame fr src em = do {
     em \<leftarrow> storeFrame src fr em;
     _ \<leftarrow> getFRState fr em;
     Some (updFR fr (\<lambda>s. s\<lparr>frameUpToDate := True\<rparr>) em)
   }"

definition movHWFromFR :: "Consts \<Rightarrow> HWReg \<Rightarrow> FR \<Rightarrow> Emitter \<Rightarrow> Emitter option" where
  "movHWFromFR K hwRes src em = do {
     frState \<leftarrow> getFRState src em;
     if localGpX frState \<noteq> NoReg then movHWReg K True hwRes (localGpX frState) em
     else if localVecD frState \<noteq> NoReg then movHWReg K True hwRes (localVecD frState) em
     else if globalReg frState \<noteq> NoReg \<and> globalRegUpToDate frState then
       movHWReg K True hwRes (globalReg frState) em
     else loadFrame hwRes src (useReg K hwRes em)
   }"

subsection \<open>Freeing and spilling\<close>

definition freeReg :: "Consts \<Rightarrow> HWReg \<Rightarrow> Emitter \<Rightarrow> Emitter option" where
  "freeReg K hwReg em =
     (if hwReg = NoReg then Some em
      else do {
        let fr = hwRegs em hwReg;
        let em = em\<lparr>hwRegs := (hwRegs em)(hwReg := NoFR)\<rparr>;
        if isGpX hwReg then do {
          em \<leftarrow> (if fr \<noteq> NoFR then do {
                   frState \<leftarrow> getFRState fr em;
                   _ \<leftarrow> assert (localGpX frState = hwReg);
                   Some (updFR fr (\<lambda>s. s\<lparr>localGpX := NoReg\<rparr>) em) }
                 else Some em);
          Some (if isTempGpX K hwReg
                then em\<lparr>gpTemp := ra_free (indexInClass hwReg) (gpTemp em)\<rparr> else em) }
        else do {
          em \<leftarrow> (if fr \<noteq> NoFR then do {
                   frState \<leftarrow> getFRState fr em;
                   _ \<leftarrow> assert (localVecD frState = hwReg);
                   Some (updFR fr (\<lambda>s. s\<lparr>localVecD := NoReg\<rparr>) em) }
                 else Some em);
          Some (if isTempVecD K hwReg
                then em\<lparr>vecTemp := ra_free (indexInClass hwReg) (vecTemp em)\<rparr> else em) }
      })"

definition spillTempReg :: "Consts \<Rightarrow> HWReg \<Rightarrow> Emitter \<Rightarrow> Emitter option" where
  "spillTempReg K toSpill em = do {
     _ \<leftarrow> assert (toSpill \<noteq> NoReg \<and> isTemp K toSpill);
     let fr = hwRegs em toSpill;
     let em = em\<lparr>hwRegs := (hwRegs em)(toSpill := NoFR)\<rparr>;
     _ \<leftarrow> assert (fr \<noteq> NoFR);
     frState \<leftarrow> getFRState fr em;
     _ \<leftarrow> assert (globalReg frState \<noteq> toSpill);
     em \<leftarrow> (if globalReg frState \<noteq> NoReg then
              (if \<not> globalRegUpToDate frState then do {
                 em \<leftarrow> movHWReg K False (globalReg frState) toSpill em;
                 Some (updFR fr (\<lambda>s. s\<lparr>globalRegUpToDate := True\<rparr>) em) }
               else Some em)
            else
              (if \<not> frameUpToDate frState then do {
                 em \<leftarrow> storeHWRegToFrame fr toSpill em;
                 Some (updFR fr (\<lambda>s. s\<lparr>frameUpToDate := True\<rparr>) em) }
               else Some em));
     frState \<leftarrow> getFRState fr em;
     if localGpX frState = toSpill then Some (updFR fr (\<lambda>s. s\<lparr>localGpX := NoReg\<rparr>) em)
     else if localVecD frState = toSpill then Some (updFR fr (\<lambda>s. s\<lparr>localVecD := NoReg\<rparr>) em)
     else None
   }"

definition syncAndFreeTempReg :: "Consts \<Rightarrow> HWReg \<Rightarrow> Emitter \<Rightarrow> Emitter option" where
  "syncAndFreeTempReg K hwReg em =
     (if hwReg = NoReg \<or> \<not> isTemp K hwReg \<or> hwRegs em hwReg = NoFR then Some em
      else do {
        em \<leftarrow> spillTempReg K hwReg em;
        freeReg K hwReg em
      })"

text \<open>
  \<^verbatim>\<open>_allocTemp<TAG>(ra, preferred)\<close>. The pool \<^verbatim>\<open>ra\<close> is \<^verbatim>\<open>gpTemp_\<close> for \<^verbatim>\<open>HWReg::GpX\<close> and
  \<^verbatim>\<open>vecTemp_\<close> for \<^verbatim>\<open>HWReg::VecD\<close> (the wrappers \<^verbatim>\<open>allocTempGpX\<close> and \<^verbatim>\<open>allocTempVecD\<close> of the
  header), so the model selects it by the tag.
\<close>

definition pool :: "TAG \<Rightarrow> Emitter \<Rightarrow> TempRegAlloc" where
  "pool t em = (case t of GpX \<Rightarrow> gpTemp em | VecD \<Rightarrow> vecTemp em)"

definition setPool :: "TAG \<Rightarrow> TempRegAlloc \<Rightarrow> Emitter \<Rightarrow> Emitter" where
  "setPool t ra em = (case t of GpX \<Rightarrow> em\<lparr>gpTemp := ra\<rparr> | VecD \<Rightarrow> em\<lparr>vecTemp := ra\<rparr>)"

definition allocTemp :: "Consts \<Rightarrow> TAG \<Rightarrow> HWReg option \<Rightarrow> Emitter \<Rightarrow> (HWReg \<times> Emitter) option" where
  "allocTemp K t preferred em =
     (let pr = map_option indexInClass preferred in
      case ra_alloc pr (pool t em) of
        Some (optReg, ra) \<Rightarrow> Some (HWReg_of optReg t, setPool t ra em)
      | None \<Rightarrow> do {
          index \<leftarrow> (case pr of Some p \<Rightarrow> Some p | None \<Rightarrow> leastRecentlyUsed (pool t em));
          em \<leftarrow> spillTempReg K (HWReg_of index t) em;
          let em = setPool t (ra_free index (pool t em)) em;
          (r, ra) \<leftarrow> ra_alloc None (pool t em);
          Some (HWReg_of r t, setPool t ra em)
        })"

definition allocTempGpX :: "Consts \<Rightarrow> HWReg option \<Rightarrow> Emitter \<Rightarrow> (HWReg \<times> Emitter) option" where
  "allocTempGpX K preferred em = allocTemp K GpX preferred em"

definition allocTempVecD :: "Consts \<Rightarrow> HWReg option \<Rightarrow> Emitter \<Rightarrow> (HWReg \<times> Emitter) option" where
  "allocTempVecD K preferred em = allocTemp K VecD preferred em"


subsection \<open>Synchronising with the frame\<close>

definition isFRInRegister :: "Consts \<Rightarrow> FR \<Rightarrow> Emitter \<Rightarrow> (HWReg \<times> Emitter) option" where
  "isFRInRegister K fr em = do {
     frState \<leftarrow> getFRState fr em;
     if localGpX frState \<noteq> NoReg then Some (localGpX frState, useReg K (localGpX frState) em)
     else if localVecD frState \<noteq> NoReg then
       Some (localVecD frState, useReg K (localVecD frState) em)
     else if globalReg frState \<noteq> NoReg then Some (globalReg frState, em)
     else Some (NoReg, em)
   }"

definition syncToMem :: "Consts \<Rightarrow> FR \<Rightarrow> Emitter \<Rightarrow> Emitter option" where
  "syncToMem K fr em = do {
     frState \<leftarrow> getFRState fr em;
     if frameUpToDate frState then Some em
     else do {
       (hwReg, em) \<leftarrow> isFRInRegister K fr em;
       _ \<leftarrow> assert (hwReg \<noteq> NoReg);
       em \<leftarrow> (if globalReg frState \<noteq> NoReg \<and> \<not> globalRegUpToDate frState then do {
                _ \<leftarrow> assert (hwReg \<noteq> globalReg frState);
                em \<leftarrow> movHWReg K False (globalReg frState) hwReg em;
                Some (updFR fr (\<lambda>s. s\<lparr>globalRegUpToDate := True\<rparr>) em) }
              else Some em);
       storeHWRegToFrame fr hwReg em
     }
   }"

text \<open>A \<^verbatim>\<open>for\<close> loop over a list of values, stopping at the first abort.\<close>

fun forEach :: "'a list \<Rightarrow> ('a \<Rightarrow> 's \<Rightarrow> 's option) \<Rightarrow> 's \<Rightarrow> 's option" where
  "forEach [] body s = Some s"
| "forEach (x # xs) body s = (case body x s of None \<Rightarrow> None | Some s' \<Rightarrow> forEach xs body s')"

text \<open>The values \<^verbatim>\<open>first, ..., second\<close> of an inclusive range.\<close>

definition inclusive :: "nat \<times> nat \<Rightarrow> nat list" where
  "inclusive r = [fst r ..< Suc (snd r)]"

text \<open>The bodies of the two loops of \<^verbatim>\<open>syncAllTempExcept\<close>.\<close>

definition syncGpTemp :: "Consts \<Rightarrow> FR \<Rightarrow> nat \<Rightarrow> Emitter \<Rightarrow> Emitter option" where
  "syncGpTemp K exceptFR i em =
     (let hwReg = HWReg_of i GpX; fr = hwRegs em hwReg in
      if fr = NoFR \<or> fr = exceptFR then Some em
      else do {
        frState \<leftarrow> getFRState fr em;
        _ \<leftarrow> assert (localGpX frState = hwReg);
        if globalReg frState \<noteq> NoReg then
          (if \<not> globalRegUpToDate frState then do {
             em \<leftarrow> movHWReg K False (globalReg frState) hwReg em;
             Some (updFR fr (\<lambda>s. s\<lparr>globalRegUpToDate := True\<rparr>) em) }
           else Some em)
        else
          (if \<not> frameUpToDate frState then storeHWRegToFrame fr hwReg em else Some em)
      })"

definition syncVecTemp :: "Consts \<Rightarrow> FR \<Rightarrow> nat \<Rightarrow> Emitter \<Rightarrow> Emitter option" where
  "syncVecTemp K exceptFR i em =
     (let hwReg = HWReg_of i VecD; fr = hwRegs em hwReg in
      if fr = NoFR \<or> fr = exceptFR then Some em
      else do {
        frState \<leftarrow> getFRState fr em;
        _ \<leftarrow> assert (localVecD frState = hwReg);
        if localGpX frState \<noteq> NoReg then Some em
        else if globalReg frState \<noteq> NoReg then
          (if \<not> globalRegUpToDate frState then do {
             em \<leftarrow> movHWReg K False (globalReg frState) hwReg em;
             Some (updFR fr (\<lambda>s. s\<lparr>globalRegUpToDate := True\<rparr>) em) }
           else Some em)
        else
          (if \<not> frameUpToDate frState then storeHWRegToFrame fr hwReg em else Some em)
      })"

definition syncAllTempExcept :: "Consts \<Rightarrow> FR \<Rightarrow> Emitter \<Rightarrow> Emitter option" where
  "syncAllTempExcept K exceptFR em = do {
     em \<leftarrow> forEach (inclusive (kGPTemp K)) (syncGpTemp K exceptFR) em;
     forEach (inclusive (kVecTemp K)) (syncVecTemp K exceptFR) em
   }"

definition freeFRTemp :: "Consts \<Rightarrow> FR \<Rightarrow> Emitter \<Rightarrow> Emitter option" where
  "freeFRTemp K fr em = do {
     frState \<leftarrow> getFRState fr em;
     em \<leftarrow> (if localGpX frState \<noteq> NoReg then do {
              _ \<leftarrow> assert (isTempGpX K (localGpX frState));
              let em = em\<lparr>hwRegs := (hwRegs em)(localGpX frState := NoFR)\<rparr>;
              let em = em\<lparr>gpTemp := ra_free (indexInClass (localGpX frState)) (gpTemp em)\<rparr>;
              Some (updFR fr (\<lambda>s. s\<lparr>localGpX := NoReg\<rparr>) em) }
            else Some em);
     frState \<leftarrow> getFRState fr em;
     if localVecD frState \<noteq> NoReg then do {
       _ \<leftarrow> assert (isTempVecD K (localVecD frState));
       let em = em\<lparr>hwRegs := (hwRegs em)(localVecD frState := NoFR)\<rparr>;
       let em = em\<lparr>vecTemp := ra_free (indexInClass (localVecD frState)) (vecTemp em)\<rparr>;
       Some (updFR fr (\<lambda>s. s\<lparr>localVecD := NoReg\<rparr>) em) }
     else Some em
   }"

definition freeTempOf :: "Consts \<Rightarrow> FR \<Rightarrow> HWReg \<Rightarrow> Emitter \<Rightarrow> Emitter option" where
  "freeTempOf K exceptFR hwReg em =
     (let fr = hwRegs em hwReg in
      if fr = NoFR \<or> fr = exceptFR then Some em else freeFRTemp K fr em)"

definition freeAllTempExcept :: "Consts \<Rightarrow> FR \<Rightarrow> Emitter \<Rightarrow> Emitter option" where
  "freeAllTempExcept K exceptFR em = do {
     em \<leftarrow> forEach (inclusive (kGPTemp K)) (\<lambda>i. freeTempOf K exceptFR (HWReg_of i GpX)) em;
     forEach (inclusive (kVecTemp K)) (\<lambda>i. freeTempOf K exceptFR (HWReg_of i VecD)) em
   }"

subsection \<open>Materialising a frame register in a hardware register\<close>

definition assignAllocatedLocalHWReg :: "FR \<Rightarrow> HWReg \<Rightarrow> Emitter \<Rightarrow> Emitter option" where
  "assignAllocatedLocalHWReg fr hwReg em = do {
     _ \<leftarrow> assert (hwReg \<noteq> NoReg);
     let em = em\<lparr>hwRegs := (hwRegs em)(hwReg := fr)\<rparr>;
     _ \<leftarrow> getFRState fr em;
     if isGpX hwReg then Some (updFR fr (\<lambda>s. s\<lparr>localGpX := hwReg\<rparr>) em)
     else Some (updFR fr (\<lambda>s. s\<lparr>localVecD := hwReg\<rparr>) em)
   }"

definition getOrAllocFRInVecD :: "Consts \<Rightarrow> FR \<Rightarrow> bool \<Rightarrow> Emitter \<Rightarrow> (HWReg \<times> Emitter) option" where
  "getOrAllocFRInVecD K fr load em = do {
     frState \<leftarrow> getFRState fr em;
     if localVecD frState \<noteq> NoReg then
       Some (localVecD frState, useReg K (localVecD frState) em)
     else if isVecD (globalReg frState) then do {
       em \<leftarrow> (if load \<and> \<not> globalRegUpToDate frState then do {
                _ \<leftarrow> assert (localGpX frState \<noteq> NoReg);
                em \<leftarrow> movHWReg K True (globalReg frState) (localGpX frState) em;
                Some (updFR fr (\<lambda>s. s\<lparr>globalRegUpToDate := True\<rparr>) em) }
              else Some em);
       Some (globalReg frState, em) }
     else do {
       (hwVecD, em) \<leftarrow> allocTempVecD K None em;
       em \<leftarrow> assignAllocatedLocalHWReg fr hwVecD em;
       frState \<leftarrow> getFRState fr em;
       em \<leftarrow> (if load then
                (if localGpX frState \<noteq> NoReg then movHWReg K False hwVecD (localGpX frState) em
                 else if isGpX (globalReg frState) then do {
                   _ \<leftarrow> assert (globalRegUpToDate frState);
                   movHWReg K False hwVecD (globalReg frState) em }
                 else do {
                   em \<leftarrow> loadFrame hwVecD fr em;
                   Some (updFR fr (\<lambda>s. s\<lparr>frameUpToDate := True\<rparr>) em) })
              else Some em);
       Some (hwVecD, em) }
   }"

definition getOrAllocFRInGpX :: "Consts \<Rightarrow> FR \<Rightarrow> bool \<Rightarrow> Emitter \<Rightarrow> (HWReg \<times> Emitter) option" where
  "getOrAllocFRInGpX K fr load em = do {
     frState \<leftarrow> getFRState fr em;
     if localGpX frState \<noteq> NoReg then
       Some (localGpX frState, useReg K (localGpX frState) em)
     else if isGpX (globalReg frState) then do {
       em \<leftarrow> (if load \<and> \<not> globalRegUpToDate frState then do {
                _ \<leftarrow> assert (localVecD frState \<noteq> NoReg);
                em \<leftarrow> movHWReg K True (globalReg frState) (localVecD frState) em;
                Some (updFR fr (\<lambda>s. s\<lparr>globalRegUpToDate := True\<rparr>) em) }
              else Some em);
       Some (globalReg frState, em) }
     else do {
       (hwGpX, em) \<leftarrow> allocTempGpX K None em;
       em \<leftarrow> assignAllocatedLocalHWReg fr hwGpX em;
       frState \<leftarrow> getFRState fr em;
       em \<leftarrow> (if load then
                (if localVecD frState \<noteq> NoReg then movHWReg K False hwGpX (localVecD frState) em
                 else if isVecD (globalReg frState) then do {
                   _ \<leftarrow> assert (globalRegUpToDate frState);
                   movHWReg K False hwGpX (globalReg frState) em }
                 else do {
                   em \<leftarrow> loadFrame hwGpX fr em;
                   Some (updFR fr (\<lambda>s. s\<lparr>frameUpToDate := True\<rparr>) em) })
              else Some em);
       Some (hwGpX, em) }
   }"

text \<open>
  The source narrows \<^verbatim>\<open>preferred\<close> to a register of the integer class and then calls
  \<^verbatim>\<open>allocTempGpX()\<close> without it.
\<close>

definition getOrAllocFRInAnyReg ::
  "Consts \<Rightarrow> FR \<Rightarrow> bool \<Rightarrow> HWReg option \<Rightarrow> Emitter \<Rightarrow> (HWReg \<times> Emitter) option" where
  "getOrAllocFRInAnyReg K fr load preferred em = do {
     (tmp, em) \<leftarrow> isFRInRegister K fr em;
     if tmp \<noteq> NoReg then Some (tmp, em)
     else do {
       (hwGpX, em) \<leftarrow> allocTempGpX K None em;
       em \<leftarrow> assignAllocatedLocalHWReg fr hwGpX em;
       em \<leftarrow> (if load then do {
                em \<leftarrow> loadFrame hwGpX fr em;
                Some (updFR fr (\<lambda>s. s\<lparr>frameUpToDate := True\<rparr>) em) }
              else Some em);
       Some (hwGpX, em) }
   }"

subsection \<open>Committing a result\<close>

definition frUpdateType :: "FR \<Rightarrow> FRType \<Rightarrow> Emitter \<Rightarrow> Emitter option" where
  "frUpdateType fr type em = do {
     _ \<leftarrow> getFRState fr em;
     Some (updFR fr (\<lambda>s. s\<lparr>localType := type\<rparr>) em)
   }"

definition frUpdatedWithHWReg ::
  "Consts \<Rightarrow> FR \<Rightarrow> HWReg \<Rightarrow> FRType option \<Rightarrow> Emitter \<Rightarrow> Emitter option" where
  "frUpdatedWithHWReg K fr hwReg localType' em = do {
     frState \<leftarrow> getFRState fr em;
     let em = updFR fr (\<lambda>s. s\<lparr>frameUpToDate := False\<rparr>) em;
     em \<leftarrow> (if globalReg frState = hwReg then do {
              let em = updFR fr (\<lambda>s. s\<lparr>globalRegUpToDate := True\<rparr>) em;
              em \<leftarrow> (if localGpX frState \<noteq> NoReg then freeReg K (localGpX frState) em
                     else Some em);
              frState \<leftarrow> getFRState fr em;
              if localVecD frState \<noteq> NoReg then freeReg K (localVecD frState) em else Some em }
            else do {
              let em = updFR fr (\<lambda>s. s\<lparr>globalRegUpToDate := False\<rparr>) em;
              if hwReg = localGpX frState then freeReg K (localVecD frState) em
              else do {
                _ \<leftarrow> assert (hwReg = localVecD frState);
                freeReg K (localGpX frState) em } });
     case localType' of Some t \<Rightarrow> frUpdateType fr t em | None \<Rightarrow> Some em
   }"

definition movFRFromHW :: "Consts \<Rightarrow> FR \<Rightarrow> HWReg \<Rightarrow> FRType option \<Rightarrow> Emitter \<Rightarrow> Emitter option" where
  "movFRFromHW K dst src type em = do {
     frState \<leftarrow> getFRState dst em;
     if localGpX frState \<noteq> NoReg then do {
       em \<leftarrow> movHWReg K False (localGpX frState) src em;
       frUpdatedWithHWReg K dst (localGpX frState) type em }
     else if localVecD frState \<noteq> NoReg then do {
       em \<leftarrow> movHWReg K False (localVecD frState) src em;
       frUpdatedWithHWReg K dst (localVecD frState) type em }
     else if globalReg frState \<noteq> NoReg then do {
       em \<leftarrow> movHWReg K False (globalReg frState) src em;
       frUpdatedWithHWReg K dst (globalReg frState) type em }
     else do {
       em \<leftarrow> storeHWRegToFrame dst src em;
       em \<leftarrow> (case type of Some t \<Rightarrow> frUpdateType dst t em | None \<Rightarrow> Some em);
       Some (updFR dst (\<lambda>s. s\<lparr>frameUpToDate := True\<rparr>) em) }
   }"

subsection \<open>Operations\<close>

definition mov :: "Consts \<Rightarrow> FR \<Rightarrow> FR \<Rightarrow> bool \<Rightarrow> Emitter \<Rightarrow> Emitter option" where
  "mov K frRes frInput logComment em =
     (if frRes = frInput then Some em
      else do {
        (hwInput, em) \<leftarrow> getOrAllocFRInAnyReg K frInput True None em;
        (hwDest, em) \<leftarrow> getOrAllocFRInAnyReg K frRes False None em;
        em \<leftarrow> movHWReg K False hwDest hwInput em;
        frInputState \<leftarrow> getFRState frInput em;
        frUpdatedWithHWReg K frRes hwDest (Some (localType frInputState)) em
      })"

text \<open>The assembler creates a label: a fresh identifier.\<close>

definition a_newLabel :: "Emitter \<Rightarrow> label \<times> Emitter" where
  "a_newLabel em = (Label (numLabels em), em\<lparr>numLabels := Suc (numLabels em)\<rparr>)"

definition newBasicBlock :: "Consts \<Rightarrow> label \<Rightarrow> Emitter \<Rightarrow> Emitter option" where
  "newBasicBlock K label' em = do {
     em \<leftarrow> syncAllTempExcept K NoFR em;
     em \<leftarrow> freeAllTempExcept K NoFR em;
     let em = em\<lparr>frameRegs := map (\<lambda>frState. frState\<lparr>localType := globalType frState\<rparr>) (frameRegs em)\<rparr>;
     _ \<leftarrow> assert (list_all (\<lambda>frState. localGpX frState = NoReg \<and> localVecD frState = NoReg)
                  (frameRegs em));
     Some (a_emit (I_bind label') em)
   }"

subsection \<open>Read-only data and thunks\<close>

text \<open>
  \<^verbatim>\<open>isCheapConst\<close>: at most two of the four 16-bit words of \<open>k\<close> are non-zero.
\<close>

definition isCheapConst :: "64 word \<Rightarrow> bool" where
  "isCheapConst k =
     (length (filter (\<lambda>i. and k (push_bit (16 * i) 0xFFFF) \<noteq> 0) [0 ..< 4]) \<le> 2)"

text \<open>
  \<^verbatim>\<open>reserveData\<close>. Sizes are natural numbers; \<open>align\<close> is a power of two at both call
  sites, where rounding up with the mask is rounding up to a multiple. \<^verbatim>\<open>resize\<close> fills
  with zero bytes.
\<close>

definition INT32_MAX :: nat where
  "INT32_MAX = 2147483647"

definition reserveData ::
  "nat \<Rightarrow> nat \<Rightarrow> TypeId \<Rightarrow> int \<Rightarrow> string option \<Rightarrow> Emitter \<Rightarrow> (int \<times> Emitter) option" where
  "reserveData dsize align typeId' itemCount' comment' em =
     (let oldSize = length (roData em);
          dataOfs = ((oldSize + align - 1) div align) * align
      in if dataOfs \<ge> INT32_MAX then None
         else
           let em = em\<lparr>roData := roData em @ replicate (dataOfs + dsize - oldSize) (Byte 0)\<rparr>;
               em = (if logger em then
                       (let em = (if dataOfs \<noteq> oldSize then
                                    em\<lparr>roDataDesc := roDataDesc em @
                                       [\<lparr>desc_size = int (dataOfs - oldSize), desc_typeId = kUInt8,
                                         desc_itemCount = int (dataOfs - oldSize),
                                         desc_comment = None\<rparr>]\<rparr>
                                  else em)
                        in em\<lparr>roDataDesc := roDataDesc em @
                              [\<lparr>desc_size = int dsize, desc_typeId = typeId',
                                desc_itemCount = itemCount', desc_comment = comment'\<rparr>]\<rparr>)
                     else em)
           in Some (int dataOfs, em))"

text \<open>\<^verbatim>\<open>memcpy(roData_.data() + dataOfs, src, 8)\<close>.\<close>

definition memcpy :: "robyte list \<Rightarrow> int \<Rightarrow> robyte list \<Rightarrow> robyte list" where
  "memcpy dst ofs src = take (nat ofs) dst @ src @ drop (nat ofs + length src) dst"

definition bytesOfBits :: "64 word \<Rightarrow> robyte list" where
  "bytesOfBits bits = map (\<lambda>i. Byte (ucast (drop_bit (8 * i) bits))) [0 ..< 8]"

definition bytesOfPtr :: "fnptr \<Rightarrow> robyte list" where
  "bytesOfPtr fn = map (PtrByte fn) [0 ..< 8]"

definition uint64Const :: "64 word \<Rightarrow> string option \<Rightarrow> Emitter \<Rightarrow> (int \<times> Emitter) option" where
  "uint64Const bits comment' em =
     (case fp64ConstMap em bits of
        Some ofs \<Rightarrow> Some (ofs, em)
      | None \<Rightarrow> do {
          (dataOfs, em) \<leftarrow> reserveData 8 8 kFloat64 1 comment' em;
          let em = em\<lparr>roData := memcpy (roData em) dataOfs (bytesOfBits bits)\<rparr>;
          Some (dataOfs, em\<lparr>fp64ConstMap := (fp64ConstMap em)(bits \<mapsto> dataOfs)\<rparr>)
        })"

text \<open>
  \<^verbatim>\<open>registerCall\<close>. The assembler's label table is a counter here: \<^verbatim>\<open>newNamedLabel\<close> and
  \<^verbatim>\<open>newLabel\<close> both return a fresh label.
\<close>

definition registerCall :: "fnptr \<Rightarrow> string option \<Rightarrow> Emitter \<Rightarrow> (label \<times> Emitter) option" where
  "registerCall fn name' em = do {
     (idx, em) \<leftarrow>
       (case thunkMap em fn of
          Some idx \<Rightarrow> Some (idx, em)
        | None \<Rightarrow> do {
            let idx = length (thunks em);
            (dataOfs, em) \<leftarrow> reserveData 8 8 kUInt64 1 name' em;
            let em = em\<lparr>roData := memcpy (roData em) dataOfs (bytesOfPtr fn)\<rparr>;
            let (lab, em) = a_newLabel em;
            Some (idx, em\<lparr>thunkMap := (thunkMap em)(fn \<mapsto> idx), thunks := thunks em @ [(lab, dataOfs)]\<rparr>)
          });
     if idx < length (thunks em) then Some (fst (thunks em ! idx), em) else None
   }"

text \<open>\<^verbatim>\<open>Emitter::call(void *fn, const char *name)\<close>.\<close>

definition call :: "fnptr \<Rightarrow> string \<Rightarrow> Emitter \<Rightarrow> Emitter option" where
  "call fn name' em = do {
     (lab, em) \<leftarrow> registerCall fn (Some name') em;
     Some (a_emit (I_bl lab) em)
   }"

text \<open>\<^verbatim>\<open>EMIT_RUNTIME_CALL(em, type, func)\<close> calls the function \<^verbatim>\<open>func\<close> under its own name.\<close>

definition EMIT_RUNTIME_CALL :: "string \<Rightarrow> Emitter \<Rightarrow> Emitter option" where
  "EMIT_RUNTIME_CALL func em = call (FnAddr func) func em"

definition loadFrameAddr :: "areg \<Rightarrow> FR \<Rightarrow> Emitter \<Rightarrow> Emitter option" where
  "loadFrameAddr dst frameReg em =
     (case frameReg of
        NoFR \<Rightarrow> None
      | FR i \<Rightarrow> if i = 0 then Some (a_emit (I_mov dst XFrame) em)
                else Some (a_emit (I_add_imm dst XFrame (8 * int i)) em))"

definition loadBits64InGp :: "areg \<Rightarrow> 64 word \<Rightarrow> string option \<Rightarrow> Emitter \<Rightarrow> Emitter option" where
  "loadBits64InGp dest bits constName em =
     (if isCheapConst bits then Some (a_emit (I_mov_imm dest (uint bits)) em)
      else do {
        (ofs, em) \<leftarrow> uint64Const bits constName em;
        Some (a_emit (I_ldr dest (MemRO ofs)) em)
      })"

definition loadConstBits64 ::
  "Consts \<Rightarrow> FR \<Rightarrow> 64 word \<Rightarrow> FRType \<Rightarrow> string \<Rightarrow> Emitter \<Rightarrow> Emitter option" where
  "loadConstBits64 K frRes bits type name' em = do {
     (hwRes, em) \<leftarrow> getOrAllocFRInGpX K frRes False em;
     r \<leftarrow> a64GpX hwRes;
     em \<leftarrow> loadBits64InGp r bits (Some name') em;
     frUpdatedWithHWReg K frRes hwRes (Some type) em
   }"

subsection \<open>Operations that call the runtime\<close>

text \<open>
  Each operation is split at its call instruction: the first part ends with the call, so
  that its result is the emitter state at the call.
\<close>

definition storeToEnvironment_upToCall ::
  "Consts \<Rightarrow> bool \<Rightarrow> FR \<Rightarrow> nat \<Rightarrow> FR \<Rightarrow> Emitter \<Rightarrow> Emitter option" where
  "storeToEnvironment_upToCall K np frEnv slot frValue em = do {
     em \<leftarrow> syncAndFreeTempReg K (gpX 0) em;
     em \<leftarrow> syncAndFreeTempReg K (gpX 1) em;
     em \<leftarrow> syncAndFreeTempReg K (gpX 2) em;
     em \<leftarrow> syncAndFreeTempReg K (gpX 3) em;
     em \<leftarrow> syncAllTempExcept K NoFR em;
     let em = a_emit (I_mov (X 0) XRuntime) em;
     em \<leftarrow> movHWFromFR K (gpX 1) frEnv em;
     em \<leftarrow> movHWFromFR K (gpX 2) frValue em;
     let em = a_emit (I_mov_imm (W 3) (int slot)) em;
     if np then EMIT_RUNTIME_CALL ''_sh_ljs_store_np_to_env'' em
     else EMIT_RUNTIME_CALL ''_sh_ljs_store_to_env'' em
   }"

definition storeToEnvironment ::
  "Consts \<Rightarrow> bool \<Rightarrow> FR \<Rightarrow> nat \<Rightarrow> FR \<Rightarrow> Emitter \<Rightarrow> Emitter option" where
  "storeToEnvironment K np frEnv slot frValue em = do {
     em \<leftarrow> storeToEnvironment_upToCall K np frEnv slot frValue em;
     freeAllTempExcept K NoFR em
   }"

definition getByIdImpl_upToCall ::
  "Consts \<Rightarrow> FR \<Rightarrow> nat \<Rightarrow> FR \<Rightarrow> nat \<Rightarrow> string \<Rightarrow> fnptr \<Rightarrow> string \<Rightarrow> Emitter \<Rightarrow> Emitter option" where
  "getByIdImpl_upToCall K frRes symID frSource cacheIdx name' shImpl shImplName em = do {
     em \<leftarrow> syncAllTempExcept K (if frRes \<noteq> frSource then frRes else NoFR) em;
     em \<leftarrow> syncToMem K frSource em;
     em \<leftarrow> freeAllTempExcept K NoFR em;
     let em = a_emit (I_mov (X 0) XRuntime) em;
     em \<leftarrow> loadFrameAddr (X 1) frSource em;
     let em = a_emit (I_mov_imm (W 2) (int symID)) em;
     let em = (if cacheIdx = PROPERTY_CACHING_DISABLED K then a_emit (I_mov_imm (X 3) 0) em
               else
                 (let em = a_emit (I_ldr (X 3) (MemRO (roOfsReadPropertyCachePtr em))) em
                  in if cacheIdx \<noteq> 0
                     then a_emit (I_add_imm (X 3) (X 3) (int (sizeofPropertyCacheEntry K * cacheIdx))) em
                     else em));
     call shImpl shImplName em
   }"

definition getByIdImpl ::
  "Consts \<Rightarrow> FR \<Rightarrow> nat \<Rightarrow> FR \<Rightarrow> nat \<Rightarrow> string \<Rightarrow> fnptr \<Rightarrow> string \<Rightarrow> Emitter \<Rightarrow> Emitter option" where
  "getByIdImpl K frRes symID frSource cacheIdx name' shImpl shImplName em = do {
     em \<leftarrow> getByIdImpl_upToCall K frRes symID frSource cacheIdx name' shImpl shImplName em;
     (hwRes, em) \<leftarrow> getOrAllocFRInAnyReg K frRes False (Some (gpX 0)) em;
     em \<leftarrow> movHWReg K False hwRes (gpX 0) em;
     em \<leftarrow> frUpdatedWithHWReg K frRes hwRes None em;
     freeAllTempExcept K frRes em
   }"

text \<open>
  \<^verbatim>\<open>FR{nRegs + k}\<close> for a \<^verbatim>\<open>StackFrameLayout\<close> offset \<open>k\<close>, in 32-bit unsigned arithmetic.
\<close>

definition frameArg :: "nat \<Rightarrow> int \<Rightarrow> FR" where
  "frameArg nRegs k = FR (nat ((int nRegs + k) mod 2 ^ 32))"

text \<open>\<^verbatim>\<open>Emitter::call(FR frRes, FR frCallee, uint32_t argc)\<close>, split at the call instruction.\<close>

definition call_FR_upToCall :: "Consts \<Rightarrow> FR \<Rightarrow> 32 word \<Rightarrow> Emitter \<Rightarrow> Emitter option" where
  "call_FR_upToCall K frCallee argc em = do {
     let nRegs = length (frameRegs em);
     em \<leftarrow> syncAllTempExcept K NoFR em;
     let calleeFrameArg = frameArg nRegs (CalleeClosureOrCB K);
     em \<leftarrow> (if frCallee \<noteq> calleeFrameArg then do {
              em \<leftarrow> freeFRTemp K calleeFrameArg em;
              (calleeReg, em) \<leftarrow> getOrAllocFRInAnyReg K frCallee True None em;
              frCalleeState \<leftarrow> getFRState frCallee em;
              movFRFromHW K calleeFrameArg calleeReg (Some (localType frCalleeState)) em }
            else Some em);
     let ntFrameArg = frameArg nRegs (NewTarget K);
     em \<leftarrow> loadConstBits64 K ntFrameArg (undefinedRaw K) Unknown ''undefined'' em;
     em \<leftarrow> syncToMem K calleeFrameArg em;
     em \<leftarrow> syncToMem K ntFrameArg em;
     em \<leftarrow> forEach [0 ..< unat argc]
            (\<lambda>i. syncToMem K (frameArg nRegs (ThisArg K - int i))) em;
     em \<leftarrow> freeAllTempExcept K NoFR em;
     let em = a_emit (I_mov (X 0) XRuntime) em;
     let em = a_emit (I_mov (X 1) XFrame) em;
     let em = a_emit (I_mov_imm (W 2) (uint (argc - 1))) em;
     EMIT_RUNTIME_CALL ''_sh_ljs_call'' em
   }"

definition call_FR :: "Consts \<Rightarrow> FR \<Rightarrow> FR \<Rightarrow> 32 word \<Rightarrow> Emitter \<Rightarrow> Emitter option" where
  "call_FR K frRes frCallee argc em = do {
     em \<leftarrow> call_FR_upToCall K frCallee argc em;
     (hwRes, em) \<leftarrow> getOrAllocFRInAnyReg K frRes False (Some (gpX 0)) em;
     em \<leftarrow> movHWReg K False hwRes (gpX 0) em;
     frUpdatedWithHWReg K frRes hwRes None em
   }"

text \<open>
  The other operations that emit a call of the runtime in line. Pointers passed as
  immediates (\<^verbatim>\<open>runtimeModule\<close>) are their 64-bit value; \<^verbatim>\<open>uint32_t\<close> arguments that are only
  passed on as immediates are natural numbers.
\<close>

definition loadConstString_upToCall ::
  "Consts \<Rightarrow> FR \<Rightarrow> 64 word \<Rightarrow> nat \<Rightarrow> Emitter \<Rightarrow> Emitter option" where
  "loadConstString_upToCall K frRes runtimeModule stringID em = do {
     em \<leftarrow> syncAllTempExcept K frRes em;
     em \<leftarrow> freeAllTempExcept K NoFR em;
     let em = a_emit (I_mov (X 0) XRuntime) em;
     em \<leftarrow> loadBits64InGp (X 1) runtimeModule (Some ''RuntimeModule'') em;
     let em = a_emit (I_mov_imm (W 2) (int stringID)) em;
     EMIT_RUNTIME_CALL ''_sh_ljs_get_bytecode_string'' em
   }"

definition loadConstString ::
  "Consts \<Rightarrow> FR \<Rightarrow> 64 word \<Rightarrow> nat \<Rightarrow> Emitter \<Rightarrow> Emitter option" where
  "loadConstString K frRes runtimeModule stringID em = do {
     em \<leftarrow> loadConstString_upToCall K frRes runtimeModule stringID em;
     (hwRes, em) \<leftarrow> getOrAllocFRInAnyReg K frRes False (Some (gpX 0)) em;
     em \<leftarrow> movHWReg K True hwRes (gpX 0) em;
     frUpdatedWithHWReg K frRes hwRes None em
   }"

definition declareGlobalVar :: "Consts \<Rightarrow> nat \<Rightarrow> Emitter \<Rightarrow> Emitter option" where
  "declareGlobalVar K symID em = do {
     em \<leftarrow> syncAllTempExcept K NoFR em;
     em \<leftarrow> freeAllTempExcept K NoFR em;
     let em = a_emit (I_mov (X 0) XRuntime) em;
     let em = a_emit (I_mov_imm (W 1) (int symID)) em;
     EMIT_RUNTIME_CALL ''_sh_ljs_declare_global_var'' em
   }"

definition createTopLevelEnvironment_upToCall ::
  "Consts \<Rightarrow> FR \<Rightarrow> nat \<Rightarrow> Emitter \<Rightarrow> Emitter option" where
  "createTopLevelEnvironment_upToCall K frRes size' em = do {
     em \<leftarrow> syncAllTempExcept K frRes em;
     em \<leftarrow> freeAllTempExcept K NoFR em;
     let em = a_emit (I_mov (X 0) XRuntime) em;
     let em = a_emit (I_mov_imm (X 1) 0) em;
     let em = a_emit (I_mov_imm (W 2) (int size')) em;
     EMIT_RUNTIME_CALL ''_sh_ljs_create_environment'' em
   }"

definition createTopLevelEnvironment ::
  "Consts \<Rightarrow> FR \<Rightarrow> nat \<Rightarrow> Emitter \<Rightarrow> Emitter option" where
  "createTopLevelEnvironment K frRes size' em = do {
     em \<leftarrow> createTopLevelEnvironment_upToCall K frRes size' em;
     (hwRes, em) \<leftarrow> getOrAllocFRInAnyReg K frRes False (Some (gpX 0)) em;
     em \<leftarrow> movHWReg K False hwRes (gpX 0) em;
     frUpdatedWithHWReg K frRes hwRes None em
   }"

definition createClosure_upToCall ::
  "Consts \<Rightarrow> FR \<Rightarrow> FR \<Rightarrow> 64 word \<Rightarrow> 32 word \<Rightarrow> Emitter \<Rightarrow> Emitter option" where
  "createClosure_upToCall K frRes frEnv runtimeModule functionID em = do {
     em \<leftarrow> syncAllTempExcept K (if frRes \<noteq> frEnv then frRes else NoFR) em;
     em \<leftarrow> syncToMem K frEnv em;
     let em = a_emit (I_mov (X 0) XRuntime) em;
     em \<leftarrow> loadFrameAddr (X 1) frEnv em;
     em \<leftarrow> loadBits64InGp (X 2) runtimeModule (Some ''RuntimeModule'') em;
     em \<leftarrow> loadBits64InGp (W 3) (ucast functionID) None em;
     EMIT_RUNTIME_CALL ''_sh_ljs_create_bytecode_closure'' em
   }"

definition createClosure ::
  "Consts \<Rightarrow> FR \<Rightarrow> FR \<Rightarrow> 64 word \<Rightarrow> 32 word \<Rightarrow> Emitter \<Rightarrow> Emitter option" where
  "createClosure K frRes frEnv runtimeModule functionID em = do {
     em \<leftarrow> createClosure_upToCall K frRes frEnv runtimeModule functionID em;
     em \<leftarrow> freeAllTempExcept K NoFR em;
     (hwRes, em) \<leftarrow> getOrAllocFRInAnyReg K frRes False (Some (gpX 0)) em;
     em \<leftarrow> movHWReg K False hwRes (gpX 0) em;
     frUpdatedWithHWReg K frRes hwRes None em
   }"

definition putByValImpl ::
  "Consts \<Rightarrow> FR \<Rightarrow> FR \<Rightarrow> FR \<Rightarrow> string \<Rightarrow> fnptr \<Rightarrow> string \<Rightarrow> Emitter \<Rightarrow> Emitter option" where
  "putByValImpl K frTarget frKey frValue name' shImpl shImplName em = do {
     em \<leftarrow> syncAllTempExcept K NoFR em;
     em \<leftarrow> syncToMem K frTarget em;
     em \<leftarrow> syncToMem K frKey em;
     em \<leftarrow> syncToMem K frValue em;
     em \<leftarrow> freeAllTempExcept K NoFR em;
     let em = a_emit (I_mov (X 0) XRuntime) em;
     em \<leftarrow> loadFrameAddr (X 1) frTarget em;
     em \<leftarrow> loadFrameAddr (X 2) frKey em;
     em \<leftarrow> loadFrameAddr (X 3) frValue em;
     call shImpl shImplName em
   }"

definition getByVal_upToCall :: "Consts \<Rightarrow> FR \<Rightarrow> FR \<Rightarrow> FR \<Rightarrow> Emitter \<Rightarrow> Emitter option" where
  "getByVal_upToCall K frRes frSource frKey em = do {
     em \<leftarrow> syncAllTempExcept K (if frRes \<noteq> frSource \<and> frRes \<noteq> frKey then frRes else NoFR) em;
     em \<leftarrow> syncToMem K frSource em;
     em \<leftarrow> syncToMem K frKey em;
     em \<leftarrow> freeAllTempExcept K NoFR em;
     let em = a_emit (I_mov (X 0) XRuntime) em;
     em \<leftarrow> loadFrameAddr (X 1) frSource em;
     em \<leftarrow> loadFrameAddr (X 2) frKey em;
     EMIT_RUNTIME_CALL ''_sh_ljs_get_by_val_rjs'' em
   }"

definition getByVal :: "Consts \<Rightarrow> FR \<Rightarrow> FR \<Rightarrow> FR \<Rightarrow> Emitter \<Rightarrow> Emitter option" where
  "getByVal K frRes frSource frKey em = do {
     em \<leftarrow> getByVal_upToCall K frRes frSource frKey em;
     (hwRes, em) \<leftarrow> getOrAllocFRInAnyReg K frRes False (Some (gpX 0)) em;
     em \<leftarrow> movHWReg K False hwRes (gpX 0) em;
     frUpdatedWithHWReg K frRes hwRes None em
   }"

definition getByIndex_upToCall :: "Consts \<Rightarrow> FR \<Rightarrow> FR \<Rightarrow> nat \<Rightarrow> Emitter \<Rightarrow> Emitter option" where
  "getByIndex_upToCall K frRes frSource key em = do {
     em \<leftarrow> syncAllTempExcept K (if frRes \<noteq> frSource then frRes else NoFR) em;
     em \<leftarrow> syncToMem K frSource em;
     em \<leftarrow> freeAllTempExcept K NoFR em;
     let em = a_emit (I_mov (X 0) XRuntime) em;
     em \<leftarrow> loadFrameAddr (X 1) frSource em;
     let em = a_emit (I_mov_imm (W 2) (int key)) em;
     EMIT_RUNTIME_CALL ''_sh_ljs_get_by_index_rjs'' em
   }"

definition getByIndex :: "Consts \<Rightarrow> FR \<Rightarrow> FR \<Rightarrow> nat \<Rightarrow> Emitter \<Rightarrow> Emitter option" where
  "getByIndex K frRes frSource key em = do {
     em \<leftarrow> getByIndex_upToCall K frRes frSource key em;
     (hwRes, em) \<leftarrow> getOrAllocFRInAnyReg K frRes False (Some (gpX 0)) em;
     em \<leftarrow> movHWReg K False hwRes (gpX 0) em;
     frUpdatedWithHWReg K frRes hwRes None em
   }"

definition putByIdImpl ::
  "Consts \<Rightarrow> FR \<Rightarrow> nat \<Rightarrow> FR \<Rightarrow> nat \<Rightarrow> string \<Rightarrow> fnptr \<Rightarrow> string \<Rightarrow> Emitter \<Rightarrow> Emitter option" where
  "putByIdImpl K frTarget symID frValue cacheIdx name' shImpl shImplName em = do {
     em \<leftarrow> syncAllTempExcept K NoFR em;
     em \<leftarrow> syncToMem K frTarget em;
     em \<leftarrow> syncToMem K frValue em;
     em \<leftarrow> freeAllTempExcept K NoFR em;
     let em = a_emit (I_mov (X 0) XRuntime) em;
     em \<leftarrow> loadFrameAddr (X 1) frTarget em;
     let em = a_emit (I_mov_imm (W 2) (int symID)) em;
     em \<leftarrow> loadFrameAddr (X 3) frValue em;
     let em = (if cacheIdx = PROPERTY_CACHING_DISABLED K then a_emit (I_mov_imm (X 4) 0) em
               else
                 (let em = a_emit (I_ldr (X 4) (MemRO (roOfsWritePropertyCachePtr em))) em
                  in if cacheIdx \<noteq> 0
                     then a_emit (I_add_imm (X 4) (X 4) (int (sizeofPropertyCacheEntry K * cacheIdx))) em
                     else em));
     call shImpl shImplName em
   }"

definition isIn_upToCall :: "Consts \<Rightarrow> FR \<Rightarrow> FR \<Rightarrow> FR \<Rightarrow> Emitter \<Rightarrow> Emitter option" where
  "isIn_upToCall K frRes frLeft frRight em = do {
     em \<leftarrow> syncAllTempExcept K (if frRes \<noteq> frLeft \<and> frRes \<noteq> frRight then frRes else NoFR) em;
     em \<leftarrow> syncToMem K frLeft em;
     em \<leftarrow> syncToMem K frRight em;
     em \<leftarrow> freeAllTempExcept K NoFR em;
     let em = a_emit (I_mov (X 0) XRuntime) em;
     em \<leftarrow> loadFrameAddr (X 1) frLeft em;
     em \<leftarrow> loadFrameAddr (X 2) frRight em;
     EMIT_RUNTIME_CALL ''_sh_ljs_is_in_rjs'' em
   }"

definition isIn :: "Consts \<Rightarrow> FR \<Rightarrow> FR \<Rightarrow> FR \<Rightarrow> Emitter \<Rightarrow> Emitter option" where
  "isIn K frRes frLeft frRight em = do {
     em \<leftarrow> isIn_upToCall K frRes frLeft frRight em;
     (hwRes, em) \<leftarrow> getOrAllocFRInAnyReg K frRes False (Some (gpX 0)) em;
     em \<leftarrow> movHWReg K False hwRes (gpX 0) em;
     frUpdatedWithHWReg K frRes hwRes None em
   }"

text \<open>
  \<^verbatim>\<open>callN\<close>. The immediate \<^verbatim>\<open>args.size() - 1\<close> is moved to the 32-bit register \<^verbatim>\<open>w2\<close>.
\<close>

definition callN_upToCall :: "Consts \<Rightarrow> FR \<Rightarrow> FR list \<Rightarrow> Emitter \<Rightarrow> Emitter option" where
  "callN_upToCall K frCallee args em = do {
     let nRegs = length (frameRegs em);
     let calleeFrameArg = frameArg nRegs (CalleeClosureOrCB K);
     em \<leftarrow> (if frCallee \<noteq> calleeFrameArg then do {
              em \<leftarrow> freeFRTemp K calleeFrameArg em;
              (calleeReg, em) \<leftarrow> getOrAllocFRInAnyReg K frCallee True None em;
              frCalleeState \<leftarrow> getFRState frCallee em;
              movFRFromHW K calleeFrameArg calleeReg (Some (localType frCalleeState)) em }
            else Some em);
     em \<leftarrow> syncToMem K calleeFrameArg em;
     em \<leftarrow> forEach [0 ..< length args]
            (\<lambda>i em. do {
               let argLoc = frameArg nRegs (ThisArg K - int i);
               em \<leftarrow> (if args ! i \<noteq> argLoc then do {
                        em \<leftarrow> freeFRTemp K argLoc em;
                        (argReg, em) \<leftarrow> getOrAllocFRInAnyReg K (args ! i) True None em;
                        argState \<leftarrow> getFRState (args ! i) em;
                        movFRFromHW K argLoc argReg (Some (localType argState)) em }
                      else Some em);
               syncToMem K argLoc em }) em;
     let ntFrameArg = frameArg nRegs (NewTarget K);
     em \<leftarrow> loadConstBits64 K ntFrameArg (undefinedRaw K) Unknown ''undefined'' em;
     em \<leftarrow> syncToMem K ntFrameArg em;
     em \<leftarrow> syncAllTempExcept K NoFR em;
     em \<leftarrow> freeAllTempExcept K NoFR em;
     let em = a_emit (I_mov (X 0) XRuntime) em;
     let em = a_emit (I_mov (X 1) XFrame) em;
     let em = a_emit (I_mov_imm (W 2) (uint (word_of_nat (length args) - 1 :: 32 word))) em;
     EMIT_RUNTIME_CALL ''_sh_ljs_call'' em
   }"

definition callN :: "Consts \<Rightarrow> FR \<Rightarrow> FR \<Rightarrow> FR list \<Rightarrow> Emitter \<Rightarrow> Emitter option" where
  "callN K frRes frCallee args em = do {
     em \<leftarrow> callN_upToCall K frCallee args em;
     (hwRes, em) \<leftarrow> getOrAllocFRInAnyReg K frRes False (Some (gpX 0)) em;
     em \<leftarrow> movHWReg K False hwRes (gpX 0) em;
     frUpdatedWithHWReg K frRes hwRes None em
   }"

definition callBuiltin_upToCall :: "Consts \<Rightarrow> nat \<Rightarrow> 32 word \<Rightarrow> Emitter \<Rightarrow> Emitter option" where
  "callBuiltin_upToCall K builtinIndex argc em = do {
     let nRegs = length (frameRegs em);
     em \<leftarrow> forEach [1 ..< unat argc]
            (\<lambda>i. syncToMem K (frameArg nRegs (ThisArg K - int i))) em;
     em \<leftarrow> syncAllTempExcept K NoFR em;
     em \<leftarrow> freeAllTempExcept K NoFR em;
     let em = a_emit (I_mov (X 0) XRuntime) em;
     let em = a_emit (I_mov (X 1) XFrame) em;
     let em = a_emit (I_mov_imm (W 2) (uint (argc - 1))) em;
     let em = a_emit (I_mov_imm (W 3) (int builtinIndex)) em;
     EMIT_RUNTIME_CALL ''_sh_ljs_call_builtin'' em
   }"

definition callBuiltin :: "Consts \<Rightarrow> FR \<Rightarrow> nat \<Rightarrow> 32 word \<Rightarrow> Emitter \<Rightarrow> Emitter option" where
  "callBuiltin K frRes builtinIndex argc em = do {
     em \<leftarrow> callBuiltin_upToCall K builtinIndex argc em;
     (hwRes, em) \<leftarrow> getOrAllocFRInAnyReg K frRes False (Some (gpX 0)) em;
     em \<leftarrow> movHWReg K False hwRes (gpX 0) em;
     frUpdatedWithHWReg K frRes hwRes None em
   }"

definition callWithNewTarget_upToCall ::
  "Consts \<Rightarrow> FR \<Rightarrow> FR \<Rightarrow> FR \<Rightarrow> 32 word \<Rightarrow> Emitter \<Rightarrow> Emitter option" where
  "callWithNewTarget_upToCall K frRes frCallee frNewTarget argc em = do {
     let nRegs = length (frameRegs em);
     let calleeFrameArg = frameArg nRegs (CalleeClosureOrCB K);
     em \<leftarrow> (if calleeFrameArg \<noteq> frCallee then do {
              em \<leftarrow> freeFRTemp K calleeFrameArg em;
              (calleeReg, em) \<leftarrow> getOrAllocFRInAnyReg K frCallee True None em;
              frCalleeState \<leftarrow> getFRState frCallee em;
              movFRFromHW K calleeFrameArg calleeReg (Some (localType frCalleeState)) em }
            else Some em);
     let ntFrameArg = frameArg nRegs (NewTarget K);
     em \<leftarrow> (if ntFrameArg \<noteq> frNewTarget then do {
              em \<leftarrow> freeFRTemp K ntFrameArg em;
              (newTargetReg, em) \<leftarrow> getOrAllocFRInAnyReg K frNewTarget True None em;
              frNewTargetState \<leftarrow> getFRState frNewTarget em;
              movFRFromHW K ntFrameArg newTargetReg (Some (localType frNewTargetState)) em }
            else Some em);
     em \<leftarrow> forEach [0 ..< unat argc]
            (\<lambda>i. syncToMem K (frameArg nRegs (ThisArg K - int i))) em;
     em \<leftarrow> syncToMem K calleeFrameArg em;
     em \<leftarrow> syncToMem K ntFrameArg em;
     em \<leftarrow> syncAllTempExcept K NoFR em;
     em \<leftarrow> freeAllTempExcept K frRes em;
     let em = a_emit (I_mov (X 0) XRuntime) em;
     let em = a_emit (I_mov (X 1) XFrame) em;
     let em = a_emit (I_mov_imm (W 2) (uint (argc - 1))) em;
     EMIT_RUNTIME_CALL ''_sh_ljs_call'' em
   }"

definition callWithNewTarget ::
  "Consts \<Rightarrow> FR \<Rightarrow> FR \<Rightarrow> FR \<Rightarrow> 32 word \<Rightarrow> Emitter \<Rightarrow> Emitter option" where
  "callWithNewTarget K frRes frCallee frNewTarget argc em = do {
     em \<leftarrow> callWithNewTarget_upToCall K frRes frCallee frNewTarget argc em;
     (hwRes, em) \<leftarrow> getOrAllocFRInAnyReg K frRes False None em;
     em \<leftarrow> movHWReg K False hwRes (gpX 0) em;
     frUpdatedWithHWReg K frRes hwRes None em
   }"

definition getBuiltinClosure_upToCall :: "Consts \<Rightarrow> FR \<Rightarrow> nat \<Rightarrow> Emitter \<Rightarrow> Emitter option" where
  "getBuiltinClosure_upToCall K frRes builtinIndex em = do {
     em \<leftarrow> syncAllTempExcept K frRes em;
     em \<leftarrow> freeAllTempExcept K frRes em;
     let em = a_emit (I_mov (X 0) XRuntime) em;
     let em = a_emit (I_mov_imm (W 1) (int builtinIndex)) em;
     EMIT_RUNTIME_CALL ''_sh_ljs_get_builtin_closure'' em
   }"

definition getBuiltinClosure :: "Consts \<Rightarrow> FR \<Rightarrow> nat \<Rightarrow> Emitter \<Rightarrow> Emitter option" where
  "getBuiltinClosure K frRes builtinIndex em = do {
     em \<leftarrow> getBuiltinClosure_upToCall K frRes builtinIndex em;
     (hwRes, em) \<leftarrow> getOrAllocFRInAnyReg K frRes False None em;
     em \<leftarrow> movHWReg K False hwRes (gpX 0) em;
     frUpdatedWithHWReg K frRes hwRes None em
   }"

text \<open>
  The last branch of \<^verbatim>\<open>jmpTrueFalse\<close>, which converts the input with a call of the
  runtime, up to that call. \<^verbatim>\<open>jmpTrueFalse\<close> has run \<^verbatim>\<open>syncAllTempExcept(FR())\<close> once
  before it selects the branch.
\<close>

definition jmpTrueFalse_toBoolean_upToCall :: "Consts \<Rightarrow> FR \<Rightarrow> Emitter \<Rightarrow> Emitter option" where
  "jmpTrueFalse_toBoolean_upToCall K frInput em = do {
     em \<leftarrow> syncAllTempExcept K NoFR em;
     em \<leftarrow> movHWFromFR K (gpX 0) frInput em;
     EMIT_RUNTIME_CALL ''_sh_ljs_to_boolean'' em
   }"

section \<open>Properties\<close>

subsection \<open>Notions used in the statements\<close>

text \<open>
  A frame register has an authoritative location when it is bound to a local register, or
  its global register exists and is up to date, or its frame slot is up to date.
\<close>

definition authoritative :: "FRState \<Rightarrow> bool" where
  "authoritative s \<longleftrightarrow>
     localGpX s \<noteq> NoReg \<or> localVecD s \<noteq> NoReg \<or>
     (globalReg s \<noteq> NoReg \<and> globalRegUpToDate s) \<or> frameUpToDate s"

text \<open>
  The cross references agree: a local register recorded for frame register \<open>i\<close> is of the
  right class and names \<open>i\<close> as its owner.
\<close>

definition ownership :: "Emitter \<Rightarrow> bool" where
  "ownership em \<longleftrightarrow>
     (\<forall>i < length (frameRegs em).
        (localGpX (frameRegs em ! i) \<noteq> NoReg \<longrightarrow>
           isGpX (localGpX (frameRegs em ! i)) \<and> hwRegs em (localGpX (frameRegs em ! i)) = FR i) \<and>
        (localVecD (frameRegs em ! i) \<noteq> NoReg \<longrightarrow>
           isVecD (localVecD (frameRegs em ! i)) \<and> hwRegs em (localVecD (frameRegs em ! i)) = FR i))"

text \<open>
  \<open>onlySyncs em em'\<close>: no binding changed, no type changed, the up-to-date flags were
  only raised, and the same temporaries are available.
\<close>

definition flagsGrow :: "FRState \<Rightarrow> FRState \<Rightarrow> bool" where
  "flagsGrow s s' \<longleftrightarrow>
     localGpX s' = localGpX s \<and> localVecD s' = localVecD s \<and> globalReg s' = globalReg s \<and>
     localType s' = localType s \<and> globalType s' = globalType s \<and>
     (frameUpToDate s \<longrightarrow> frameUpToDate s') \<and> (globalRegUpToDate s \<longrightarrow> globalRegUpToDate s')"

definition onlySyncs :: "Emitter \<Rightarrow> Emitter \<Rightarrow> bool" where
  "onlySyncs em em' \<longleftrightarrow>
     hwRegs em' = hwRegs em \<and> list_all2 flagsGrow (frameRegs em) (frameRegs em') \<and>
     avail (gpTemp em') = avail (gpTemp em) \<and> avail (vecTemp em') = avail (vecTemp em)"

text \<open>The instructions that \<open>movHWReg\<close> sends to the assembler for a pair of registers.\<close>

definition movCode :: "HWReg \<Rightarrow> HWReg \<Rightarrow> instr list option" where
  "movCode dst src =
     (if dst = src then Some []
      else case (dst, src) of
          (vecD d, vecD s) \<Rightarrow> Some [I_fmov (D d) (D s)]
        | (vecD d, gpX s) \<Rightarrow> Some [I_fmov (D d) (X s)]
        | (gpX d, vecD s) \<Rightarrow> Some [I_fmov (X d) (D s)]
        | (gpX d, gpX s) \<Rightarrow> Some [I_mov (X d) (X s)]
        | _ \<Rightarrow> None)"

text \<open>The load or store between a register and the frame slot of a frame register.\<close>

definition frameCode :: "(areg \<Rightarrow> mem \<Rightarrow> instr) \<Rightarrow> HWReg \<Rightarrow> FR \<Rightarrow> instr option" where
  "frameCode op hw fr =
     (case (hw, fr) of
        (gpX r, FR i) \<Rightarrow> Some (op (X r) (Mem XFrame (8 * int i)))
      | (vecD r, FR i) \<Rightarrow> Some (op (D r) (Mem XFrame (8 * int i)))
      | _ \<Rightarrow> None)"

text \<open>The register that \<open>isFRInRegister\<close> reports for a binding state.\<close>

definition registerOf :: "FRState \<Rightarrow> HWReg" where
  "registerOf s =
     (if localGpX s \<noteq> NoReg then localGpX s
      else if localVecD s \<noteq> NoReg then localVecD s
      else globalReg s)"

text \<open>
  A frame register is backed when its latest value is in its global register or in its
  frame slot, the places a called function leaves alone or can see.
\<close>

definition backed :: "FRState \<Rightarrow> bool" where
  "backed s \<longleftrightarrow> (globalReg s \<noteq> NoReg \<and> globalRegUpToDate s) \<or> frameUpToDate s"

text \<open>Local registers are temporaries of their class.\<close>

definition tempsInRange :: "Consts \<Rightarrow> Emitter \<Rightarrow> bool" where
  "tempsInRange K em \<longleftrightarrow>
     list_all (\<lambda>s. (localGpX s \<noteq> NoReg \<longrightarrow> isTempGpX K (localGpX s)) \<and>
                   (localVecD s \<noteq> NoReg \<longrightarrow> isTempVecD K (localVecD s))) (frameRegs em)"

text \<open>
  The reverse cross reference: the owner recorded for a hardware register is a frame
  register of the function and has that register as one of its local registers. A state is
  well formed when both directions hold and local registers are temporaries.
\<close>

definition hwValid :: "Emitter \<Rightarrow> bool" where
  "hwValid em \<longleftrightarrow>
     (\<forall>h j. hwRegs em h = FR j \<longrightarrow>
        j < length (frameRegs em) \<and>
        (localGpX (frameRegs em ! j) = h \<or> localVecD (frameRegs em ! j) = h))"

definition wellFormed :: "Consts \<Rightarrow> Emitter \<Rightarrow> bool" where
  "wellFormed K em \<longleftrightarrow> ownership em \<and> tempsInRange K em \<and> hwValid em"

text \<open>
  \<open>onlyFrees K em em'\<close>: local registers were released at most; nothing was emitted and
  no flag, type or global register changed; a well-formed state stays well formed.
\<close>

definition sameButLocals :: "FRState \<Rightarrow> FRState \<Rightarrow> bool" where
  "sameButLocals s s' \<longleftrightarrow>
     (localGpX s' = NoReg \<or> localGpX s' = localGpX s) \<and>
     (localVecD s' = NoReg \<or> localVecD s' = localVecD s) \<and>
     globalReg s' = globalReg s \<and> localType s' = localType s \<and> globalType s' = globalType s \<and>
     frameUpToDate s' = frameUpToDate s \<and> globalRegUpToDate s' = globalRegUpToDate s"

definition onlyFrees :: "Consts \<Rightarrow> Emitter \<Rightarrow> Emitter \<Rightarrow> bool" where
  "onlyFrees K em em' \<longleftrightarrow>
     (wellFormed K em \<longrightarrow> wellFormed K em') \<and>
     emitted em' = emitted em \<and>
     list_all2 sameButLocals (frameRegs em) (frameRegs em')"

text \<open>
  \<open>safeStep em em'\<close>: local registers were kept or released, a backed frame register
  stays backed and one with an authoritative location keeps one.
\<close>

definition keepsBacking :: "FRState \<Rightarrow> FRState \<Rightarrow> bool" where
  "keepsBacking s s' \<longleftrightarrow>
     (localGpX s' = NoReg \<or> localGpX s' = localGpX s) \<and>
     (localVecD s' = NoReg \<or> localVecD s' = localVecD s) \<and>
     (backed s \<longrightarrow> backed s') \<and> (authoritative s \<longrightarrow> authoritative s')"

definition safeStep :: "Emitter \<Rightarrow> Emitter \<Rightarrow> bool" where
  "safeStep em em' \<longleftrightarrow>
     (ownership em \<longrightarrow> ownership em') \<and>
     list_all2 keepsBacking (frameRegs em) (frameRegs em')"

text \<open>The last step of \<open>freeReg\<close>: a temporary register goes back to its pool.\<close>

definition releasePool :: "Consts \<Rightarrow> HWReg \<Rightarrow> Emitter \<Rightarrow> Emitter" where
  "releasePool K h em =
     (if isGpX h
      then (if isTempGpX K h then em\<lparr>gpTemp := ra_free (indexInClass h) (gpTemp em)\<rparr> else em)
      else (if isTempVecD K h then em\<lparr>vecTemp := ra_free (indexInClass h) (vecTemp em)\<rparr> else em))"

text \<open>
  \<open>quiet em em'\<close>: instructions were only appended, and none of them is a call.
  \<open>samePools em em'\<close>: neither pool of temporaries changed.
\<close>

definition isCall :: "instr \<Rightarrow> bool" where
  "isCall i = (case i of I_bl l \<Rightarrow> True | _ \<Rightarrow> False)"

definition quiet :: "Emitter \<Rightarrow> Emitter \<Rightarrow> bool" where
  "quiet em em' \<longleftrightarrow>
     (\<exists>code. emitted em' = emitted em @ code \<and> list_all (\<lambda>i. \<not> isCall i) code)"

definition samePools :: "Emitter \<Rightarrow> Emitter \<Rightarrow> bool" where
  "samePools em em' \<longleftrightarrow> gpTemp em' = gpTemp em \<and> vecTemp em' = vecTemp em"

text \<open>
  \<open>releases K a b\<close>: from a well-formed state \<open>a\<close>, hardware registers only lost their
  owner, and exactly the temporaries that lost their owner went back to their pool.
\<close>

definition releases :: "Consts \<Rightarrow> Emitter \<Rightarrow> Emitter \<Rightarrow> bool" where
  "releases K a b \<longleftrightarrow>
     (wellFormed K a \<longrightarrow>
        wellFormed K b \<and>
        (\<forall>h. hwRegs b h = hwRegs a h \<or> hwRegs b h = NoFR) \<and>
        set (avail (gpTemp b)) =
          set (avail (gpTemp a)) \<union> {r. hwRegs a (gpX r) \<noteq> NoFR \<and> hwRegs b (gpX r) = NoFR} \<and>
        set (lru (gpTemp b)) =
          set (lru (gpTemp a)) - {r. hwRegs a (gpX r) \<noteq> NoFR \<and> hwRegs b (gpX r) = NoFR} \<and>
        set (avail (vecTemp b)) =
          set (avail (vecTemp a)) \<union> {r. hwRegs a (vecD r) \<noteq> NoFR \<and> hwRegs b (vecD r) = NoFR} \<and>
        set (lru (vecTemp b)) =
          set (lru (vecTemp a)) - {r. hwRegs a (vecD r) \<noteq> NoFR \<and> hwRegs b (vecD r) = NoFR})"

text \<open>
  \<open>atCall dead em em'\<close>: \<open>em'\<close> is the emitter state at a call of the runtime emitted
  from state \<open>em\<close>. The instructions emitted since \<open>em\<close> end with the branch-and-link and
  contain no other call, and every frame register that had an authoritative location in
  \<open>em\<close> is backed in \<open>em'\<close>, those in \<open>dead\<close> excepted: the registers whose value the
  operation is about to overwrite with the result of the call.
\<close>

definition atCall :: "FR set \<Rightarrow> Emitter \<Rightarrow> Emitter \<Rightarrow> bool" where
  "atCall dead em em' \<longleftrightarrow>
     length (frameRegs em') = length (frameRegs em) \<and>
     (\<exists>code lab. emitted em' = emitted em @ code @ [I_bl lab] \<and>
        list_all (\<lambda>i. \<not> isCall i) code) \<and>
     (\<forall>j < length (frameRegs em).
        FR j \<notin> dead \<longrightarrow> authoritative (frameRegs em ! j) \<longrightarrow> backed (frameRegs em' ! j))"

text \<open>
  The pools agree with the owners: an available index names a temporary register without
  an owner, and the invalid register handle has no owner. \<open>allocInv\<close> adds this to
  well-formedness; it holds in the state in which nothing is bound and is what allocation
  of a temporary relies on. \<open>carries K P em em'\<close>: the step emitted no call and, from a
  state satisfying \<open>allocInv\<close>, leads to one, with the same frame registers, in which
  every frame register that satisfied \<open>P\<close> still does.
\<close>

definition poolsOk :: "Consts \<Rightarrow> Emitter \<Rightarrow> bool" where
  "poolsOk K em \<longleftrightarrow>
     (\<forall>r \<in> set (avail (gpTemp em)). isTempGpX K (gpX r) \<and> hwRegs em (gpX r) = NoFR) \<and>
     (\<forall>r \<in> set (avail (vecTemp em)). isTempVecD K (vecD r) \<and> hwRegs em (vecD r) = NoFR) \<and>
     hwRegs em NoReg = NoFR"

definition allocInv :: "Consts \<Rightarrow> Emitter \<Rightarrow> bool" where
  "allocInv K em \<longleftrightarrow> wellFormed K em \<and> poolsOk K em"

definition carries :: "Consts \<Rightarrow> (FRState \<Rightarrow> bool) \<Rightarrow> Emitter \<Rightarrow> Emitter \<Rightarrow> bool" where
  "carries K P em em' \<longleftrightarrow>
     quiet em em' \<and>
     (allocInv K em \<longrightarrow>
        allocInv K em' \<and> length (frameRegs em') = length (frameRegs em) \<and>
        (\<forall>j < length (frameRegs em). P (frameRegs em ! j) \<longrightarrow> P (frameRegs em' ! j)))"

subsection \<open>Sample states\<close>

text \<open>
  A configuration with two temporary registers per class, and an emitter over three frame
  registers with nothing bound and nothing emitted.
\<close>

definition K2 :: Consts where
  "K2 = \<lparr>kGPTemp = (0, 1), kVecTemp = (16, 17), ArgCount = -7, NewTarget = -8,
         CalleeClosureOrCB = -9, ThisArg = -10, undefinedRaw = 0xFFFA000000000000,
         PROPERTY_CACHING_DISABLED = 0, sizeofPropertyCacheEntry = 8\<rparr>"

definition fr0 :: FRState where
  "fr0 = \<lparr>localGpX = NoReg, localVecD = NoReg, globalReg = NoReg, localType = Unknown,
          globalType = Unknown, frameUpToDate = False, globalRegUpToDate = False\<rparr>"

definition emptyEmitter :: "FRState list \<Rightarrow> Emitter" where
  "emptyEmitter frs =
     \<lparr>frameRegs = frs, hwRegs = (\<lambda>_. NoFR),
      gpTemp = \<lparr>avail = [0, 1], lru = []\<rparr>, vecTemp = \<lparr>avail = [16, 17], lru = []\<rparr>,
      emitted = [], numLabels = 0, slowPaths = [], expectedError = kErrorOk, logger = False,
      roData = [], roDataDesc = [], fp64ConstMap = Map.empty, thunkMap = Map.empty, thunks = [],
      roOfsReadPropertyCachePtr = 0, roOfsWritePropertyCachePtr = 8\<rparr>"

text \<open>
  Frame register 0 lives only in the temporary \<open>x0\<close>; frame register 1 is up to date in
  its frame slot.
\<close>

definition emLocal :: Emitter where
  "emLocal =
     (emptyEmitter [fr0\<lparr>localGpX := gpX 0\<rparr>, fr0\<lparr>frameUpToDate := True\<rparr>])
       \<lparr>hwRegs := (\<lambda>_. NoFR)(gpX 0 := FR 0), gpTemp := \<lparr>avail = [1], lru = [0]\<rparr>\<rparr>"

text \<open>
  Frame register 0 is bound to the temporary \<open>x0\<close> and pinned to \<open>x22\<close>, which is up to
  date; its frame slot is stale.
\<close>

definition emPinned :: Emitter where
  "emPinned =
     (emptyEmitter [fr0\<lparr>localGpX := gpX 0, globalReg := gpX 22, globalRegUpToDate := True\<rparr>])
       \<lparr>hwRegs := (\<lambda>_. NoFR)(gpX 0 := FR 0), gpTemp := \<lparr>avail = [1], lru = [0]\<rparr>\<rparr>"

text \<open>
  Both integer temporaries are taken: \<open>x0\<close> holds frame register 0 and \<open>x1\<close> holds frame
  register 1; \<open>x1\<close> is the least recently used. Neither frame slot is up to date.
\<close>

definition emFull :: Emitter where
  "emFull =
     (emptyEmitter [fr0\<lparr>localGpX := gpX 0\<rparr>, fr0\<lparr>localGpX := gpX 1\<rparr>])
       \<lparr>hwRegs := (\<lambda>_. NoFR)(gpX 0 := FR 0, gpX 1 := FR 1), gpTemp := \<lparr>avail = [], lru = [1, 0]\<rparr>\<rparr>"

text \<open>
  As \<open>emFull\<close>, but frame register 1 is pinned to \<open>x22\<close>, which is stale.
\<close>

definition emFullPinned :: Emitter where
  "emFullPinned =
     (emptyEmitter [fr0\<lparr>localGpX := gpX 0\<rparr>, fr0\<lparr>localGpX := gpX 1, globalReg := gpX 22\<rparr>])
       \<lparr>hwRegs := (\<lambda>_. NoFR)(gpX 0 := FR 0, gpX 1 := FR 1), gpTemp := \<lparr>avail = [], lru = [1, 0]\<rparr>\<rparr>"

text \<open>
  Frame register 0, speculated to be a number, lives only in the temporary \<open>x0\<close>; frame
  register 1, a number, lives in the temporary \<open>d16\<close> and is pinned to \<open>x22\<close>, which is
  stale; frame register 2 is up to date in its frame slot.
\<close>

definition emBusy :: Emitter where
  "emBusy =
     (emptyEmitter
        [fr0\<lparr>localGpX := gpX 0, localType := Number\<rparr>,
         fr0\<lparr>localVecD := vecD 16, globalReg := gpX 22, localType := Number, globalType := Number\<rparr>,
         fr0\<lparr>frameUpToDate := True\<rparr>])
       \<lparr>hwRegs := (\<lambda>_. NoFR)(gpX 0 := FR 0, vecD 16 := FR 1),
        gpTemp := \<lparr>avail = [1], lru = [0]\<rparr>, vecTemp := \<lparr>avail = [17], lru = [16]\<rparr>\<rparr>"

subsection \<open>Basic facts about the monadic steps\<close>

lemma bind_SomeE:
  assumes "Option.bind m f = Some y"
  obtains x where "m = Some x" and "f x = Some y"
  using assms by (cases m) auto

lemma assert_Some [simp]: "assert c = Some u \<longleftrightarrow> c"
  by (simp add: assert_def)

lemma assert_None [simp]: "assert c = None \<longleftrightarrow> \<not> c"
  by (simp add: assert_def)

lemma assert_True [simp]: "assert True = Some ()"
  by (simp add: assert_def)

lemma assert_False [simp]: "assert False = None"
  by (simp add: assert_def)

lemma updFR_simps [simp]:
  "frameRegs (updFR (FR i) f em) = (frameRegs em)[i := f (frameRegs em ! i)]"
  "hwRegs (updFR fr f em) = hwRegs em"
  "emitted (updFR fr f em) = emitted em"
  "gpTemp (updFR fr f em) = gpTemp em"
  "vecTemp (updFR fr f em) = vecTemp em"
  "slowPaths (updFR fr f em) = slowPaths em"
  "numLabels (updFR fr f em) = numLabels em"
  by (auto simp: updFR_def split: FR.splits)

lemma useReg_simps [simp]:
  "frameRegs (useReg K h em) = frameRegs em"
  "hwRegs (useReg K h em) = hwRegs em"
  "emitted (useReg K h em) = emitted em"
  "slowPaths (useReg K h em) = slowPaths em"
  "numLabels (useReg K h em) = numLabels em"
  by (auto simp: useReg_def)

lemma getFRState_simps [simp]:
  "getFRState fr (em\<lparr>emitted := c\<rparr>) = getFRState fr em"
  "getFRState fr (em\<lparr>hwRegs := h\<rparr>) = getFRState fr em"
  "getFRState fr (em\<lparr>gpTemp := g\<rparr>) = getFRState fr em"
  "getFRState fr (em\<lparr>vecTemp := v\<rparr>) = getFRState fr em"
  "getFRState fr (useReg K r em) = getFRState fr em"
  "getFRState NoFR em = None"
  "getFRState (FR i) em = (if i < length (frameRegs em) then Some (frameRegs em ! i) else None)"
  by (auto simp: getFRState_def split: FR.splits)

lemma movHWReg_eq:
  "movHWReg K use dst src em =
     (case movCode dst src of
        None \<Rightarrow> None
      | Some w \<Rightarrow> Some ((if use then useReg K dst (useReg K src (em\<lparr>emitted := emitted em @ w\<rparr>))
                        else em\<lparr>emitted := emitted em @ w\<rparr>)))"
  by (cases dst; cases src) (auto simp: movHWReg_def movCode_def a_emit_def a64GpX_def a64VecD_def)

lemma storeFrame_eq:
  "storeFrame src fr em =
     (case frameCode I_str src fr of
        None \<Rightarrow> None
      | Some c \<Rightarrow> Some (em\<lparr>emitted := emitted em @ [c]\<rparr>))"
  by (cases src; cases fr)
     (auto simp: storeFrame_def frameCode_def frA64Mem_def a_emit_def a64GpX_def a64VecD_def)

lemma loadFrame_eq:
  "loadFrame dst fr em =
     (case frameCode I_ldr dst fr of
        None \<Rightarrow> None
      | Some c \<Rightarrow> Some (em\<lparr>emitted := emitted em @ [c]\<rparr>))"
  by (cases dst; cases fr)
     (auto simp: loadFrame_def frameCode_def frA64Mem_def a_emit_def a64GpX_def a64VecD_def)

lemma storeHWRegToFrame_eq:
  "storeHWRegToFrame fr src em =
     (case frameCode I_str src fr of
        None \<Rightarrow> None
      | Some c \<Rightarrow>
          if getFRState fr em = None then None
          else Some (updFR fr (\<lambda>s. s\<lparr>frameUpToDate := True\<rparr>)
                       (em\<lparr>emitted := emitted em @ [c]\<rparr>)))"
  by (cases fr) (auto simp: storeHWRegToFrame_def storeFrame_eq split: option.splits)

subsection \<open>Steps that only synchronise\<close>

lemma flagsGrow_refl [simp]: "flagsGrow s s"
  by (simp add: flagsGrow_def)

lemma flagsGrow_trans: "flagsGrow a b \<Longrightarrow> flagsGrow b c \<Longrightarrow> flagsGrow a c"
  by (simp add: flagsGrow_def)

lemma onlySyncs_refl [simp]: "onlySyncs em em"
  by (simp add: onlySyncs_def list_all2_refl)

lemma onlySyncs_trans: "onlySyncs a b \<Longrightarrow> onlySyncs b c \<Longrightarrow> onlySyncs a c"
  unfolding onlySyncs_def
  by (auto elim: list_all2_trans[rotated] intro: flagsGrow_trans)

lemma useReg_avail [simp]:
  "avail (gpTemp (useReg K h em)) = avail (gpTemp em)"
  "avail (vecTemp (useReg K h em)) = avail (vecTemp em)"
  by (auto simp: useReg_def ra_use_def)

lemma onlySyncs_useReg [simp]: "onlySyncs em (useReg K h em)"
  by (simp add: onlySyncs_def list_all2_refl)

lemma onlySyncs_updFR:
  "flagsGrow (frameRegs em ! i) (f (frameRegs em ! i)) \<Longrightarrow> onlySyncs em (updFR (FR i) f em)"
  by (cases "i < length (frameRegs em)")
     (auto simp: onlySyncs_def list_all2_conv_all_nth nth_list_update list_all2_refl)

lemma onlySyncs_updFR_flags [simp]:
  "onlySyncs em (updFR fr (\<lambda>s. s\<lparr>globalRegUpToDate := True\<rparr>) em)"
  "onlySyncs em (updFR fr (\<lambda>s. s\<lparr>frameUpToDate := True\<rparr>) em)"
  by (cases fr; simp add: updFR_def; rule onlySyncs_updFR[unfolded updFR_def, simplified];
      simp add: flagsGrow_def)+

lemma onlySyncs_step:
  "onlySyncs a b \<Longrightarrow> onlySyncs a (updFR fr (\<lambda>s. s\<lparr>globalRegUpToDate := True\<rparr>) b)"
  "onlySyncs a b \<Longrightarrow> onlySyncs a (updFR fr (\<lambda>s. s\<lparr>frameUpToDate := True\<rparr>) b)"
  by (blast intro: onlySyncs_trans onlySyncs_updFR_flags)+

lemma onlySyncs_emitted [simp]: "onlySyncs em (em\<lparr>emitted := c\<rparr>)"
  by (simp add: onlySyncs_def list_all2_refl)

lemma movHWReg_onlySyncs: "movHWReg K u d s em = Some em' \<Longrightarrow> onlySyncs em em'"
  by (auto simp: movHWReg_eq onlySyncs_def list_all2_refl split: option.splits if_splits)

lemma loadFrame_onlySyncs: "loadFrame src fr em = Some em' \<Longrightarrow> onlySyncs em em'"
  by (auto simp: loadFrame_eq split: option.splits)

lemma storeHWRegToFrame_onlySyncs: "storeHWRegToFrame fr src em = Some em' \<Longrightarrow> onlySyncs em em'"
  by (auto simp: storeHWRegToFrame_eq split: option.splits if_splits intro: onlySyncs_step)

lemma isFRInRegister_onlySyncs: "isFRInRegister K fr em = Some (h, em') \<Longrightarrow> onlySyncs em em'"
  by (auto simp: isFRInRegister_def elim!: bind_SomeE split: if_splits)

lemma syncToMem_onlySyncs: "syncToMem K fr em = Some em' \<Longrightarrow> onlySyncs em em'"
  apply (auto simp: syncToMem_def split: if_splits elim!: bind_SomeE
      dest!: isFRInRegister_onlySyncs movHWReg_onlySyncs storeHWRegToFrame_onlySyncs)
    apply (blast intro: onlySyncs_trans onlySyncs_step)+
  done

lemma onlySyncs_length: "onlySyncs em em' \<Longrightarrow> length (frameRegs em') = length (frameRegs em)"
  by (auto simp: onlySyncs_def dest: list_all2_lengthD)

lemma onlySyncs_nth:
  "onlySyncs em em' \<Longrightarrow> i < length (frameRegs em) \<Longrightarrow>
   flagsGrow (frameRegs em ! i) (frameRegs em' ! i)"
  by (auto simp: onlySyncs_def list_all2_conv_all_nth)

lemma flagsGrow_authoritative: "flagsGrow s s' \<Longrightarrow> authoritative s \<Longrightarrow> authoritative s'"
  by (auto simp: flagsGrow_def authoritative_def)

lemma onlySyncs_ownership:
  assumes "onlySyncs em em'" "ownership em"
  shows "ownership em'"
  unfolding ownership_def
proof (intro allI impI)
  fix i assume "i < length (frameRegs em')"
  then have i: "i < length (frameRegs em)"
    using assms(1) by (simp add: onlySyncs_length)
  from onlySyncs_nth[OF assms(1) i]
  have "localGpX (frameRegs em' ! i) = localGpX (frameRegs em ! i)"
       "localVecD (frameRegs em' ! i) = localVecD (frameRegs em ! i)"
    by (simp_all add: flagsGrow_def)
  moreover have "hwRegs em' = hwRegs em"
    using assms(1) by (simp add: onlySyncs_def)
  ultimately show
    "(localGpX (frameRegs em' ! i) \<noteq> NoReg \<longrightarrow>
        isGpX (localGpX (frameRegs em' ! i)) \<and> hwRegs em' (localGpX (frameRegs em' ! i)) = FR i) \<and>
     (localVecD (frameRegs em' ! i) \<noteq> NoReg \<longrightarrow>
        isVecD (localVecD (frameRegs em' ! i)) \<and> hwRegs em' (localVecD (frameRegs em' ! i)) = FR i)"
    using assms(2) i by (simp add: ownership_def)
qed

subsection \<open>Effects of freeing, spilling and committing\<close>

lemma releasePool_simps [simp]:
  "frameRegs (releasePool K h em) = frameRegs em"
  "hwRegs (releasePool K h em) = hwRegs em"
  "emitted (releasePool K h em) = emitted em"
  "slowPaths (releasePool K h em) = slowPaths em"
  "numLabels (releasePool K h em) = numLabels em"
  "getFRState fr (releasePool K h em) = getFRState fr em"
  by (auto simp: releasePool_def getFRState_def split: FR.splits)

lemma freeReg_eq:
  "freeReg K h em =
     (if h = NoReg then Some em
      else case hwRegs em h of
          NoFR \<Rightarrow> Some (releasePool K h (em\<lparr>hwRegs := (hwRegs em)(h := NoFR)\<rparr>))
        | FR j \<Rightarrow>
            if j < length (frameRegs em) \<and>
               (if isGpX h then localGpX (frameRegs em ! j) = h else localVecD (frameRegs em ! j) = h)
            then Some (releasePool K h
                   (updFR (FR j) (\<lambda>s. if isGpX h then s\<lparr>localGpX := NoReg\<rparr> else s\<lparr>localVecD := NoReg\<rparr>)
                      (em\<lparr>hwRegs := (hwRegs em)(h := NoFR)\<rparr>)))
            else None)"
  by (cases "hwRegs em h") (auto simp: freeReg_def releasePool_def Let_def updFR_def)

lemma freeReg_effect:
  assumes "freeReg K h em = Some em'" "h \<noteq> NoReg"
  shows "hwRegs em' = (hwRegs em)(h := NoFR) \<and> emitted em' = emitted em \<and>
         length (frameRegs em') = length (frameRegs em) \<and>
         (\<forall>j. hwRegs em h \<noteq> FR j \<longrightarrow> frameRegs em' ! j = frameRegs em ! j) \<and>
         (\<forall>j. hwRegs em h = FR j \<longrightarrow> j < length (frameRegs em) \<and>
            globalReg (frameRegs em' ! j) = globalReg (frameRegs em ! j) \<and>
            localType (frameRegs em' ! j) = localType (frameRegs em ! j) \<and>
            globalType (frameRegs em' ! j) = globalType (frameRegs em ! j) \<and>
            frameUpToDate (frameRegs em' ! j) = frameUpToDate (frameRegs em ! j) \<and>
            globalRegUpToDate (frameRegs em' ! j) = globalRegUpToDate (frameRegs em ! j) \<and>
            (if isGpX h
             then localGpX (frameRegs em ! j) = h \<and> localGpX (frameRegs em' ! j) = NoReg \<and>
                  localVecD (frameRegs em' ! j) = localVecD (frameRegs em ! j)
             else localVecD (frameRegs em ! j) = h \<and> localVecD (frameRegs em' ! j) = NoReg \<and>
                  localGpX (frameRegs em' ! j) = localGpX (frameRegs em ! j)))"
  using assms
  by (cases "hwRegs em h") (auto simp: freeReg_eq nth_list_update split: if_splits)

lemma freeReg_flags:
  assumes "freeReg K h em = Some em'"
  shows "frameUpToDate (frameRegs em' ! j) = frameUpToDate (frameRegs em ! j) \<and>
         globalRegUpToDate (frameRegs em' ! j) = globalRegUpToDate (frameRegs em ! j)"
proof (cases "h = NoReg")
  case True
  with assms show ?thesis by (simp add: freeReg_eq)
next
  case False
  from freeReg_effect[OF assms False] show ?thesis
    by (cases "hwRegs em h = FR j") auto
qed

lemma freeReg_ownership:
  assumes "freeReg K h em = Some em'" "ownership em"
  shows "ownership em'"
proof (cases "h = NoReg")
  case True
  with assms show ?thesis by (simp add: freeReg_eq)
next
  case False
  note eff = freeReg_effect[OF assms(1) False]
  show ?thesis
    unfolding ownership_def
  proof (intro allI impI)
    fix i assume "i < length (frameRegs em')"
    with eff have i: "i < length (frameRegs em)" by simp
    from assms(2) i have own:
      "localGpX (frameRegs em ! i) \<noteq> NoReg \<Longrightarrow>
         isGpX (localGpX (frameRegs em ! i)) \<and> hwRegs em (localGpX (frameRegs em ! i)) = FR i"
      "localVecD (frameRegs em ! i) \<noteq> NoReg \<Longrightarrow>
         isVecD (localVecD (frameRegs em ! i)) \<and> hwRegs em (localVecD (frameRegs em ! i)) = FR i"
      by (auto simp: ownership_def)
    show "(localGpX (frameRegs em' ! i) \<noteq> NoReg \<longrightarrow>
            isGpX (localGpX (frameRegs em' ! i)) \<and> hwRegs em' (localGpX (frameRegs em' ! i)) = FR i) \<and>
          (localVecD (frameRegs em' ! i) \<noteq> NoReg \<longrightarrow>
            isVecD (localVecD (frameRegs em' ! i)) \<and> hwRegs em' (localVecD (frameRegs em' ! i)) = FR i)"
    proof (cases "hwRegs em h = FR i")
      case True
      with eff own show ?thesis
        by (cases h) (auto split: if_splits)
    next
      case False
      with eff have "frameRegs em' ! i = frameRegs em ! i" by simp
      with eff own False show ?thesis by auto
    qed
  qed
qed

lemma spillTempReg_effect:
  assumes "spillTempReg K h em = Some em'"
  shows "h \<noteq> NoReg \<and> isTemp K h \<and>
         hwRegs em' = (hwRegs em)(h := NoFR) \<and>
         gpTemp em' = gpTemp em \<and> vecTemp em' = vecTemp em \<and>
         length (frameRegs em') = length (frameRegs em) \<and>
         (case hwRegs em h of
            NoFR \<Rightarrow> False
          | FR i \<Rightarrow> i < length (frameRegs em) \<and>
             (\<forall>j. j \<noteq> i \<longrightarrow> frameRegs em' ! j = frameRegs em ! j) \<and>
             globalReg (frameRegs em' ! i) = globalReg (frameRegs em ! i) \<and>
             localType (frameRegs em' ! i) = localType (frameRegs em ! i) \<and>
             globalType (frameRegs em' ! i) = globalType (frameRegs em ! i) \<and>
             (if globalReg (frameRegs em ! i) \<noteq> NoReg
              then globalRegUpToDate (frameRegs em' ! i) \<and>
                   frameUpToDate (frameRegs em' ! i) = frameUpToDate (frameRegs em ! i)
              else frameUpToDate (frameRegs em' ! i) \<and>
                   globalRegUpToDate (frameRegs em' ! i) = globalRegUpToDate (frameRegs em ! i)) \<and>
             (if localGpX (frameRegs em ! i) = h
              then localGpX (frameRegs em' ! i) = NoReg \<and>
                   localVecD (frameRegs em' ! i) = localVecD (frameRegs em ! i)
              else localVecD (frameRegs em ! i) = h \<and> localVecD (frameRegs em' ! i) = NoReg \<and>
                   localGpX (frameRegs em' ! i) = localGpX (frameRegs em ! i)))"
  using assms
  by (cases h; cases "hwRegs em h")
     (auto simp: spillTempReg_def Let_def movHWReg_eq storeHWRegToFrame_eq bind_eq_Some_conv
       nth_list_update split: if_splits option.splits)

lemma frUpdatedWithHWReg_effect:
  assumes "frUpdatedWithHWReg K (FR i) hwReg ty em = Some em'" "hwReg \<noteq> NoReg"
    and "localGpX (frameRegs em ! i) \<noteq> NoReg \<Longrightarrow>
           isGpX (localGpX (frameRegs em ! i)) \<and> hwRegs em (localGpX (frameRegs em ! i)) = FR i"
    and "localVecD (frameRegs em ! i) \<noteq> NoReg \<Longrightarrow>
           isVecD (localVecD (frameRegs em ! i)) \<and> hwRegs em (localVecD (frameRegs em ! i)) = FR i"
  shows "i < length (frameRegs em) \<and> length (frameRegs em') = length (frameRegs em) \<and>
         emitted em' = emitted em \<and>
         (\<forall>j. j \<noteq> i \<longrightarrow> frameRegs em' ! j = frameRegs em ! j) \<and>
         (\<forall>h. hwRegs em' h = hwRegs em h \<or>
              (hwRegs em' h = NoFR \<and> h \<noteq> NoReg \<and> h \<noteq> localGpX (frameRegs em' ! i) \<and>
               h \<noteq> localVecD (frameRegs em' ! i) \<and>
               (h = localGpX (frameRegs em ! i) \<or> h = localVecD (frameRegs em ! i)))) \<and>
         globalReg (frameRegs em' ! i) = globalReg (frameRegs em ! i) \<and>
         globalType (frameRegs em' ! i) = globalType (frameRegs em ! i) \<and>
         localType (frameRegs em' ! i) =
           (case ty of Some t \<Rightarrow> t | None \<Rightarrow> localType (frameRegs em ! i)) \<and>
         \<not> frameUpToDate (frameRegs em' ! i) \<and>
         globalRegUpToDate (frameRegs em' ! i) = (globalReg (frameRegs em ! i) = hwReg) \<and>
         localGpX (frameRegs em' ! i) =
           (if globalReg (frameRegs em ! i) \<noteq> hwReg \<and> hwReg = localGpX (frameRegs em ! i)
            then hwReg else NoReg) \<and>
         localVecD (frameRegs em' ! i) =
           (if globalReg (frameRegs em ! i) \<noteq> hwReg \<and> hwReg \<noteq> localGpX (frameRegs em ! i)
            then hwReg else NoReg) \<and>
         (globalReg (frameRegs em ! i) \<noteq> hwReg \<and> hwReg \<noteq> localGpX (frameRegs em ! i) \<longrightarrow>
            hwReg = localVecD (frameRegs em ! i))"
  using assms
  apply (cases hwReg; cases "localGpX (frameRegs em ! i)"; cases "localVecD (frameRegs em ! i)")
  apply (auto simp: frUpdatedWithHWReg_def frUpdateType_def freeReg_eq Let_def bind_eq_Some_conv
         nth_list_update split: if_splits option.splits)
  done

subsection \<open>Cross references\<close>

lemma ownershipD:
  assumes "ownership em" "i < length (frameRegs em)"
  shows "localGpX (frameRegs em ! i) \<noteq> NoReg \<Longrightarrow>
           isGpX (localGpX (frameRegs em ! i)) \<and> hwRegs em (localGpX (frameRegs em ! i)) = FR i"
    and "localVecD (frameRegs em ! i) \<noteq> NoReg \<Longrightarrow>
           isVecD (localVecD (frameRegs em ! i)) \<and> hwRegs em (localVecD (frameRegs em ! i)) = FR i"
  using assms by (auto simp: ownership_def)

lemma ownershipI:
  assumes "\<And>i. i < length (frameRegs em) \<Longrightarrow> localGpX (frameRegs em ! i) \<noteq> NoReg \<Longrightarrow>
             isGpX (localGpX (frameRegs em ! i)) \<and> hwRegs em (localGpX (frameRegs em ! i)) = FR i"
    and "\<And>i. i < length (frameRegs em) \<Longrightarrow> localVecD (frameRegs em ! i) \<noteq> NoReg \<Longrightarrow>
             isVecD (localVecD (frameRegs em ! i)) \<and> hwRegs em (localVecD (frameRegs em ! i)) = FR i"
  shows "ownership em"
  using assms by (auto simp: ownership_def)

subsection \<open>Allocation from an exhausted pool\<close>

lemma pool_simps [simp]:
  "pool t (setPool t ra em) = ra"
  "frameRegs (setPool t ra em) = frameRegs em"
  "hwRegs (setPool t ra em) = hwRegs em"
  "emitted (setPool t ra em) = emitted em"
  "slowPaths (setPool t ra em) = slowPaths em"
  "numLabels (setPool t ra em) = numLabels em"
  "getFRState fr (setPool t ra em) = getFRState fr em"
  "setPool t ra (setPool t rb em) = setPool t ra em"
  by (simp_all add: pool_def setPool_def getFRState_def split: TAG.splits FR.splits)

lemma spillTempReg_pool: "spillTempReg K h em = Some em' \<Longrightarrow> pool t em' = pool t em"
  by (cases t) (auto simp: pool_def dest: spillTempReg_effect)

lemma ra_alloc_exhausted: "avail ra = [] \<Longrightarrow> ra_alloc pr ra = None"
  by (simp add: ra_alloc_def)

lemma ra_alloc_after_free:
  "avail ra = [] \<Longrightarrow>
   ra_alloc None (ra_free index ra) =
     Some (index, ra\<lparr>avail := [], lru := removeAll index (lru ra) @ [index]\<rparr>)"
  by (simp add: ra_alloc_def ra_free_def)


lemma spillTempReg_emitted:
  assumes "spillTempReg K h em = Some em'" "hwRegs em h = FR i"
  shows "(if globalReg (frameRegs em ! i) \<noteq> NoReg
          then (if globalRegUpToDate (frameRegs em ! i) then emitted em' = emitted em
                else \<exists>w. movCode (globalReg (frameRegs em ! i)) h = Some w \<and>
                       emitted em' = emitted em @ w)
          else (if frameUpToDate (frameRegs em ! i) then emitted em' = emitted em
                else \<exists>st. frameCode I_str h (FR i) = Some st \<and>
                       emitted em' = emitted em @ [st]))"
  using assms
  by (cases h)
     (auto simp: spillTempReg_def Let_def movHWReg_eq storeHWRegToFrame_eq bind_eq_Some_conv
       split: if_splits option.splits)


lemma allocTemp_exhausted:
  assumes ex: "avail (pool t em) = []" and al: "allocTemp K t preferred em = Some (hw, em')"
  shows "\<exists>victim em1.
           (case preferred of Some p \<Rightarrow> victim = indexInClass p
            | None \<Rightarrow> leastRecentlyUsed (pool t em) = Some victim) \<and>
           hw = HWReg_of victim t \<and>
           spillTempReg K hw em = Some em1 \<and>
           em' = setPool t ((pool t em)\<lparr>avail := [], lru := removeAll victim (lru (pool t em)) @ [victim]\<rparr>) em1"
proof -
  from al ex obtain index em1 where
    idx: "(case map_option indexInClass preferred of Some p \<Rightarrow> Some p
           | None \<Rightarrow> leastRecentlyUsed (pool t em)) = Some index"
    and sp: "spillTempReg K (HWReg_of index t) em = Some em1"
    and rest: "(case ra_alloc None (pool t (setPool t (ra_free index (pool t em1)) em1)) of
                  None \<Rightarrow> None
                | Some (r, ra) \<Rightarrow> Some (HWReg_of r t, setPool t ra (setPool t (ra_free index (pool t em1)) em1)))
               = Some (hw, em')"
    by (auto simp: allocTemp_def ra_alloc_exhausted Let_def elim!: bind_SomeE split: option.splits)
  from sp have p: "pool t em1 = pool t em" by (rule spillTempReg_pool)
  from rest have "hw = HWReg_of index t"
    and "em' = setPool t ((pool t em)\<lparr>avail := [], lru := removeAll index (lru (pool t em)) @ [index]\<rparr>) em1"
    by (simp_all add: p ra_alloc_after_free[OF ex])
  with idx sp show ?thesis
    by (cases preferred) auto
qed


subsection \<open>Loops and the sync pass\<close>

lemma forEach_append:
  "forEach (xs @ ys) body s = Option.bind (forEach xs body s) (forEach ys body)"
  by (induction xs arbitrary: s) (auto split: option.splits)

lemma forEach_rel:
  assumes "forEach xs body s = Some s'"
    and "\<And>x a b. x \<in> set xs \<Longrightarrow> body x a = Some b \<Longrightarrow> R a b"
    and "\<And>a. R a a" and "\<And>a b c. R a b \<Longrightarrow> R b c \<Longrightarrow> R a c"
  shows "R s s'"
  using assms(1,2)
proof (induction xs arbitrary: s)
  case Nil
  then show ?case using assms(3) by simp
next
  case (Cons x xs)
  from Cons.prems(1) obtain s1 where s1: "body x s = Some s1" "forEach xs body s1 = Some s'"
    by (auto split: option.splits)
  from Cons.prems(2)[of x s s1] s1(1) have "R s s1" by simp
  moreover have "R s1 s'"
    by (rule Cons.IH[OF s1(2)]) (rule Cons.prems(2), simp_all)
  ultimately show ?case by (rule assms(4))
qed

lemma forEach_at:
  assumes "forEach xs body s = Some s'" "x \<in> set xs"
    and "\<And>y a b. y \<in> set xs \<Longrightarrow> body y a = Some b \<Longrightarrow> R a b"
    and "\<And>a. R a a" and "\<And>a b c. R a b \<Longrightarrow> R b c \<Longrightarrow> R a c"
  shows "\<exists>s1 s2. R s s1 \<and> body x s1 = Some s2 \<and> R s2 s'"
proof -
  from assms(2) obtain ys zs where xs: "xs = ys @ x # zs"
    by (auto simp: in_set_conv_decomp)
  from assms(1) obtain s1 s2 where
    a: "forEach ys body s = Some s1" and b: "body x s1 = Some s2" and c: "forEach zs body s2 = Some s'"
    by (auto simp: xs forEach_append elim!: bind_SomeE split: option.splits)
  have "R s s1"
    by (rule forEach_rel[OF a _ assms(4,5)]) (auto intro: assms(3) simp: xs)
  moreover have "R s2 s'"
    by (rule forEach_rel[OF c _ assms(4,5)]) (auto intro: assms(3) simp: xs)
  ultimately show ?thesis using b by blast
qed

lemma syncGpTemp_onlySyncs: "syncGpTemp K ex r em = Some em' \<Longrightarrow> onlySyncs em em'"
  by (auto simp: syncGpTemp_def Let_def elim!: bind_SomeE split: if_splits
      dest!: movHWReg_onlySyncs storeHWRegToFrame_onlySyncs intro: onlySyncs_step)

lemma syncVecTemp_onlySyncs: "syncVecTemp K ex r em = Some em' \<Longrightarrow> onlySyncs em em'"
  by (auto simp: syncVecTemp_def Let_def elim!: bind_SomeE split: if_splits
      dest!: movHWReg_onlySyncs storeHWRegToFrame_onlySyncs intro: onlySyncs_step)

lemma syncAllTempExcept_onlySyncs:
  assumes "syncAllTempExcept K ex em = Some em'"
  shows "onlySyncs em em'"
proof -
  from assms obtain em1 where
    a: "forEach (inclusive (kGPTemp K)) (syncGpTemp K ex) em = Some em1" and
    b: "forEach (inclusive (kVecTemp K)) (syncVecTemp K ex) em1 = Some em'"
    by (auto simp: syncAllTempExcept_def elim!: bind_SomeE)
  have "onlySyncs em em1"
    by (rule forEach_rel[OF a]) (auto intro: syncGpTemp_onlySyncs onlySyncs_trans)
  moreover have "onlySyncs em1 em'"
    by (rule forEach_rel[OF b]) (auto intro: syncVecTemp_onlySyncs onlySyncs_trans)
  ultimately show ?thesis by (rule onlySyncs_trans)
qed

lemma flagsGrow_backed: "flagsGrow s s' \<Longrightarrow> backed s \<Longrightarrow> backed s'"
  by (auto simp: flagsGrow_def backed_def)

lemma syncGpTemp_backed:
  assumes "syncGpTemp K ex r em = Some em'" "hwRegs em (gpX r) = FR j" "FR j \<noteq> ex"
  shows "j < length (frameRegs em) \<and> backed (frameRegs em' ! j)"
  using assms
  by (auto simp: syncGpTemp_def Let_def movHWReg_eq storeHWRegToFrame_eq backed_def
      bind_eq_Some_conv split: if_splits option.splits)

lemma syncVecTemp_backed:
  assumes "syncVecTemp K ex r em = Some em'" "hwRegs em (vecD r) = FR j" "FR j \<noteq> ex"
  shows "j < length (frameRegs em) \<and>
         (localGpX (frameRegs em ! j) \<noteq> NoReg \<or> backed (frameRegs em' ! j))"
  using assms
  by (auto simp: syncVecTemp_def Let_def movHWReg_eq storeHWRegToFrame_eq backed_def
      bind_eq_Some_conv split: if_splits option.splits)


lemma isTempGpX_inclusive:
  "isTempGpX K h \<Longrightarrow> \<exists>r. h = gpX r \<and> r \<in> set (inclusive (kGPTemp K))"
  by (cases h) (auto simp: isTempGpX_def inclusive_def)

lemma isTempVecD_inclusive:
  "isTempVecD K h \<Longrightarrow> \<exists>r. h = vecD r \<and> r \<in> set (inclusive (kVecTemp K))"
  by (cases h) (auto simp: isTempVecD_def inclusive_def)

lemma tempsInRangeD:
  assumes "tempsInRange K em" "j < length (frameRegs em)"
  shows "localGpX (frameRegs em ! j) \<noteq> NoReg \<Longrightarrow> isTempGpX K (localGpX (frameRegs em ! j))"
    and "localVecD (frameRegs em ! j) \<noteq> NoReg \<Longrightarrow> isTempVecD K (localVecD (frameRegs em ! j))"
  using assms by (auto simp: tempsInRange_def list_all_length)

lemma onlySyncs_backed:
  "onlySyncs em em' \<Longrightarrow> j < length (frameRegs em) \<Longrightarrow> backed (frameRegs em ! j) \<Longrightarrow>
   backed (frameRegs em' ! j)"
  by (blast intro: flagsGrow_backed onlySyncs_nth)

lemma onlySyncs_hwRegs: "onlySyncs em em' \<Longrightarrow> hwRegs em' = hwRegs em"
  by (simp add: onlySyncs_def)

lemma onlySyncs_locals:
  "onlySyncs em em' \<Longrightarrow> j < length (frameRegs em) \<Longrightarrow>
   localGpX (frameRegs em' ! j) = localGpX (frameRegs em ! j) \<and>
   localVecD (frameRegs em' ! j) = localVecD (frameRegs em ! j) \<and>
   globalReg (frameRegs em' ! j) = globalReg (frameRegs em ! j) \<and>
   localType (frameRegs em' ! j) = localType (frameRegs em ! j) \<and>
   globalType (frameRegs em' ! j) = globalType (frameRegs em ! j)"
  by (drule (1) onlySyncs_nth) (simp add: flagsGrow_def)

lemma syncAllTempExcept_backed:
  assumes sy: "syncAllTempExcept K ex em = Some em'"
    and own: "ownership em" and rng: "tempsInRange K em"
    and j: "j < length (frameRegs em)" and ex: "FR j \<noteq> ex"
    and loc: "localGpX (frameRegs em ! j) \<noteq> NoReg \<or> localVecD (frameRegs em ! j) \<noteq> NoReg"
  shows "backed (frameRegs em' ! j)"
proof -
  from sy obtain em1 where
    a: "forEach (inclusive (kGPTemp K)) (syncGpTemp K ex) em = Some em1" and
    b: "forEach (inclusive (kVecTemp K)) (syncVecTemp K ex) em1 = Some em'"
    by (auto simp: syncAllTempExcept_def elim!: bind_SomeE)
  have 1: "onlySyncs em em1"
    by (rule forEach_rel[OF a]) (auto intro: syncGpTemp_onlySyncs onlySyncs_trans)
  have 2: "onlySyncs em1 em'"
    by (rule forEach_rel[OF b]) (auto intro: syncVecTemp_onlySyncs onlySyncs_trans)
  show ?thesis
  proof (cases "localGpX (frameRegs em ! j) \<noteq> NoReg")
    case True
    from tempsInRangeD(1)[OF rng j True] obtain r where
      r: "localGpX (frameRegs em ! j) = gpX r" "r \<in> set (inclusive (kGPTemp K))"
      by (blast dest: isTempGpX_inclusive)
    from ownershipD(1)[OF own j True] r have o: "hwRegs em (gpX r) = FR j" by simp
    have "\<exists>s1 s2. onlySyncs em s1 \<and> syncGpTemp K ex r s1 = Some s2 \<and> onlySyncs s2 em1"
      by (rule forEach_at[OF a r(2)]) (auto intro: syncGpTemp_onlySyncs onlySyncs_trans)
    then obtain s1 s2 where
      s: "onlySyncs em s1" "syncGpTemp K ex r s1 = Some s2" "onlySyncs s2 em1" by blast
    from s(1) o have "hwRegs s1 (gpX r) = FR j" by (simp add: onlySyncs_hwRegs)
    from syncGpTemp_backed[OF s(2) this ex] have bk: "backed (frameRegs s2 ! j)" by simp
    have len: "j < length (frameRegs s2)"
      using s(1) syncGpTemp_onlySyncs[OF s(2)] j by (simp add: onlySyncs_length)
    from onlySyncs_trans[OF s(3) 2] len bk show ?thesis by (rule onlySyncs_backed)
  next
    case False
    with loc have v: "localVecD (frameRegs em ! j) \<noteq> NoReg" by simp
    from tempsInRangeD(2)[OF rng j v] obtain r where
      r: "localVecD (frameRegs em ! j) = vecD r" "r \<in> set (inclusive (kVecTemp K))"
      by (blast dest: isTempVecD_inclusive)
    from ownershipD(2)[OF own j v] r have o: "hwRegs em (vecD r) = FR j" by simp
    have "\<exists>s1 s2. onlySyncs em1 s1 \<and> syncVecTemp K ex r s1 = Some s2 \<and> onlySyncs s2 em'"
      by (rule forEach_at[OF b r(2)]) (auto intro: syncVecTemp_onlySyncs onlySyncs_trans)
    then obtain s1 s2 where
      s: "onlySyncs em1 s1" "syncVecTemp K ex r s1 = Some s2" "onlySyncs s2 em'" by blast
    have es1: "onlySyncs em s1" by (rule onlySyncs_trans[OF 1 s(1)])
    from es1 o have h: "hwRegs s1 (vecD r) = FR j" by (simp add: onlySyncs_hwRegs)
    from onlySyncs_locals[OF es1 j] False have "localGpX (frameRegs s1 ! j) = NoReg" by simp
    with syncVecTemp_backed[OF s(2) h ex] have bk: "backed (frameRegs s2 ! j)" by simp
    have len: "j < length (frameRegs s2)"
      using es1 syncVecTemp_onlySyncs[OF s(2)] j by (simp add: onlySyncs_length)
    from s(3) len bk show ?thesis by (rule onlySyncs_backed)
  qed
qed


subsection \<open>Releasing temporaries\<close>

lemma freeFRTemp_effect:
  assumes "freeFRTemp K (FR j) em = Some em'"
  shows "j < length (frameRegs em) \<and> length (frameRegs em') = length (frameRegs em) \<and>
         emitted em' = emitted em \<and>
         (\<forall>k. k \<noteq> j \<longrightarrow> frameRegs em' ! k = frameRegs em ! k) \<and>
         localGpX (frameRegs em' ! j) = NoReg \<and> localVecD (frameRegs em' ! j) = NoReg \<and>
         globalReg (frameRegs em' ! j) = globalReg (frameRegs em ! j) \<and>
         localType (frameRegs em' ! j) = localType (frameRegs em ! j) \<and>
         globalType (frameRegs em' ! j) = globalType (frameRegs em ! j) \<and>
         frameUpToDate (frameRegs em' ! j) = frameUpToDate (frameRegs em ! j) \<and>
         globalRegUpToDate (frameRegs em' ! j) = globalRegUpToDate (frameRegs em ! j) \<and>
         (\<forall>h. hwRegs em' h =
              (if h \<noteq> NoReg \<and> (h = localGpX (frameRegs em ! j) \<or> h = localVecD (frameRegs em ! j))
               then NoFR else hwRegs em h))"
  using assms
  by (cases "localGpX (frameRegs em ! j)"; cases "localVecD (frameRegs em ! j)")
     (auto simp: freeFRTemp_def Let_def bind_eq_Some_conv nth_list_update split: if_splits)

lemma freeFRTemp_succeeds:
  assumes "tempsInRange K em" "j < length (frameRegs em)"
  shows "\<exists>em'. freeFRTemp K (FR j) em = Some em'"
  using tempsInRangeD[OF assms] assms(2)
  by (auto simp: freeFRTemp_def Let_def bind_eq_Some_conv)


lemma hwValidD:
  "hwValid em \<Longrightarrow> hwRegs em h = FR j \<Longrightarrow>
   j < length (frameRegs em) \<and>
   (localGpX (frameRegs em ! j) = h \<or> localVecD (frameRegs em ! j) = h)"
  by (simp add: hwValid_def)

lemma freeFRTemp_wellFormed:
  assumes f: "freeFRTemp K (FR j) em = Some em'" and wf: "wellFormed K em"
  shows "wellFormed K em'"
proof -
  note eff = freeFRTemp_effect[OF f]
  from wf have own: "ownership em" and rng: "tempsInRange K em" and hv: "hwValid em"
    by (simp_all add: wellFormed_def)
  from eff have j: "j < length (frameRegs em)" by simp
  have hw: "hwRegs em' h =
              (if h \<noteq> NoReg \<and> (h = localGpX (frameRegs em ! j) \<or> h = localVecD (frameRegs em ! j))
               then NoFR else hwRegs em h)" for h
    using eff by blast
  have other: "k \<noteq> j \<Longrightarrow> frameRegs em' ! k = frameRegs em ! k" for k
    using eff by blast
  have "ownership em'"
  proof (rule ownershipI)
    fix k assume k: "k < length (frameRegs em')" and l: "localGpX (frameRegs em' ! k) \<noteq> NoReg"
    from k eff have k': "k < length (frameRegs em)" by simp
    from l eff have kj: "k \<noteq> j" by auto
    with l other have l': "localGpX (frameRegs em ! k) \<noteq> NoReg" by simp
    from ownershipD(1)[OF own k' l'] have
      o: "isGpX (localGpX (frameRegs em ! k))" "hwRegs em (localGpX (frameRegs em ! k)) = FR k"
      by simp_all
    have "localGpX (frameRegs em ! k) \<noteq> localGpX (frameRegs em ! j)"
      using o(2) ownershipD(1)[OF own j] kj l' by auto
    moreover have "localGpX (frameRegs em ! k) \<noteq> localVecD (frameRegs em ! j)"
      using o(2) ownershipD(2)[OF own j] kj l' by auto
    ultimately show
      "isGpX (localGpX (frameRegs em' ! k)) \<and> hwRegs em' (localGpX (frameRegs em' ! k)) = FR k"
      using o other[OF kj] hw[of "localGpX (frameRegs em ! k)"] by simp
  next
    fix k assume k: "k < length (frameRegs em')" and l: "localVecD (frameRegs em' ! k) \<noteq> NoReg"
    from k eff have k': "k < length (frameRegs em)" by simp
    from l eff have kj: "k \<noteq> j" by auto
    with l other have l': "localVecD (frameRegs em ! k) \<noteq> NoReg" by simp
    from ownershipD(2)[OF own k' l'] have
      o: "isVecD (localVecD (frameRegs em ! k))" "hwRegs em (localVecD (frameRegs em ! k)) = FR k"
      by simp_all
    have "localVecD (frameRegs em ! k) \<noteq> localGpX (frameRegs em ! j)"
      using o(2) ownershipD(1)[OF own j] kj l' by auto
    moreover have "localVecD (frameRegs em ! k) \<noteq> localVecD (frameRegs em ! j)"
      using o(2) ownershipD(2)[OF own j] kj l' by auto
    ultimately show
      "isVecD (localVecD (frameRegs em' ! k)) \<and> hwRegs em' (localVecD (frameRegs em' ! k)) = FR k"
      using o other[OF kj] hw[of "localVecD (frameRegs em ! k)"] by simp
  qed
  moreover have "tempsInRange K em'"
    unfolding tempsInRange_def list_all_length
  proof (intro allI impI)
    fix k assume k: "k < length (frameRegs em')"
    with eff have k': "k < length (frameRegs em)" by simp
    show "(localGpX (frameRegs em' ! k) \<noteq> NoReg \<longrightarrow> isTempGpX K (localGpX (frameRegs em' ! k))) \<and>
          (localVecD (frameRegs em' ! k) \<noteq> NoReg \<longrightarrow> isTempVecD K (localVecD (frameRegs em' ! k)))"
    proof (cases "k = j")
      case True
      with eff show ?thesis by simp
    next
      case False
      with other tempsInRangeD[OF rng k'] show ?thesis by simp
    qed
  qed
  moreover have "hwValid em'"
    unfolding hwValid_def
  proof (intro allI impI)
    fix h k assume h: "hwRegs em' h = FR k"
    with hw[of h] have old: "hwRegs em h = FR k"
      and nc: "\<not> (h \<noteq> NoReg \<and> (h = localGpX (frameRegs em ! j) \<or> h = localVecD (frameRegs em ! j)))"
      by (auto split: if_splits)
    from hwValidD[OF hv old] have k: "k < length (frameRegs em)"
      and l: "localGpX (frameRegs em ! k) = h \<or> localVecD (frameRegs em ! k) = h" by simp_all
    show "k < length (frameRegs em') \<and>
          (localGpX (frameRegs em' ! k) = h \<or> localVecD (frameRegs em' ! k) = h)"
    proof (cases "k = j")
      case True
      with nc l have "h = NoReg" by auto
      with True eff show ?thesis by simp
    next
      case False
      with other l k eff show ?thesis by simp
    qed
  qed
  ultimately show ?thesis by (simp add: wellFormed_def)
qed

lemma sameButLocals_refl [simp]: "sameButLocals s s"
  by (simp add: sameButLocals_def)

lemma sameButLocals_trans: "sameButLocals a b \<Longrightarrow> sameButLocals b c \<Longrightarrow> sameButLocals a c"
  by (auto simp: sameButLocals_def)

lemma onlyFrees_refl [simp]: "onlyFrees K em em"
  by (simp add: onlyFrees_def list_all2_refl)

lemma onlyFrees_trans: "onlyFrees K a b \<Longrightarrow> onlyFrees K b c \<Longrightarrow> onlyFrees K a c"
  unfolding onlyFrees_def
  by (auto elim: list_all2_trans[rotated] intro: sameButLocals_trans)

lemma freeFRTemp_onlyFrees:
  assumes "freeFRTemp K (FR j) em = Some em'"
  shows "onlyFrees K em em'"
  unfolding onlyFrees_def
proof (intro conjI impI)
  assume "wellFormed K em"
  with assms show "wellFormed K em'" by (rule freeFRTemp_wellFormed)
next
  from freeFRTemp_effect[OF assms] show "emitted em' = emitted em" by simp
next
  note eff = freeFRTemp_effect[OF assms]
  show "list_all2 sameButLocals (frameRegs em) (frameRegs em')"
    unfolding list_all2_conv_all_nth
  proof (intro conjI allI impI)
    from eff show "length (frameRegs em) = length (frameRegs em')" by simp
  next
    fix k assume "k < length (frameRegs em)"
    from eff show "sameButLocals (frameRegs em ! k) (frameRegs em' ! k)"
      by (cases "k = j") (simp_all add: sameButLocals_def)
  qed
qed

lemma freeTempOf_onlyFrees: "freeTempOf K ex h em = Some em' \<Longrightarrow> onlyFrees K em em'"
  by (cases "hwRegs em h")
     (auto simp: freeTempOf_def Let_def split: if_splits intro: freeFRTemp_onlyFrees)

lemma freeAllTempExcept_onlyFrees:
  assumes "freeAllTempExcept K ex em = Some em'"
  shows "onlyFrees K em em'"
proof -
  from assms obtain em1 where
    a: "forEach (inclusive (kGPTemp K)) (\<lambda>i. freeTempOf K ex (HWReg_of i GpX)) em = Some em1" and
    b: "forEach (inclusive (kVecTemp K)) (\<lambda>i. freeTempOf K ex (HWReg_of i VecD)) em1 = Some em'"
    by (auto simp: freeAllTempExcept_def elim!: bind_SomeE)
  have "onlyFrees K em em1"
    by (rule forEach_rel[OF a]) (auto intro: freeTempOf_onlyFrees onlyFrees_trans)
  moreover have "onlyFrees K em1 em'"
    by (rule forEach_rel[OF b]) (auto intro: freeTempOf_onlyFrees onlyFrees_trans)
  ultimately show ?thesis by (rule onlyFrees_trans)
qed

lemma onlyFrees_nth:
  "onlyFrees K em em' \<Longrightarrow> j < length (frameRegs em) \<Longrightarrow>
   sameButLocals (frameRegs em ! j) (frameRegs em' ! j)"
  by (auto simp: onlyFrees_def list_all2_conv_all_nth)

lemma onlyFrees_length: "onlyFrees K em em' \<Longrightarrow> length (frameRegs em') = length (frameRegs em)"
  by (auto simp: onlyFrees_def dest: list_all2_lengthD)


lemma onlyFrees_wellFormed: "onlyFrees K em em' \<Longrightarrow> wellFormed K em \<Longrightarrow> wellFormed K em'"
  by (simp add: onlyFrees_def)

lemma freeTempOf_clears:
  assumes f: "freeTempOf K NoFR h em = Some em'" and wf: "wellFormed K em"
    and j: "j < length (frameRegs em)" and h: "h \<noteq> NoReg"
    and l: "localGpX (frameRegs em ! j) = h \<or> localVecD (frameRegs em ! j) = h"
  shows "localGpX (frameRegs em' ! j) = NoReg \<and> localVecD (frameRegs em' ! j) = NoReg"
proof -
  from wf have own: "ownership em" by (simp add: wellFormed_def)
  from l h ownershipD[OF own j] have o: "hwRegs em h = FR j" by auto
  with f have "freeFRTemp K (FR j) em = Some em'"
    by (simp add: freeTempOf_def Let_def)
  from freeFRTemp_effect[OF this] show ?thesis by simp
qed

lemma freeAllTempExcept_NoFR_clears:
  assumes f: "freeAllTempExcept K NoFR em = Some em'" and wf: "wellFormed K em"
    and j: "j < length (frameRegs em)"
  shows "localGpX (frameRegs em' ! j) = NoReg \<and> localVecD (frameRegs em' ! j) = NoReg"
proof -
  from f obtain em1 where
    a: "forEach (inclusive (kGPTemp K)) (\<lambda>i. freeTempOf K NoFR (HWReg_of i GpX)) em = Some em1" and
    b: "forEach (inclusive (kVecTemp K)) (\<lambda>i. freeTempOf K NoFR (HWReg_of i VecD)) em1 = Some em'"
    by (auto simp: freeAllTempExcept_def elim!: bind_SomeE)
  have 1: "onlyFrees K em em1"
    by (rule forEach_rel[OF a]) (auto intro: freeTempOf_onlyFrees onlyFrees_trans)
  have 2: "onlyFrees K em1 em'"
    by (rule forEach_rel[OF b]) (auto intro: freeTempOf_onlyFrees onlyFrees_trans)
  from wf have rng: "tempsInRange K em" by (simp add: wellFormed_def)
  have g: "localGpX (frameRegs em' ! j) = NoReg"
  proof (cases "localGpX (frameRegs em ! j) = NoReg")
    case True
    from onlyFrees_nth[OF onlyFrees_trans[OF 1 2] j] True show ?thesis
      by (auto simp: sameButLocals_def)
  next
    case False
    from tempsInRangeD(1)[OF rng j False] obtain r where
      r: "localGpX (frameRegs em ! j) = gpX r" "r \<in> set (inclusive (kGPTemp K))"
      by (blast dest: isTempGpX_inclusive)
    have "\<exists>s1 s2. onlyFrees K em s1 \<and> freeTempOf K NoFR (HWReg_of r GpX) s1 = Some s2 \<and>
            onlyFrees K s2 em1"
      by (rule forEach_at[OF a r(2)]) (auto intro: freeTempOf_onlyFrees onlyFrees_trans)
    then obtain s1 s2 where
      s: "onlyFrees K em s1" "freeTempOf K NoFR (gpX r) s1 = Some s2" "onlyFrees K s2 em1"
      by auto
    have j1: "j < length (frameRegs s1)" using s(1) j by (simp add: onlyFrees_length)
    have "localGpX (frameRegs s2 ! j) = NoReg"
    proof (cases "localGpX (frameRegs s1 ! j) = NoReg")
      case True
      from onlyFrees_nth[OF freeTempOf_onlyFrees[OF s(2)] j1] True show ?thesis
        by (auto simp: sameButLocals_def)
    next
      case False
      with onlyFrees_nth[OF s(1) j] r have "localGpX (frameRegs s1 ! j) = gpX r"
        by (auto simp: sameButLocals_def)
      with freeTempOf_clears[OF s(2) onlyFrees_wellFormed[OF s(1) wf] j1] show ?thesis by simp
    qed
    moreover have j2: "j < length (frameRegs s2)"
      using freeTempOf_onlyFrees[OF s(2)] j1 by (simp add: onlyFrees_length)
    ultimately show ?thesis
      using onlyFrees_nth[OF onlyFrees_trans[OF s(3) 2] j2] by (auto simp: sameButLocals_def)
  qed
  have v: "localVecD (frameRegs em' ! j) = NoReg"
  proof (cases "localVecD (frameRegs em ! j) = NoReg")
    case True
    from onlyFrees_nth[OF onlyFrees_trans[OF 1 2] j] True show ?thesis
      by (auto simp: sameButLocals_def)
  next
    case False
    from tempsInRangeD(2)[OF rng j False] obtain r where
      r: "localVecD (frameRegs em ! j) = vecD r" "r \<in> set (inclusive (kVecTemp K))"
      by (blast dest: isTempVecD_inclusive)
    have "\<exists>s1 s2. onlyFrees K em1 s1 \<and> freeTempOf K NoFR (HWReg_of r VecD) s1 = Some s2 \<and>
            onlyFrees K s2 em'"
      by (rule forEach_at[OF b r(2)]) (auto intro: freeTempOf_onlyFrees onlyFrees_trans)
    then obtain s1 s2 where
      s: "onlyFrees K em1 s1" "freeTempOf K NoFR (vecD r) s1 = Some s2" "onlyFrees K s2 em'"
      by auto
    have es1: "onlyFrees K em s1" by (rule onlyFrees_trans[OF 1 s(1)])
    have j1: "j < length (frameRegs s1)" using es1 j by (simp add: onlyFrees_length)
    have "localVecD (frameRegs s2 ! j) = NoReg"
    proof (cases "localVecD (frameRegs s1 ! j) = NoReg")
      case True
      from onlyFrees_nth[OF freeTempOf_onlyFrees[OF s(2)] j1] True show ?thesis
        by (auto simp: sameButLocals_def)
    next
      case False
      with onlyFrees_nth[OF es1 j] r have "localVecD (frameRegs s1 ! j) = vecD r"
        by (auto simp: sameButLocals_def)
      with freeTempOf_clears[OF s(2) onlyFrees_wellFormed[OF es1 wf] j1] show ?thesis by simp
    qed
    moreover have j2: "j < length (frameRegs s2)"
      using freeTempOf_onlyFrees[OF s(2)] j1 by (simp add: onlyFrees_length)
    ultimately show ?thesis
      using onlyFrees_nth[OF s(3) j2] by (auto simp: sameButLocals_def)
  qed
  from g v show ?thesis by simp
qed

lemma onlySyncs_wellFormed:
  assumes "onlySyncs em em'" "wellFormed K em"
  shows "wellFormed K em'"
proof -
  from assms(2) have own: "ownership em" and rng: "tempsInRange K em" and hv: "hwValid em"
    by (simp_all add: wellFormed_def)
  note len = onlySyncs_length[OF assms(1)]
  have "tempsInRange K em'"
    unfolding tempsInRange_def list_all_length
  proof (intro allI impI)
    fix k assume "k < length (frameRegs em')"
    with len have k: "k < length (frameRegs em)" by simp
    from onlySyncs_locals[OF assms(1) k] tempsInRangeD[OF rng k]
    show "(localGpX (frameRegs em' ! k) \<noteq> NoReg \<longrightarrow> isTempGpX K (localGpX (frameRegs em' ! k))) \<and>
          (localVecD (frameRegs em' ! k) \<noteq> NoReg \<longrightarrow> isTempVecD K (localVecD (frameRegs em' ! k)))"
      by simp
  qed
  moreover have "hwValid em'"
    unfolding hwValid_def
  proof (intro allI impI)
    fix h k assume "hwRegs em' h = FR k"
    then have "hwRegs em h = FR k" using assms(1) by (simp add: onlySyncs_hwRegs)
    from hwValidD[OF hv this] onlySyncs_locals[OF assms(1), of k] len
    show "k < length (frameRegs em') \<and>
          (localGpX (frameRegs em' ! k) = h \<or> localVecD (frameRegs em' ! k) = h)"
      by simp
  qed
  ultimately show ?thesis
    using onlySyncs_ownership[OF assms(1) own] by (simp add: wellFormed_def)
qed

lemma forEach_succeeds:
  assumes "Inv s"
    and "\<And>x a. x \<in> set xs \<Longrightarrow> Inv a \<Longrightarrow> \<exists>b. body x a = Some b \<and> Inv b"
  shows "\<exists>s'. forEach xs body s = Some s' \<and> Inv s'"
  using assms
proof (induction xs arbitrary: s)
  case Nil
  then show ?case by simp
next
  case (Cons x xs)
  from Cons.prems(2)[of x s] Cons.prems(1) obtain b where b: "body x s = Some b" "Inv b"
    by auto
  have "\<exists>s'. forEach xs body b = Some s' \<and> Inv s'"
    by (rule Cons.IH[OF b(2)]) (rule Cons.prems(2), simp_all)
  with b(1) show ?case by simp
qed

lemma movCode_defined: "d \<noteq> NoReg \<Longrightarrow> s \<noteq> NoReg \<Longrightarrow> \<exists>w. movCode d s = Some w"
  by (cases d; cases s) (simp_all add: movCode_def)

lemma syncGpTemp_succeeds:
  assumes wf: "wellFormed K em"
  shows "\<exists>em'. syncGpTemp K ex r em = Some em' \<and> wellFormed K em'"
proof -
  have "\<exists>em'. syncGpTemp K ex r em = Some em'"
  proof (cases "hwRegs em (gpX r)")
    case NoFR
    then show ?thesis by (simp add: syncGpTemp_def)
  next
    case (FR j)
    from wf have own: "ownership em" and hv: "hwValid em" by (simp_all add: wellFormed_def)
    from hwValidD[OF hv FR] have j: "j < length (frameRegs em)"
      and l: "localGpX (frameRegs em ! j) = gpX r \<or> localVecD (frameRegs em ! j) = gpX r"
      by simp_all
    from l ownershipD(2)[OF own j] have lg: "localGpX (frameRegs em ! j) = gpX r" by auto
    obtain w where w: "globalReg (frameRegs em ! j) \<noteq> NoReg \<Longrightarrow>
        movCode (globalReg (frameRegs em ! j)) (gpX r) = Some w"
      using movCode_defined[of "globalReg (frameRegs em ! j)" "gpX r"] by auto
    show ?thesis
      using FR j lg w
      by (auto simp: syncGpTemp_def Let_def movHWReg_eq storeHWRegToFrame_eq frameCode_def
          bind_eq_Some_conv)
  qed
  then obtain em' where e: "syncGpTemp K ex r em = Some em'" by blast
  from onlySyncs_wellFormed[OF syncGpTemp_onlySyncs[OF e] wf] e show ?thesis by blast
qed

lemma syncVecTemp_succeeds:
  assumes wf: "wellFormed K em"
  shows "\<exists>em'. syncVecTemp K ex r em = Some em' \<and> wellFormed K em'"
proof -
  have "\<exists>em'. syncVecTemp K ex r em = Some em'"
  proof (cases "hwRegs em (vecD r)")
    case NoFR
    then show ?thesis by (simp add: syncVecTemp_def)
  next
    case (FR j)
    from wf have own: "ownership em" and hv: "hwValid em" by (simp_all add: wellFormed_def)
    from hwValidD[OF hv FR] have j: "j < length (frameRegs em)"
      and l: "localGpX (frameRegs em ! j) = vecD r \<or> localVecD (frameRegs em ! j) = vecD r"
      by simp_all
    from l ownershipD(1)[OF own j] have lg: "localVecD (frameRegs em ! j) = vecD r" by auto
    obtain w where w: "globalReg (frameRegs em ! j) \<noteq> NoReg \<Longrightarrow>
        movCode (globalReg (frameRegs em ! j)) (vecD r) = Some w"
      using movCode_defined[of "globalReg (frameRegs em ! j)" "vecD r"] by auto
    show ?thesis
      using FR j lg w
      by (auto simp: syncVecTemp_def Let_def movHWReg_eq storeHWRegToFrame_eq frameCode_def
          bind_eq_Some_conv)
  qed
  then obtain em' where e: "syncVecTemp K ex r em = Some em'" by blast
  from onlySyncs_wellFormed[OF syncVecTemp_onlySyncs[OF e] wf] e show ?thesis by blast
qed

lemma syncAllTempExcept_succeeds:
  assumes wf: "wellFormed K em"
  shows "\<exists>em'. syncAllTempExcept K ex em = Some em' \<and> wellFormed K em'"
proof -
  have "\<exists>em1. forEach (inclusive (kGPTemp K)) (syncGpTemp K ex) em = Some em1 \<and> wellFormed K em1"
    by (rule forEach_succeeds[where Inv="wellFormed K", OF wf]) (rule syncGpTemp_succeeds)
  then obtain em1 where
    a: "forEach (inclusive (kGPTemp K)) (syncGpTemp K ex) em = Some em1" "wellFormed K em1"
    by blast
  have "\<exists>em'. forEach (inclusive (kVecTemp K)) (syncVecTemp K ex) em1 = Some em' \<and> wellFormed K em'"
    by (rule forEach_succeeds[where Inv="wellFormed K", OF a(2)]) (rule syncVecTemp_succeeds)
  with a(1) show ?thesis by (auto simp: syncAllTempExcept_def)
qed

lemma freeTempOf_succeeds:
  assumes wf: "wellFormed K em"
  shows "\<exists>em'. freeTempOf K ex h em = Some em' \<and> wellFormed K em'"
proof -
  have "\<exists>em'. freeTempOf K ex h em = Some em'"
  proof (cases "hwRegs em h")
    case NoFR
    then show ?thesis by (simp add: freeTempOf_def)
  next
    case (FR j)
    from wf have rng: "tempsInRange K em" and hv: "hwValid em" by (simp_all add: wellFormed_def)
    from hwValidD[OF hv FR] have j: "j < length (frameRegs em)" by simp
    from freeFRTemp_succeeds[OF rng j] FR show ?thesis
      by (auto simp: freeTempOf_def Let_def)
  qed
  then obtain em' where e: "freeTempOf K ex h em = Some em'" by blast
  from onlyFrees_wellFormed[OF freeTempOf_onlyFrees[OF e] wf] e show ?thesis by blast
qed

lemma freeAllTempExcept_succeeds:
  assumes wf: "wellFormed K em"
  shows "\<exists>em'. freeAllTempExcept K ex em = Some em' \<and> wellFormed K em'"
proof -
  have "\<exists>em1. forEach (inclusive (kGPTemp K)) (\<lambda>i. freeTempOf K ex (HWReg_of i GpX)) em = Some em1 \<and>
          wellFormed K em1"
    by (rule forEach_succeeds[where Inv="wellFormed K", OF wf]) (rule freeTempOf_succeeds)
  then obtain em1 where
    a: "forEach (inclusive (kGPTemp K)) (\<lambda>i. freeTempOf K ex (HWReg_of i GpX)) em = Some em1"
       "wellFormed K em1"
    by blast
  have "\<exists>em'. forEach (inclusive (kVecTemp K)) (\<lambda>i. freeTempOf K ex (HWReg_of i VecD)) em1 = Some em' \<and>
          wellFormed K em'"
    by (rule forEach_succeeds[where Inv="wellFormed K", OF a(2)]) (rule freeTempOf_succeeds)
  with a(1) show ?thesis by (auto simp: freeAllTempExcept_def)
qed


subsection \<open>Steps that keep every value retrievable\<close>

lemma spillTempReg_ownership:
  assumes "spillTempReg K h em = Some em'" "ownership em"
  shows "ownership em'"
proof -
  note eff = spillTempReg_effect[OF assms(1)]
  note own = assms(2)
  from eff obtain i where owner: "hwRegs em h = FR i"
    by (cases "hwRegs em h") auto
  from eff owner have i: "i < length (frameRegs em)" by simp
  show ?thesis
  proof (rule ownershipI)
    fix j assume j: "j < length (frameRegs em')" and l: "localGpX (frameRegs em' ! j) \<noteq> NoReg"
    from j eff have j': "j < length (frameRegs em)" by simp
    show "isGpX (localGpX (frameRegs em' ! j)) \<and> hwRegs em' (localGpX (frameRegs em' ! j)) = FR j"
    proof (cases "j = i")
      case True
      with eff owner l ownershipD[OF own i] show ?thesis
        by (auto split: if_splits)
    next
      case False
      with eff owner have "frameRegs em' ! j = frameRegs em ! j" by simp
      with l ownershipD(1)[OF own j'] eff owner False show ?thesis by auto
    qed
  next
    fix j assume j: "j < length (frameRegs em')" and l: "localVecD (frameRegs em' ! j) \<noteq> NoReg"
    from j eff have j': "j < length (frameRegs em)" by simp
    show "isVecD (localVecD (frameRegs em' ! j)) \<and> hwRegs em' (localVecD (frameRegs em' ! j)) = FR j"
    proof (cases "j = i")
      case True
      with eff owner l ownershipD[OF own i] show ?thesis
        by (cases h) (auto split: if_splits)
    next
      case False
      with eff owner have "frameRegs em' ! j = frameRegs em ! j" by simp
      with l ownershipD(2)[OF own j'] eff owner False show ?thesis by auto
    qed
  qed
qed

lemma keepsBacking_refl [simp]: "keepsBacking s s"
  by (simp add: keepsBacking_def)

lemma keepsBacking_trans: "keepsBacking a b \<Longrightarrow> keepsBacking b c \<Longrightarrow> keepsBacking a c"
  by (auto simp: keepsBacking_def)

lemma safeStep_refl [simp]: "safeStep em em"
  by (simp add: safeStep_def list_all2_refl)

lemma safeStep_trans: "safeStep a b \<Longrightarrow> safeStep b c \<Longrightarrow> safeStep a c"
  unfolding safeStep_def
  by (auto elim: list_all2_trans[rotated] intro: keepsBacking_trans)

lemma safeStep_nth:
  "safeStep em em' \<Longrightarrow> j < length (frameRegs em) \<Longrightarrow>
   keepsBacking (frameRegs em ! j) (frameRegs em' ! j)"
  by (auto simp: safeStep_def list_all2_conv_all_nth)

lemma safeStep_length: "safeStep em em' \<Longrightarrow> length (frameRegs em') = length (frameRegs em)"
  by (auto simp: safeStep_def dest: list_all2_lengthD)

lemma safeStep_ownership: "safeStep em em' \<Longrightarrow> ownership em \<Longrightarrow> ownership em'"
  by (simp add: safeStep_def)

lemma safeStep_tempsInRange:
  assumes "safeStep em em'" "tempsInRange K em"
  shows "tempsInRange K em'"
  unfolding tempsInRange_def list_all_length
proof (intro allI impI)
  fix k assume "k < length (frameRegs em')"
  with assms(1) have k: "k < length (frameRegs em)" by (simp add: safeStep_length)
  from safeStep_nth[OF assms(1) k] tempsInRangeD[OF assms(2) k]
  show "(localGpX (frameRegs em' ! k) \<noteq> NoReg \<longrightarrow> isTempGpX K (localGpX (frameRegs em' ! k))) \<and>
        (localVecD (frameRegs em' ! k) \<noteq> NoReg \<longrightarrow> isTempVecD K (localVecD (frameRegs em' ! k)))"
    by (auto simp: keepsBacking_def)
qed

lemma onlySyncs_safeStep:
  assumes "onlySyncs em em'"
  shows "safeStep em em'"
  unfolding safeStep_def list_all2_conv_all_nth
proof (intro conjI impI allI)
  assume "ownership em"
  with assms show "ownership em'" by (rule onlySyncs_ownership)
next
  from assms show "length (frameRegs em) = length (frameRegs em')"
    by (simp add: onlySyncs_length)
next
  fix j assume j: "j < length (frameRegs em)"
  from onlySyncs_nth[OF assms j]
  show "keepsBacking (frameRegs em ! j) (frameRegs em' ! j)"
    by (auto simp: keepsBacking_def flagsGrow_def backed_def authoritative_def)
qed

lemma spillTempReg_safeStep:
  assumes "spillTempReg K h em = Some em'"
  shows "safeStep em em'"
  unfolding safeStep_def list_all2_conv_all_nth
proof (intro conjI impI allI)
  assume "ownership em"
  with assms show "ownership em'" by (rule spillTempReg_ownership)
next
  from spillTempReg_effect[OF assms] show "length (frameRegs em) = length (frameRegs em')"
    by simp
next
  fix j assume j: "j < length (frameRegs em)"
  note eff = spillTempReg_effect[OF assms]
  from eff obtain i where owner: "hwRegs em h = FR i"
    by (cases "hwRegs em h") auto
  show "keepsBacking (frameRegs em ! j) (frameRegs em' ! j)"
  proof (cases "j = i")
    case True
    with eff owner show ?thesis
      by (auto simp: keepsBacking_def backed_def authoritative_def split: if_splits)
  next
    case False
    with eff owner show ?thesis by simp
  qed
qed

lemma freeReg_unowned_safeStep:
  assumes "freeReg K h em = Some em'" "hwRegs em h = NoFR"
  shows "safeStep em em'"
proof -
  from assms have "frameRegs em' = frameRegs em"
    by (auto simp: freeReg_eq split: if_splits)
  moreover from assms(1) have "ownership em \<Longrightarrow> ownership em'"
    by (rule freeReg_ownership)
  ultimately show ?thesis by (simp add: safeStep_def list_all2_refl)
qed

lemma syncAndFreeTempReg_safeStep:
  assumes "syncAndFreeTempReg K h em = Some em'"
  shows "safeStep em em'"
proof (cases "h = NoReg \<or> \<not> isTemp K h \<or> hwRegs em h = NoFR")
  case True
  with assms show ?thesis by (simp add: syncAndFreeTempReg_def)
next
  case False
  with assms obtain em1 where
    a: "spillTempReg K h em = Some em1" and b: "freeReg K h em1 = Some em'"
    by (auto simp: syncAndFreeTempReg_def elim!: bind_SomeE)
  from spillTempReg_effect[OF a] have "hwRegs em1 h = NoFR" by simp
  from spillTempReg_safeStep[OF a] freeReg_unowned_safeStep[OF b this]
  show ?thesis by (rule safeStep_trans)
qed

lemma onlyFrees_safeStep_backed:
  "onlyFrees K em em' \<Longrightarrow> j < length (frameRegs em) \<Longrightarrow> backed (frameRegs em ! j) \<Longrightarrow>
   backed (frameRegs em' ! j)"
  by (drule (1) onlyFrees_nth) (auto simp: sameButLocals_def backed_def)


lemma reserveData_frame:
  assumes "reserveData d a t i c em = Some (ofs, em')"
  shows "frameRegs em' = frameRegs em \<and> hwRegs em' = hwRegs em \<and> emitted em' = emitted em \<and>
         gpTemp em' = gpTemp em \<and> vecTemp em' = vecTemp em \<and> slowPaths em' = slowPaths em \<and>
         numLabels em' = numLabels em \<and> thunks em' = thunks em \<and> thunkMap em' = thunkMap em \<and>
         fp64ConstMap em' = fp64ConstMap em \<and> logger em' = logger em"
  using assms
  by (auto simp: reserveData_def Let_def split: if_splits)

lemma registerCall_frame:
  assumes "registerCall fn name' em = Some (lab, em')"
  shows "frameRegs em' = frameRegs em \<and> hwRegs em' = hwRegs em \<and> emitted em' = emitted em \<and>
         gpTemp em' = gpTemp em \<and> vecTemp em' = vecTemp em \<and> slowPaths em' = slowPaths em"
proof (cases "thunkMap em fn")
  case (Some idx)
  with assms show ?thesis
    by (auto simp: registerCall_def split: if_splits)
next
  case None
  with assms obtain dataOfs em1 where
    r: "reserveData 8 8 kUInt64 1 name' em = Some (dataOfs, em1)" and
    e: "em' = (em1\<lparr>roData := memcpy (roData em1) dataOfs (bytesOfPtr fn),
                    numLabels := Suc (numLabels em1)\<rparr>)
              \<lparr>thunkMap := (thunkMap em1)(fn \<mapsto> length (thunks em)),
               thunks := thunks em1 @ [(Label (numLabels em1), dataOfs)]\<rparr>"
    by (auto simp: registerCall_def a_newLabel_def Let_def split_def elim!: bind_SomeE
        split: if_splits)
  from reserveData_frame[OF r] e show ?thesis by simp
qed

lemma call_frame:
  assumes "call fn name' em = Some em'"
  shows "frameRegs em' = frameRegs em \<and> hwRegs em' = hwRegs em \<and>
         gpTemp em' = gpTemp em \<and> vecTemp em' = vecTemp em \<and> slowPaths em' = slowPaths em \<and>
         (\<exists>lab. emitted em' = emitted em @ [I_bl lab])"
  using assms
  by (auto simp: call_def a_emit_def elim!: bind_SomeE dest!: registerCall_frame)


lemma movHWFromFR_onlySyncs: "movHWFromFR K h fr em = Some em' \<Longrightarrow> onlySyncs em em'"
  by (auto simp: movHWFromFR_def elim!: bind_SomeE split: if_splits
      dest!: movHWReg_onlySyncs loadFrame_onlySyncs
      intro: onlySyncs_trans[OF onlySyncs_useReg])

lemma a_emit_simps [simp]:
  "frameRegs (a_emit i em) = frameRegs em"
  "hwRegs (a_emit i em) = hwRegs em"
  "emitted (a_emit i em) = emitted em @ [i]"
  "slowPaths (a_emit i em) = slowPaths em"
  "numLabels (a_emit i em) = numLabels em"
  "getFRState fr (a_emit i em) = getFRState fr em"
  by (simp_all add: a_emit_def)

lemma onlySyncs_a_emit [simp]: "onlySyncs em (a_emit i em)"
  by (simp add: onlySyncs_def list_all2_refl a_emit_def)


lemma sync_pass_backs_all:
  assumes sy: "syncAllTempExcept K ex em = Some em'"
    and own: "ownership em" and rng: "tempsInRange K em"
    and j: "j < length (frameRegs em)" and ex: "FR j \<noteq> ex"
    and au: "authoritative (frameRegs em ! j)"
  shows "backed (frameRegs em' ! j)"
proof (cases "localGpX (frameRegs em ! j) \<noteq> NoReg \<or> localVecD (frameRegs em ! j) \<noteq> NoReg")
  case True
  from syncAllTempExcept_backed[OF sy own rng j ex True] show ?thesis .
next
  case False
  with au have "backed (frameRegs em ! j)" by (auto simp: authoritative_def backed_def)
  with syncAllTempExcept_onlySyncs[OF sy] j show ?thesis by (blast intro: onlySyncs_backed)
qed




lemmas sample_defs =
  emLocal_def emPinned_def emFull_def emFullPinned_def emBusy_def emptyEmitter_def fr0_def K2_def
  Let_def

lemmas emitter_defs =
  syncAndFreeTempReg_def spillTempReg_def freeReg_def syncAllTempExcept_def syncGpTemp_def
  syncVecTemp_def freeAllTempExcept_def freeTempOf_def freeFRTemp_def movHWFromFR_def
  movHWReg_eq movCode_def storeHWRegToFrame_eq loadFrame_eq frameCode_def syncToMem_def
  isFRInRegister_def useReg_def isTemp_def isTempGpX_def isTempVecD_def ra_use_def ra_free_def
  ra_alloc_def leastRecentlyUsed_def allocTemp_def allocTempGpX_def allocTempVecD_def
  pool_def setPool_def assignAllocatedLocalHWReg_def getOrAllocFRInAnyReg_def
  getOrAllocFRInGpX_def getOrAllocFRInVecD_def frUpdatedWithHWReg_def frUpdateType_def
  movFRFromHW_def updFR_def a_emit_def a_newLabel_def inclusive_def upt_rec
  call_def EMIT_RUNTIME_CALL_def registerCall_def reserveData_def INT32_MAX_def memcpy_def
  loadFrameAddr_def a64GpX_def a64VecD_def


subsection \<open>Quiet steps, released pools and the effect of each mutation\<close>

lemma quiet_refl [simp]: "quiet em em"
  by (simp add: quiet_def)

lemma quiet_trans: "quiet a b \<Longrightarrow> quiet b c \<Longrightarrow> quiet a c"
  by (auto simp: quiet_def)

lemma quiet_emit: "\<not> isCall i \<Longrightarrow> quiet em (a_emit i em)"
  by (simp add: quiet_def a_emit_def)

lemma quiet_updFR [simp]: "quiet em (updFR fr f em)"
  by (cases fr) (simp_all add: quiet_def updFR_def)

lemma movCode_quiet: "movCode d s = Some w \<Longrightarrow> list_all (\<lambda>i. \<not> isCall i) w"
  by (cases d; cases s) (auto simp: movCode_def isCall_def split: if_splits)

lemma frameCode_quiet: "frameCode I_str h fr = Some c \<Longrightarrow> \<not> isCall c"
  "frameCode I_ldr h fr = Some c \<Longrightarrow> \<not> isCall c"
  by (cases h; cases fr; auto simp: frameCode_def isCall_def)+

lemma movHWReg_quiet: "movHWReg K u d s em = Some em' \<Longrightarrow> quiet em em'"
  by (auto simp: movHWReg_eq quiet_def split: option.splits dest: movCode_quiet)

lemma storeHWRegToFrame_quiet: "storeHWRegToFrame fr h em = Some em' \<Longrightarrow> quiet em em'"
  by (cases fr)
     (auto simp: storeHWRegToFrame_eq quiet_def updFR_def split: option.splits if_splits
        dest: frameCode_quiet)

lemma syncGpTemp_quiet: "syncGpTemp K ex r em = Some em' \<Longrightarrow> quiet em em'"
  by (auto simp: syncGpTemp_def Let_def elim!: bind_SomeE split: if_splits
      dest!: movHWReg_quiet storeHWRegToFrame_quiet intro: quiet_trans[OF _ quiet_updFR])

lemma syncVecTemp_quiet: "syncVecTemp K ex r em = Some em' \<Longrightarrow> quiet em em'"
  by (auto simp: syncVecTemp_def Let_def elim!: bind_SomeE split: if_splits
      dest!: movHWReg_quiet storeHWRegToFrame_quiet intro: quiet_trans[OF _ quiet_updFR])

lemma syncAllTempExcept_quiet:
  assumes "syncAllTempExcept K ex em = Some em'"
  shows "quiet em em'"
proof -
  from assms obtain em1 where
    a: "forEach (inclusive (kGPTemp K)) (syncGpTemp K ex) em = Some em1" and
    b: "forEach (inclusive (kVecTemp K)) (syncVecTemp K ex) em1 = Some em'"
    by (auto simp: syncAllTempExcept_def elim!: bind_SomeE)
  have "quiet em em1"
    by (rule forEach_rel[OF a]) (auto intro: syncGpTemp_quiet quiet_trans)
  moreover have "quiet em1 em'"
    by (rule forEach_rel[OF b]) (auto intro: syncVecTemp_quiet quiet_trans)
  ultimately show ?thesis by (rule quiet_trans)
qed

lemma freeFRTemp_pools:
  assumes "freeFRTemp K (FR j) em = Some em'"
  shows "gpTemp em' = (if localGpX (frameRegs em ! j) \<noteq> NoReg
                       then ra_free (indexInClass (localGpX (frameRegs em ! j))) (gpTemp em)
                       else gpTemp em) \<and>
         vecTemp em' = (if localVecD (frameRegs em ! j) \<noteq> NoReg
                        then ra_free (indexInClass (localVecD (frameRegs em ! j))) (vecTemp em)
                        else vecTemp em)"
  using assms
  by (cases "localGpX (frameRegs em ! j)"; cases "localVecD (frameRegs em ! j)")
     (auto simp: freeFRTemp_def Let_def bind_eq_Some_conv nth_list_update updFR_def split: if_splits)

lemma ra_free_sets [simp]:
  "set (avail (ra_free i ra)) = insert i (set (avail ra))"
  "set (lru (ra_free i ra)) = set (lru ra) - {i}"
  by (auto simp: ra_free_def)

lemma releases_refl [simp]: "releases K a a"
  by (auto simp: releases_def)

lemma releases_trans:
  assumes "releases K a b" "releases K b c"
  shows "releases K a c"
  unfolding releases_def
proof (intro impI)
  assume wa: "wellFormed K a"
  with assms(1) have wb: "wellFormed K b"
    and hb: "\<And>h. hwRegs b h = hwRegs a h \<or> hwRegs b h = NoFR"
    and pb: "set (avail (gpTemp b)) =
          set (avail (gpTemp a)) \<union> {r. hwRegs a (gpX r) \<noteq> NoFR \<and> hwRegs b (gpX r) = NoFR}"
       "set (lru (gpTemp b)) =
          set (lru (gpTemp a)) - {r. hwRegs a (gpX r) \<noteq> NoFR \<and> hwRegs b (gpX r) = NoFR}"
       "set (avail (vecTemp b)) =
          set (avail (vecTemp a)) \<union> {r. hwRegs a (vecD r) \<noteq> NoFR \<and> hwRegs b (vecD r) = NoFR}"
       "set (lru (vecTemp b)) =
          set (lru (vecTemp a)) - {r. hwRegs a (vecD r) \<noteq> NoFR \<and> hwRegs b (vecD r) = NoFR}"
    by (simp_all add: releases_def)
  from assms(2) wb have wc: "wellFormed K c"
    and hc: "\<And>h. hwRegs c h = hwRegs b h \<or> hwRegs c h = NoFR"
    and pc: "set (avail (gpTemp c)) =
          set (avail (gpTemp b)) \<union> {r. hwRegs b (gpX r) \<noteq> NoFR \<and> hwRegs c (gpX r) = NoFR}"
       "set (lru (gpTemp c)) =
          set (lru (gpTemp b)) - {r. hwRegs b (gpX r) \<noteq> NoFR \<and> hwRegs c (gpX r) = NoFR}"
       "set (avail (vecTemp c)) =
          set (avail (vecTemp b)) \<union> {r. hwRegs b (vecD r) \<noteq> NoFR \<and> hwRegs c (vecD r) = NoFR}"
       "set (lru (vecTemp c)) =
          set (lru (vecTemp b)) - {r. hwRegs b (vecD r) \<noteq> NoFR \<and> hwRegs c (vecD r) = NoFR}"
    by (simp_all add: releases_def)
  have h: "hwRegs c h = hwRegs a h \<or> hwRegs c h = NoFR" for h
    using hb[of h] hc[of h] by auto
  have s: "{r. hwRegs a (f r) \<noteq> NoFR \<and> hwRegs c (f r) = NoFR} =
           {r. hwRegs a (f r) \<noteq> NoFR \<and> hwRegs b (f r) = NoFR} \<union>
           {r. hwRegs b (f r) \<noteq> NoFR \<and> hwRegs c (f r) = NoFR}" for f
    using hb hc by (auto; metis)
  show "wellFormed K c \<and>
        (\<forall>h. hwRegs c h = hwRegs a h \<or> hwRegs c h = NoFR) \<and>
        set (avail (gpTemp c)) =
          set (avail (gpTemp a)) \<union> {r. hwRegs a (gpX r) \<noteq> NoFR \<and> hwRegs c (gpX r) = NoFR} \<and>
        set (lru (gpTemp c)) =
          set (lru (gpTemp a)) - {r. hwRegs a (gpX r) \<noteq> NoFR \<and> hwRegs c (gpX r) = NoFR} \<and>
        set (avail (vecTemp c)) =
          set (avail (vecTemp a)) \<union> {r. hwRegs a (vecD r) \<noteq> NoFR \<and> hwRegs c (vecD r) = NoFR} \<and>
        set (lru (vecTemp c)) =
          set (lru (vecTemp a)) - {r. hwRegs a (vecD r) \<noteq> NoFR \<and> hwRegs c (vecD r) = NoFR}"
    using wc h unfolding s[of gpX] s[of vecD] pc pb by blast
qed

lemma freeFRTemp_releases:
  assumes f: "freeFRTemp K (FR j) a = Some b"
  shows "releases K a b"
  unfolding releases_def
proof (intro impI)
  assume wf: "wellFormed K a"
  note eff = freeFRTemp_effect[OF f]
  note pl = freeFRTemp_pools[OF f]
  from wf have own: "ownership a" by (simp add: wellFormed_def)
  from eff have j: "j < length (frameRegs a)" by simp
  note o = ownershipD[OF own j]
  have hw: "hwRegs b h =
              (if h \<noteq> NoReg \<and> (h = localGpX (frameRegs a ! j) \<or> h = localVecD (frameRegs a ! j))
               then NoFR else hwRegs a h)" for h
    using eff by blast
  have g: "{r. hwRegs a (gpX r) \<noteq> NoFR \<and> hwRegs b (gpX r) = NoFR} =
           (if localGpX (frameRegs a ! j) \<noteq> NoReg then {indexInClass (localGpX (frameRegs a ! j))} else {})"
    using o by (cases "localGpX (frameRegs a ! j)"; cases "localVecD (frameRegs a ! j)")
               (auto simp: hw)
  have v: "{r. hwRegs a (vecD r) \<noteq> NoFR \<and> hwRegs b (vecD r) = NoFR} =
           (if localVecD (frameRegs a ! j) \<noteq> NoReg then {indexInClass (localVecD (frameRegs a ! j))} else {})"
    using o by (cases "localGpX (frameRegs a ! j)"; cases "localVecD (frameRegs a ! j)")
               (auto simp: hw)
  have "\<forall>h. hwRegs b h = hwRegs a h \<or> hwRegs b h = NoFR"
    by (simp add: hw)
  moreover note freeFRTemp_wellFormed[OF f wf]
  ultimately show "wellFormed K b \<and>
        (\<forall>h. hwRegs b h = hwRegs a h \<or> hwRegs b h = NoFR) \<and>
        set (avail (gpTemp b)) =
          set (avail (gpTemp a)) \<union> {r. hwRegs a (gpX r) \<noteq> NoFR \<and> hwRegs b (gpX r) = NoFR} \<and>
        set (lru (gpTemp b)) =
          set (lru (gpTemp a)) - {r. hwRegs a (gpX r) \<noteq> NoFR \<and> hwRegs b (gpX r) = NoFR} \<and>
        set (avail (vecTemp b)) =
          set (avail (vecTemp a)) \<union> {r. hwRegs a (vecD r) \<noteq> NoFR \<and> hwRegs b (vecD r) = NoFR} \<and>
        set (lru (vecTemp b)) =
          set (lru (vecTemp a)) - {r. hwRegs a (vecD r) \<noteq> NoFR \<and> hwRegs b (vecD r) = NoFR}"
    unfolding g v using pl by simp
qed

lemma freeTempOf_releases: "freeTempOf K ex h em = Some em' \<Longrightarrow> releases K em em'"
  by (cases "hwRegs em h")
     (auto simp: freeTempOf_def Let_def split: if_splits intro: freeFRTemp_releases)

lemma freeAllTempExcept_releases:
  assumes "freeAllTempExcept K ex em = Some em'"
  shows "releases K em em'"
proof -
  from assms obtain em1 where
    a: "forEach (inclusive (kGPTemp K)) (\<lambda>i. freeTempOf K ex (HWReg_of i GpX)) em = Some em1" and
    b: "forEach (inclusive (kVecTemp K)) (\<lambda>i. freeTempOf K ex (HWReg_of i VecD)) em1 = Some em'"
    by (auto simp: freeAllTempExcept_def elim!: bind_SomeE)
  have "releases K em em1"
    by (rule forEach_rel[OF a]) (auto intro: freeTempOf_releases releases_trans)
  moreover have "releases K em1 em'"
    by (rule forEach_rel[OF b]) (auto intro: freeTempOf_releases releases_trans)
  ultimately show ?thesis by (rule releases_trans)
qed

lemma samePools_refl [simp]: "samePools em em"
  by (simp add: samePools_def)

lemma samePools_trans: "samePools a b \<Longrightarrow> samePools b c \<Longrightarrow> samePools a c"
  by (simp add: samePools_def)

lemma syncGpTemp_samePools: "syncGpTemp K ex r em = Some em' \<Longrightarrow> samePools em em'"
  by (cases "hwRegs em (gpX r)")
     (auto simp: syncGpTemp_def Let_def movHWReg_eq storeHWRegToFrame_eq samePools_def
        bind_eq_Some_conv split: if_splits option.splits)

lemma syncVecTemp_samePools: "syncVecTemp K ex r em = Some em' \<Longrightarrow> samePools em em'"
  by (cases "hwRegs em (vecD r)")
     (auto simp: syncVecTemp_def Let_def movHWReg_eq storeHWRegToFrame_eq samePools_def
        bind_eq_Some_conv split: if_splits option.splits)

lemma syncAllTempExcept_samePools:
  assumes "syncAllTempExcept K ex em = Some em'"
  shows "samePools em em'"
proof -
  from assms obtain em1 where
    a: "forEach (inclusive (kGPTemp K)) (syncGpTemp K ex) em = Some em1" and
    b: "forEach (inclusive (kVecTemp K)) (syncVecTemp K ex) em1 = Some em'"
    by (auto simp: syncAllTempExcept_def elim!: bind_SomeE)
  have "samePools em em1"
    by (rule forEach_rel[OF a]) (auto intro: syncGpTemp_samePools samePools_trans)
  moreover have "samePools em1 em'"
    by (rule forEach_rel[OF b]) (auto intro: syncVecTemp_samePools samePools_trans)
  ultimately show ?thesis by (rule samePools_trans)
qed

lemma quiet_pools: "samePools em em' \<Longrightarrow> gpTemp em' = gpTemp em \<and> vecTemp em' = vecTemp em"
  by (simp add: samePools_def)

lemma quiet_code:
  "quiet em em' \<Longrightarrow> \<exists>code. emitted em' = emitted em @ code \<and> list_all (\<lambda>i. \<not> isCall i) code"
  by (simp add: quiet_def)

lemma newBasicBlock_effect:
  assumes nb: "newBasicBlock K label' em = Some em'"
  shows "length (frameRegs em') = length (frameRegs em) \<and>
      (\<forall>j < length (frameRegs em).
         localGpX (frameRegs em' ! j) = NoReg \<and> localVecD (frameRegs em' ! j) = NoReg \<and>
         localType (frameRegs em' ! j) = globalType (frameRegs em ! j) \<and>
         globalType (frameRegs em' ! j) = globalType (frameRegs em ! j) \<and>
         globalReg (frameRegs em' ! j) = globalReg (frameRegs em ! j) \<and>
         (frameUpToDate (frameRegs em ! j) \<longrightarrow> frameUpToDate (frameRegs em' ! j)) \<and>
         (globalRegUpToDate (frameRegs em ! j) \<longrightarrow> globalRegUpToDate (frameRegs em' ! j))) \<and>
      (\<exists>code. emitted em' = emitted em @ code @ [I_bind label'] \<and>
               list_all (\<lambda>i. \<not> isCall i) code)"
proof -
  from nb obtain e1 e2 where
    a: "syncAllTempExcept K NoFR em = Some e1" and
    b: "freeAllTempExcept K NoFR e1 = Some e2" and
    c: "list_all (\<lambda>s. localGpX s = NoReg \<and> localVecD s = NoReg)
          (map (\<lambda>s. s\<lparr>localType := globalType s\<rparr>) (frameRegs e2))" and
    e: "em' = a_emit (I_bind label')
              (e2\<lparr>frameRegs := map (\<lambda>s. s\<lparr>localType := globalType s\<rparr>) (frameRegs e2)\<rparr>)"
    by (auto simp: newBasicBlock_def Let_def elim!: bind_SomeE)
  note sy = syncAllTempExcept_onlySyncs[OF a]
  note fr = freeAllTempExcept_onlyFrees[OF b]
  have l1: "length (frameRegs e1) = length (frameRegs em)" by (rule onlySyncs_length[OF sy])
  have l2: "length (frameRegs e2) = length (frameRegs e1)" by (rule onlyFrees_length[OF fr])
  from e l1 l2 have len: "length (frameRegs em') = length (frameRegs em)" by simp
  from syncAllTempExcept_quiet[OF a] obtain code where
    code: "emitted e1 = emitted em @ code" "list_all (\<lambda>i. \<not> isCall i) code"
    by (auto dest: quiet_code)
  moreover from fr have "emitted e2 = emitted e1" by (simp add: onlyFrees_def)
  ultimately have em: "\<exists>code. emitted em' = emitted em @ code @ [I_bind label'] \<and>
               list_all (\<lambda>i. \<not> isCall i) code"
    using e by (simp add: a_emit_def)
  have "localGpX (frameRegs em' ! j) = NoReg \<and> localVecD (frameRegs em' ! j) = NoReg \<and>
         localType (frameRegs em' ! j) = globalType (frameRegs em ! j) \<and>
         globalType (frameRegs em' ! j) = globalType (frameRegs em ! j) \<and>
         globalReg (frameRegs em' ! j) = globalReg (frameRegs em ! j) \<and>
         (frameUpToDate (frameRegs em ! j) \<longrightarrow> frameUpToDate (frameRegs em' ! j)) \<and>
         (globalRegUpToDate (frameRegs em ! j) \<longrightarrow> globalRegUpToDate (frameRegs em' ! j))"
    if j: "j < length (frameRegs em)" for j
  proof -
    from j l1 l2 have j1: "j < length (frameRegs e1)" and j2: "j < length (frameRegs e2)" by simp_all
    from c j2 have cl: "localGpX (frameRegs e2 ! j) = NoReg \<and> localVecD (frameRegs e2 ! j) = NoReg"
      by (simp add: list_all_length)
    from e j2 have ej: "frameRegs em' ! j = (frameRegs e2 ! j)\<lparr>localType := globalType (frameRegs e2 ! j)\<rparr>"
      by simp
    from onlySyncs_nth[OF sy j] onlyFrees_nth[OF fr j1] cl ej
    show ?thesis by (simp add: flagsGrow_def sameButLocals_def)
  qed
  with len em show ?thesis by blast
qed

lemma newBasicBlock_succeeds:
  assumes wf: "wellFormed K em"
  shows "\<exists>em'. newBasicBlock K label' em = Some em' \<and> wellFormed K em' \<and>
         (\<forall>j < length (frameRegs em).
            authoritative (frameRegs em ! j) \<longrightarrow> backed (frameRegs em' ! j)) \<and>
         (\<forall>h. h \<noteq> NoReg \<longrightarrow> hwRegs em' h = NoFR) \<and>
         set (avail (gpTemp em')) = set (avail (gpTemp em)) \<union> {r. hwRegs em (gpX r) \<noteq> NoFR} \<and>
         set (lru (gpTemp em')) = set (lru (gpTemp em)) - {r. hwRegs em (gpX r) \<noteq> NoFR} \<and>
         set (avail (vecTemp em')) = set (avail (vecTemp em)) \<union> {r. hwRegs em (vecD r) \<noteq> NoFR} \<and>
         set (lru (vecTemp em')) = set (lru (vecTemp em)) - {r. hwRegs em (vecD r) \<noteq> NoFR}"
proof -
  from syncAllTempExcept_succeeds[OF wf] obtain e1 where
    a: "syncAllTempExcept K NoFR em = Some e1" and w1: "wellFormed K e1" by blast
  from freeAllTempExcept_succeeds[OF w1] obtain e2 where
    b: "freeAllTempExcept K NoFR e1 = Some e2" and w2: "wellFormed K e2" by blast
  note sy = syncAllTempExcept_onlySyncs[OF a]
  note fr = freeAllTempExcept_onlyFrees[OF b]
  have l1: "length (frameRegs e1) = length (frameRegs em)" by (rule onlySyncs_length[OF sy])
  have l2: "length (frameRegs e2) = length (frameRegs e1)" by (rule onlyFrees_length[OF fr])
  have cl: "localGpX (frameRegs e2 ! j) = NoReg \<and> localVecD (frameRegs e2 ! j) = NoReg"
    if "j < length (frameRegs e2)" for j
    using freeAllTempExcept_NoFR_clears[OF b w1, of j] that l2 by simp
  define em' where "em' = a_emit (I_bind label')
              (e2\<lparr>frameRegs := map (\<lambda>s. s\<lparr>localType := globalType s\<rparr>) (frameRegs e2)\<rparr>)"
  have "list_all (\<lambda>s. localGpX s = NoReg \<and> localVecD s = NoReg)
          (map (\<lambda>s. s\<lparr>localType := globalType s\<rparr>) (frameRegs e2))"
    using cl by (simp add: list_all_length)
  with a b have nb: "newBasicBlock K label' em = Some em'"
    by (simp add: newBasicBlock_def Let_def em'_def)
  have hw': "hwRegs em' = hwRegs e2" and len': "length (frameRegs em') = length (frameRegs e2)"
    and gp': "gpTemp em' = gpTemp e2" and vp': "vecTemp em' = vecTemp e2"
    by (simp_all add: em'_def a_emit_def)
  have loc': "localGpX (frameRegs em' ! j) = NoReg \<and> localVecD (frameRegs em' ! j) = NoReg"
    if "j < length (frameRegs e2)" for j
    using cl[OF that] that by (simp add: em'_def)
  have wf': "wellFormed K em'"
    unfolding wellFormed_def ownership_def tempsInRange_def hwValid_def list_all_length
  proof (intro conjI allI impI)
    fix h j assume "hwRegs em' h = FR j"
    then have "hwRegs e2 h = FR j" by (simp add: hw')
    from hwValidD[OF _ this] w2 have j: "j < length (frameRegs e2)"
      and "localGpX (frameRegs e2 ! j) = h \<or> localVecD (frameRegs e2 ! j) = h"
      by (simp_all add: wellFormed_def)
    then show "j < length (frameRegs em')"
      and "localGpX (frameRegs em' ! j) = h \<or> localVecD (frameRegs em' ! j) = h"
      by (simp_all add: em'_def)
  qed (use loc' len' in auto)
  have clearAll: "hwRegs em' h = NoFR" if "h \<noteq> NoReg" for h
  proof (cases "hwRegs em' h")
    case NoFR then show ?thesis .
  next
    case (FR k)
    from hwValidD[OF _ FR] wf' have "k < length (frameRegs em')"
      "localGpX (frameRegs em' ! k) = h \<or> localVecD (frameRegs em' ! k) = h"
      by (simp_all add: wellFormed_def)
    with loc'[of k] len' that show ?thesis by auto
  qed
  have bk: "backed (frameRegs em' ! j)"
    if j: "j < length (frameRegs em)" and au: "authoritative (frameRegs em ! j)" for j
  proof -
    from wf have own: "ownership em" and rng: "tempsInRange K em" by (simp_all add: wellFormed_def)
    from sync_pass_backs_all[OF a own rng j _ au] have "backed (frameRegs e1 ! j)" by simp
    with onlyFrees_safeStep_backed[OF fr] j l1 have "backed (frameRegs e2 ! j)" by simp
    with j l1 l2 show ?thesis by (simp add: em'_def backed_def)
  qed
  note rel = freeAllTempExcept_releases[OF b, unfolded releases_def, rule_format, OF w1]
  have h1: "hwRegs e1 = hwRegs em" by (rule onlySyncs_hwRegs[OF sy])
  note p1 = quiet_pools[OF syncAllTempExcept_samePools[OF a]]
  have sets: "{r. hwRegs e1 (f r) \<noteq> NoFR \<and> hwRegs e2 (f r) = NoFR} = {r. hwRegs em (f r) \<noteq> NoFR}"
    if "\<And>r. f r \<noteq> NoReg" for f
    using clearAll[OF that] by (auto simp: h1 hw')
  from rel p1 have
    "set (avail (gpTemp em')) = set (avail (gpTemp em)) \<union> {r. hwRegs em (gpX r) \<noteq> NoFR}"
    "set (lru (gpTemp em')) = set (lru (gpTemp em)) - {r. hwRegs em (gpX r) \<noteq> NoFR}"
    "set (avail (vecTemp em')) = set (avail (vecTemp em)) \<union> {r. hwRegs em (vecD r) \<noteq> NoFR}"
    "set (lru (vecTemp em')) = set (lru (vecTemp em)) - {r. hwRegs em (vecD r) \<noteq> NoFR}"
    unfolding sets[of gpX, simplified] sets[of vecD, simplified] gp' vp' by simp_all
  with nb wf' bk clearAll show ?thesis by blast
qed

lemma spillTempReg_succeeds:
  assumes "isTemp K h" "hwRegs em h = FR i" "hwValid em" "globalReg (frameRegs em ! i) \<noteq> h"
  shows "\<exists>em'. spillTempReg K h em = Some em'"
proof -
  from assms(1) have h: "h \<noteq> NoReg" by (cases h) (auto simp: isTemp_def isTempVecD_def)
  from hwValidD[OF assms(3,2)] have i: "i < length (frameRegs em)"
    and l: "localGpX (frameRegs em ! i) = h \<or> localVecD (frameRegs em ! i) = h" by simp_all
  obtain w where w: "globalReg (frameRegs em ! i) \<noteq> NoReg \<Longrightarrow>
      movCode (globalReg (frameRegs em ! i)) h = Some w"
    using movCode_defined[OF _ h, of "globalReg (frameRegs em ! i)"] by auto
  obtain st where st: "frameCode I_str h (FR i) = Some st"
    using h by (cases h) (auto simp: frameCode_def)
  show ?thesis
    using assms(1,2,4) h i l w st
    by (auto simp: spillTempReg_def Let_def movHWReg_eq storeHWRegToFrame_eq bind_eq_Some_conv)
qed

lemma pool_other: "t' \<noteq> t \<Longrightarrow> pool t' (setPool t ra em) = pool t' em"
  by (cases t; cases t') (simp_all add: pool_def setPool_def)

lemma wellFormedI:
  assumes "ownership em" "tempsInRange K em" "hwValid em"
  shows "wellFormed K em"
  using assms by (simp add: wellFormed_def)

lemma tempsInRangeI:
  assumes "\<And>k. k < length (frameRegs em) \<Longrightarrow> localGpX (frameRegs em ! k) \<noteq> NoReg \<Longrightarrow>
             isTempGpX K (localGpX (frameRegs em ! k))"
    and "\<And>k. k < length (frameRegs em) \<Longrightarrow> localVecD (frameRegs em ! k) \<noteq> NoReg \<Longrightarrow>
             isTempVecD K (localVecD (frameRegs em ! k))"
  shows "tempsInRange K em"
  using assms by (auto simp: tempsInRange_def list_all_length)

lemma hwValidI:
  assumes "\<And>h k. hwRegs em h = FR k \<Longrightarrow> k < length (frameRegs em) \<and>
             (localGpX (frameRegs em ! k) = h \<or> localVecD (frameRegs em ! k) = h)"
  shows "hwValid em"
  using assms by (auto simp: hwValid_def)

lemma freeReg_wellFormed:
  assumes f: "freeReg K h em = Some em'" and wf: "wellFormed K em"
  shows "wellFormed K em'"
proof (cases "h = NoReg")
  case True
  with f wf show ?thesis by (simp add: freeReg_eq)
next
  case False
  note eff = freeReg_effect[OF f False]
  from wf have own: "ownership em" and rng: "tempsInRange K em" and hv: "hwValid em"
    by (simp_all add: wellFormed_def)
  have len: "length (frameRegs em') = length (frameRegs em)" using eff by simp
  have loc: "(localGpX (frameRegs em' ! k) = NoReg \<or>
              localGpX (frameRegs em' ! k) = localGpX (frameRegs em ! k)) \<and>
             (localVecD (frameRegs em' ! k) = NoReg \<or>
              localVecD (frameRegs em' ! k) = localVecD (frameRegs em ! k))" for k
    using eff by (cases "hwRegs em h = FR k") (auto split: if_splits)
  show ?thesis
  proof (rule wellFormedI)
    show "ownership em'" by (rule freeReg_ownership[OF f own])
    show "tempsInRange K em'"
      by (rule tempsInRangeI) (use loc tempsInRangeD[OF rng] len in metis)+
    show "hwValid em'"
    proof (rule hwValidI)
      fix h' k assume a: "hwRegs em' h' = FR k"
      with eff have ne: "h' \<noteq> h" and old: "hwRegs em h' = FR k" by (auto split: if_splits)
      from hwValidD[OF hv old] have k: "k < length (frameRegs em)"
        and l: "localGpX (frameRegs em ! k) = h' \<or> localVecD (frameRegs em ! k) = h'" by simp_all
      have "localGpX (frameRegs em' ! k) = h' \<or> localVecD (frameRegs em' ! k) = h'"
      proof (cases "hwRegs em h = FR k")
        case True
        with eff ne l ownershipD[OF own k] show ?thesis
          by (cases "isGpX h") auto
      next
        case False
        with eff l show ?thesis by simp
      qed
      with k len show "k < length (frameRegs em') \<and>
          (localGpX (frameRegs em' ! k) = h' \<or> localVecD (frameRegs em' ! k) = h')" by simp
    qed
  qed
qed

lemma spillTempReg_wellFormed:
  assumes f: "spillTempReg K h em = Some em'" and wf: "wellFormed K em"
  shows "wellFormed K em'"
proof -
  note eff = spillTempReg_effect[OF f]
  from eff obtain i where owner: "hwRegs em h = FR i"
    by (cases "hwRegs em h") auto
  from wf have own: "ownership em" and rng: "tempsInRange K em" and hv: "hwValid em"
    by (simp_all add: wellFormed_def)
  have len: "length (frameRegs em') = length (frameRegs em)" using eff by simp
  from eff owner have i: "i < length (frameRegs em)" by simp
  have loc: "(localGpX (frameRegs em' ! k) = NoReg \<or>
              localGpX (frameRegs em' ! k) = localGpX (frameRegs em ! k)) \<and>
             (localVecD (frameRegs em' ! k) = NoReg \<or>
              localVecD (frameRegs em' ! k) = localVecD (frameRegs em ! k))" for k
    using eff owner by (cases "k = i") (auto split: if_splits)
  show ?thesis
  proof (rule wellFormedI)
    show "ownership em'" by (rule spillTempReg_ownership[OF f own])
    show "tempsInRange K em'"
      by (rule tempsInRangeI) (use loc tempsInRangeD[OF rng] len in metis)+
    show "hwValid em'"
    proof (rule hwValidI)
      fix h' k assume a: "hwRegs em' h' = FR k"
      with eff have ne: "h' \<noteq> h" and old: "hwRegs em h' = FR k" by (auto split: if_splits)
      from hwValidD[OF hv old] have k: "k < length (frameRegs em)"
        and l: "localGpX (frameRegs em ! k) = h' \<or> localVecD (frameRegs em ! k) = h'" by simp_all
      have "localGpX (frameRegs em' ! k) = h' \<or> localVecD (frameRegs em' ! k) = h'"
      proof (cases "k = i")
        case True
        with eff owner ne l show ?thesis by (auto split: if_splits)
      next
        case False
        with eff owner l show ?thesis by simp
      qed
      with k len show "k < length (frameRegs em') \<and>
          (localGpX (frameRegs em' ! k) = h' \<or> localVecD (frameRegs em' ! k) = h')" by simp
    qed
  qed
qed

lemma frUpdatedWithHWReg_hwRegs:
  assumes "frUpdatedWithHWReg K (FR i) hwReg ty em = Some em'" "hwReg \<noteq> NoReg"
    and "localGpX (frameRegs em ! i) \<noteq> NoReg \<Longrightarrow>
           isGpX (localGpX (frameRegs em ! i)) \<and> hwRegs em (localGpX (frameRegs em ! i)) = FR i"
    and "localVecD (frameRegs em ! i) \<noteq> NoReg \<Longrightarrow>
           isVecD (localVecD (frameRegs em ! i)) \<and> hwRegs em (localVecD (frameRegs em ! i)) = FR i"
  shows "hwRegs em' h =
           (if h \<noteq> NoReg \<and> (h = localGpX (frameRegs em ! i) \<or> h = localVecD (frameRegs em ! i)) \<and>
               h \<noteq> localGpX (frameRegs em' ! i) \<and> h \<noteq> localVecD (frameRegs em' ! i)
            then NoFR else hwRegs em h)"
  using assms
  apply (cases hwReg; cases "localGpX (frameRegs em ! i)"; cases "localVecD (frameRegs em ! i)")
  apply (auto simp: frUpdatedWithHWReg_def frUpdateType_def freeReg_eq Let_def bind_eq_Some_conv
         nth_list_update split: if_splits option.splits)
  done

lemma frUpdatedWithHWReg_wellFormed:
  assumes f: "frUpdatedWithHWReg K (FR i) hwReg ty em = Some em'" and nz: "hwReg \<noteq> NoReg"
    and wf: "wellFormed K em"
  shows "wellFormed K em'"
proof -
  from wf have own: "ownership em" and rng: "tempsInRange K em" and hv: "hwValid em"
    by (simp_all add: wellFormed_def)
  from f have i: "i < length (frameRegs em)"
    by (auto simp: frUpdatedWithHWReg_def bind_eq_Some_conv split: if_splits)
  note eff = frUpdatedWithHWReg_effect[OF f nz ownershipD[OF own i]]
  note hw = frUpdatedWithHWReg_hwRegs[OF f nz ownershipD[OF own i]]
  have len: "length (frameRegs em') = length (frameRegs em)" using eff by simp
  have other: "k \<noteq> i \<Longrightarrow> frameRegs em' ! k = frameRegs em ! k" for k using eff by simp
  have loci: "(localGpX (frameRegs em' ! i) = NoReg \<or>
              localGpX (frameRegs em' ! i) = localGpX (frameRegs em ! i)) \<and>
             (localVecD (frameRegs em' ! i) = NoReg \<or>
              localVecD (frameRegs em' ! i) = localVecD (frameRegs em ! i))"
    using eff by (auto split: if_splits)
  have loc: "(localGpX (frameRegs em' ! k) = NoReg \<or>
              localGpX (frameRegs em' ! k) = localGpX (frameRegs em ! k)) \<and>
             (localVecD (frameRegs em' ! k) = NoReg \<or>
              localVecD (frameRegs em' ! k) = localVecD (frameRegs em ! k))" for k
    using loci other[of k] by (cases "k = i") auto
  show ?thesis
  proof (rule wellFormedI)
    show "ownership em'"
    proof (rule ownershipI)
      fix j assume j: "j < length (frameRegs em')" and l: "localGpX (frameRegs em' ! j) \<noteq> NoReg"
      from j len have j': "j < length (frameRegs em)" by simp
      from l loc[of j] have same: "localGpX (frameRegs em' ! j) = localGpX (frameRegs em ! j)" by auto
      from ownershipD(1)[OF own j'] l same have
        o: "isGpX (localGpX (frameRegs em ! j))" "hwRegs em (localGpX (frameRegs em ! j)) = FR j"
        by simp_all
      have "hwRegs em' (localGpX (frameRegs em ! j)) = FR j"
      proof (cases "j = i")
        case True
        with same o show ?thesis by (simp add: hw)
      next
        case False
        with o ownershipD[OF own i] show ?thesis by (auto simp: hw)
      qed
      with same o show
        "isGpX (localGpX (frameRegs em' ! j)) \<and> hwRegs em' (localGpX (frameRegs em' ! j)) = FR j"
        by simp
    next
      fix j assume j: "j < length (frameRegs em')" and l: "localVecD (frameRegs em' ! j) \<noteq> NoReg"
      from j len have j': "j < length (frameRegs em)" by simp
      from l loc[of j] have same: "localVecD (frameRegs em' ! j) = localVecD (frameRegs em ! j)" by auto
      from ownershipD(2)[OF own j'] l same have
        o: "isVecD (localVecD (frameRegs em ! j))" "hwRegs em (localVecD (frameRegs em ! j)) = FR j"
        by simp_all
      have "hwRegs em' (localVecD (frameRegs em ! j)) = FR j"
      proof (cases "j = i")
        case True
        with same o show ?thesis by (simp add: hw)
      next
        case False
        with o ownershipD[OF own i] show ?thesis by (auto simp: hw)
      qed
      with same o show
        "isVecD (localVecD (frameRegs em' ! j)) \<and> hwRegs em' (localVecD (frameRegs em' ! j)) = FR j"
        by simp
    qed
    show "tempsInRange K em'"
      by (rule tempsInRangeI) (use loc tempsInRangeD[OF rng] len in metis)+
    show "hwValid em'"
    proof (rule hwValidI)
      fix h k assume a: "hwRegs em' h = FR k"
      with hw[of h] have old: "hwRegs em h = FR k"
        and keep: "\<not> (h \<noteq> NoReg \<and> (h = localGpX (frameRegs em ! i) \<or> h = localVecD (frameRegs em ! i)) \<and>
               h \<noteq> localGpX (frameRegs em' ! i) \<and> h \<noteq> localVecD (frameRegs em' ! i))"
        by (auto split: if_splits)
      from hwValidD[OF hv old] have k: "k < length (frameRegs em)"
        and l: "localGpX (frameRegs em ! k) = h \<or> localVecD (frameRegs em ! k) = h" by simp_all
      have "localGpX (frameRegs em' ! k) = h \<or> localVecD (frameRegs em' ! k) = h"
      proof (cases "k = i")
        case True
        show ?thesis
        proof (cases "h = NoReg")
          case True
          with l loc[of k] show ?thesis by auto
        next
          case False
          with keep l True show ?thesis by auto
        qed
      next
        case False
        with other l show ?thesis by simp
      qed
      with k len show "k < length (frameRegs em') \<and>
          (localGpX (frameRegs em' ! k) = h \<or> localVecD (frameRegs em' ! k) = h)" by simp
    qed
  qed
qed

lemma syncToMem_effect:
  assumes "syncToMem K (FR i) em = Some em'"
  shows "i < length (frameRegs em) \<and> length (frameRegs em') = length (frameRegs em) \<and>
         hwRegs em' = hwRegs em \<and>
         (\<forall>j. j \<noteq> i \<longrightarrow> frameRegs em' ! j = frameRegs em ! j) \<and>
         localGpX (frameRegs em' ! i) = localGpX (frameRegs em ! i) \<and>
         localVecD (frameRegs em' ! i) = localVecD (frameRegs em ! i) \<and>
         globalReg (frameRegs em' ! i) = globalReg (frameRegs em ! i) \<and>
         localType (frameRegs em' ! i) = localType (frameRegs em ! i) \<and>
         globalType (frameRegs em' ! i) = globalType (frameRegs em ! i) \<and>
         frameUpToDate (frameRegs em' ! i) \<and>
         (frameUpToDate (frameRegs em ! i) \<longrightarrow> em' = em) \<and>
         (\<not> frameUpToDate (frameRegs em ! i) \<longrightarrow>
            registerOf (frameRegs em ! i) \<noteq> NoReg \<and>
            globalRegUpToDate (frameRegs em' ! i) =
              (globalReg (frameRegs em ! i) \<noteq> NoReg \<or> globalRegUpToDate (frameRegs em ! i)) \<and>
            (\<exists>pre st.
               (if globalReg (frameRegs em ! i) \<noteq> NoReg \<and> \<not> globalRegUpToDate (frameRegs em ! i)
                then movCode (globalReg (frameRegs em ! i)) (registerOf (frameRegs em ! i)) = Some pre
                else pre = []) \<and>
               frameCode I_str (registerOf (frameRegs em ! i)) (FR i) = Some st \<and>
               emitted em' = emitted em @ pre @ [st]))"
  using assms
  by (auto simp: syncToMem_def isFRInRegister_def movHWReg_eq storeHWRegToFrame_eq registerOf_def
        bind_eq_Some_conv nth_list_update split: if_splits option.splits)

lemma frUpdatedWithHWReg_commits:
  assumes wf: "wellFormed K em" and nz: "hwReg \<noteq> NoReg"
    and f: "frUpdatedWithHWReg K fr hwReg ty em = Some em'"
  shows "wellFormed K em' \<and> emitted em' = emitted em \<and>
         length (frameRegs em') = length (frameRegs em) \<and>
         (\<exists>i. fr = FR i \<and> i < length (frameRegs em) \<and>
            (\<forall>j. j \<noteq> i \<longrightarrow> frameRegs em' ! j = frameRegs em ! j) \<and>
            authoritative (frameRegs em' ! i) \<and>
            \<not> frameUpToDate (frameRegs em' ! i) \<and>
            globalRegUpToDate (frameRegs em' ! i) = (globalReg (frameRegs em ! i) = hwReg) \<and>
            globalReg (frameRegs em' ! i) = globalReg (frameRegs em ! i) \<and>
            localGpX (frameRegs em' ! i) =
              (if globalReg (frameRegs em ! i) \<noteq> hwReg \<and> hwReg = localGpX (frameRegs em ! i)
               then hwReg else NoReg) \<and>
            localVecD (frameRegs em' ! i) =
              (if globalReg (frameRegs em ! i) \<noteq> hwReg \<and> hwReg \<noteq> localGpX (frameRegs em ! i)
               then hwReg else NoReg))"
proof -
  from f obtain i where fr: "fr = FR i" and i: "i < length (frameRegs em)"
    by (cases fr) (auto simp: frUpdatedWithHWReg_def bind_eq_Some_conv split: if_splits)
  from wf have own: "ownership em" by (simp add: wellFormed_def)
  note eff = frUpdatedWithHWReg_effect[OF f[unfolded fr] nz ownershipD[OF own i]]
  from eff nz have au: "authoritative (frameRegs em' ! i)"
    by (auto simp: authoritative_def split: if_splits)
  from frUpdatedWithHWReg_wellFormed[OF f[unfolded fr] nz wf] eff fr i au show ?thesis
    by simp
qed

lemma spillTempReg_writes_back:
  assumes wf: "wellFormed K em" and f: "spillTempReg K toSpill em = Some em'"
  shows "wellFormed K em' \<and> length (frameRegs em') = length (frameRegs em) \<and>
         hwRegs em' = (hwRegs em)(toSpill := NoFR) \<and>
         (\<forall>j < length (frameRegs em).
            authoritative (frameRegs em ! j) \<longrightarrow> authoritative (frameRegs em' ! j)) \<and>
         (\<exists>i. hwRegs em toSpill = FR i \<and> i < length (frameRegs em) \<and>
            (\<forall>j. j \<noteq> i \<longrightarrow> frameRegs em' ! j = frameRegs em ! j) \<and>
            backed (frameRegs em' ! i) \<and>
            (if globalReg (frameRegs em ! i) \<noteq> NoReg
             then globalRegUpToDate (frameRegs em' ! i) \<and>
                  frameUpToDate (frameRegs em' ! i) = frameUpToDate (frameRegs em ! i) \<and>
                  (if globalRegUpToDate (frameRegs em ! i) then emitted em' = emitted em
                   else \<exists>w. movCode (globalReg (frameRegs em ! i)) toSpill = Some w \<and>
                          emitted em' = emitted em @ w)
             else frameUpToDate (frameRegs em' ! i) \<and>
                  globalRegUpToDate (frameRegs em' ! i) = globalRegUpToDate (frameRegs em ! i) \<and>
                  (if frameUpToDate (frameRegs em ! i) then emitted em' = emitted em
                   else \<exists>st. frameCode I_str toSpill (FR i) = Some st \<and>
                          emitted em' = emitted em @ [st])))"
proof -
  note eff = spillTempReg_effect[OF f]
  from eff obtain i where owner: "hwRegs em toSpill = FR i"
    by (cases "hwRegs em toSpill") auto
  note emi = spillTempReg_emitted[OF f owner]
  from eff owner have bk: "backed (frameRegs em' ! i)"
    by (auto simp: backed_def split: if_splits)
  have au: "\<forall>j < length (frameRegs em).
            authoritative (frameRegs em ! j) \<longrightarrow> authoritative (frameRegs em' ! j)"
    using safeStep_nth[OF spillTempReg_safeStep[OF f]] by (simp add: keepsBacking_def)
  from eff owner emi have
    "i < length (frameRegs em) \<and>
     (\<forall>j. j \<noteq> i \<longrightarrow> frameRegs em' ! j = frameRegs em ! j) \<and>
     (if globalReg (frameRegs em ! i) \<noteq> NoReg
      then globalRegUpToDate (frameRegs em' ! i) \<and>
           frameUpToDate (frameRegs em' ! i) = frameUpToDate (frameRegs em ! i) \<and>
           (if globalRegUpToDate (frameRegs em ! i) then emitted em' = emitted em
            else \<exists>w. movCode (globalReg (frameRegs em ! i)) toSpill = Some w \<and>
                   emitted em' = emitted em @ w)
      else frameUpToDate (frameRegs em' ! i) \<and>
           globalRegUpToDate (frameRegs em' ! i) = globalRegUpToDate (frameRegs em ! i) \<and>
           (if frameUpToDate (frameRegs em ! i) then emitted em' = emitted em
            else \<exists>st. frameCode I_str toSpill (FR i) = Some st \<and>
                   emitted em' = emitted em @ [st]))"
    by (simp split: if_splits)
  with spillTempReg_wellFormed[OF f wf] eff au owner bk show ?thesis by simp
qed

lemma syncToMem_syncs:
  assumes wf: "wellFormed K em" and f: "syncToMem K fr em = Some em'"
  shows "wellFormed K em' \<and> length (frameRegs em') = length (frameRegs em) \<and>
         hwRegs em' = hwRegs em \<and>
         (\<forall>j < length (frameRegs em).
            authoritative (frameRegs em ! j) \<longrightarrow> authoritative (frameRegs em' ! j)) \<and>
         (\<exists>i. fr = FR i \<and> i < length (frameRegs em) \<and>
            (\<forall>j. j \<noteq> i \<longrightarrow> frameRegs em' ! j = frameRegs em ! j) \<and>
            localGpX (frameRegs em' ! i) = localGpX (frameRegs em ! i) \<and>
            localVecD (frameRegs em' ! i) = localVecD (frameRegs em ! i) \<and>
            globalReg (frameRegs em' ! i) = globalReg (frameRegs em ! i) \<and>
            frameUpToDate (frameRegs em' ! i) \<and>
            (frameUpToDate (frameRegs em ! i) \<longrightarrow> em' = em) \<and>
            (\<not> frameUpToDate (frameRegs em ! i) \<longrightarrow>
               registerOf (frameRegs em ! i) \<noteq> NoReg \<and>
               globalRegUpToDate (frameRegs em' ! i) =
                 (globalReg (frameRegs em ! i) \<noteq> NoReg \<or> globalRegUpToDate (frameRegs em ! i)) \<and>
               (\<exists>pre st.
                  (if globalReg (frameRegs em ! i) \<noteq> NoReg \<and> \<not> globalRegUpToDate (frameRegs em ! i)
                   then movCode (globalReg (frameRegs em ! i)) (registerOf (frameRegs em ! i)) = Some pre
                   else pre = []) \<and>
                  frameCode I_str (registerOf (frameRegs em ! i)) (FR i) = Some st \<and>
                  emitted em' = emitted em @ pre @ [st])))"
proof -
  from f obtain i where fr: "fr = FR i"
    by (cases fr) (auto simp: syncToMem_def)
  note eff = syncToMem_effect[OF f[unfolded fr]]
  note os = syncToMem_onlySyncs[OF f]
  have au: "\<forall>j < length (frameRegs em).
            authoritative (frameRegs em ! j) \<longrightarrow> authoritative (frameRegs em' ! j)"
    using onlySyncs_nth[OF os] by (blast intro: flagsGrow_authoritative)
  from onlySyncs_wellFormed[OF os wf] au eff fr show ?thesis by simp
qed

lemma freeReg_unbinds:
  assumes wf: "wellFormed K em" and f: "freeReg K hwReg em = Some em'"
  shows "wellFormed K em' \<and> emitted em' = emitted em \<and>
         length (frameRegs em') = length (frameRegs em) \<and>
         (hwReg \<noteq> NoReg \<longrightarrow> hwRegs em' = (hwRegs em)(hwReg := NoFR)) \<and>
         (\<forall>j < length (frameRegs em).
            frameUpToDate (frameRegs em' ! j) = frameUpToDate (frameRegs em ! j) \<and>
            globalRegUpToDate (frameRegs em' ! j) = globalRegUpToDate (frameRegs em ! j) \<and>
            globalReg (frameRegs em' ! j) = globalReg (frameRegs em ! j) \<and>
            (hwRegs em hwReg \<noteq> FR j \<longrightarrow> frameRegs em' ! j = frameRegs em ! j) \<and>
            (hwReg \<noteq> NoReg \<longrightarrow> localGpX (frameRegs em' ! j) \<noteq> hwReg \<and>
                                localVecD (frameRegs em' ! j) \<noteq> hwReg) \<and>
            (authoritative (frameRegs em ! j) \<and>
             (hwRegs em hwReg \<noteq> FR j \<or> backed (frameRegs em ! j) \<or>
              (localGpX (frameRegs em ! j) \<noteq> NoReg \<and> localVecD (frameRegs em ! j) \<noteq> NoReg)) \<longrightarrow>
             authoritative (frameRegs em' ! j)))"
proof (cases "hwReg = NoReg")
  case True
  with f have "em' = em" by (simp add: freeReg_eq)
  with wf True show ?thesis by simp
next
  case False
  note eff = freeReg_effect[OF f False]
  from wf have own: "ownership em" by (simp add: wellFormed_def)
  have per: "frameUpToDate (frameRegs em' ! j) = frameUpToDate (frameRegs em ! j) \<and>
            globalRegUpToDate (frameRegs em' ! j) = globalRegUpToDate (frameRegs em ! j) \<and>
            globalReg (frameRegs em' ! j) = globalReg (frameRegs em ! j) \<and>
            (hwRegs em hwReg \<noteq> FR j \<longrightarrow> frameRegs em' ! j = frameRegs em ! j) \<and>
            (hwReg \<noteq> NoReg \<longrightarrow> localGpX (frameRegs em' ! j) \<noteq> hwReg \<and>
                                localVecD (frameRegs em' ! j) \<noteq> hwReg) \<and>
            (authoritative (frameRegs em ! j) \<and>
             (hwRegs em hwReg \<noteq> FR j \<or> backed (frameRegs em ! j) \<or>
              (localGpX (frameRegs em ! j) \<noteq> NoReg \<and> localVecD (frameRegs em ! j) \<noteq> NoReg)) \<longrightarrow>
             authoritative (frameRegs em' ! j))"
    if j: "j < length (frameRegs em)" for j
  proof (cases "hwRegs em hwReg = FR j")
    case True
    with eff ownershipD[OF own j] False show ?thesis
      by (cases hwReg) (auto simp: authoritative_def backed_def)
  next
    case nown: False
    with eff have same: "frameRegs em' ! j = frameRegs em ! j" by simp
    from ownershipD[OF own j] nown have
      "localGpX (frameRegs em ! j) \<noteq> hwReg" "localVecD (frameRegs em ! j) \<noteq> hwReg"
      using False by auto
    with same nown show ?thesis by simp
  qed
  with freeReg_wellFormed[OF f wf] eff show ?thesis by simp
qed

lemma syncAndFreeTempReg_keeps:
  assumes wf: "wellFormed K em" and f: "syncAndFreeTempReg K hwReg em = Some em'"
  shows "wellFormed K em' \<and> length (frameRegs em') = length (frameRegs em) \<and>
         (\<forall>j < length (frameRegs em).
            authoritative (frameRegs em ! j) \<longrightarrow> authoritative (frameRegs em' ! j))"
proof -
  note ss = syncAndFreeTempReg_safeStep[OF f]
  have w: "wellFormed K em'"
  proof (cases "hwReg = NoReg \<or> \<not> isTemp K hwReg \<or> hwRegs em hwReg = NoFR")
    case True
    with f wf show ?thesis by (simp add: syncAndFreeTempReg_def)
  next
    case False
    with f obtain em1 where
      a: "spillTempReg K hwReg em = Some em1" and b: "freeReg K hwReg em1 = Some em'"
      by (auto simp: syncAndFreeTempReg_def elim!: bind_SomeE)
    from freeReg_wellFormed[OF b spillTempReg_wellFormed[OF a wf]] show ?thesis .
  qed
  from w safeStep_length[OF ss] safeStep_nth[OF ss] show ?thesis
    by (simp add: keepsBacking_def)
qed


subsection \<open>The state at an emitted call\<close>

lemma quiet_same: "emitted em' = emitted em \<Longrightarrow> quiet em em'"
  by (simp add: quiet_def)

lemma quiet_useReg [simp]: "quiet em (useReg K h em)"
  by (simp add: quiet_def)

lemma loadFrame_quiet: "loadFrame h fr em = Some em' \<Longrightarrow> quiet em em'"
  by (auto simp: loadFrame_eq quiet_def split: option.splits dest: frameCode_quiet)

lemma isFRInRegister_quiet: "isFRInRegister K fr em = Some (h, em') \<Longrightarrow> quiet em em'"
  by (auto simp: isFRInRegister_def elim!: bind_SomeE split: if_splits)

lemma syncToMem_quiet: "syncToMem K fr em = Some em' \<Longrightarrow> quiet em em'"
  apply (auto simp: syncToMem_def split: if_splits elim!: bind_SomeE
      dest!: isFRInRegister_quiet movHWReg_quiet storeHWRegToFrame_quiet)
    apply (blast intro: quiet_trans quiet_updFR)+
  done

lemma movHWFromFR_quiet: "movHWFromFR K h fr em = Some em' \<Longrightarrow> quiet em em'"
  by (auto simp: movHWFromFR_def elim!: bind_SomeE split: if_splits
      dest!: movHWReg_quiet loadFrame_quiet intro: quiet_trans[OF quiet_useReg])

lemma freeReg_quiet:
  assumes "freeReg K h em = Some em'"
  shows "quiet em em'"
proof (cases "h = NoReg")
  case True
  with assms show ?thesis by (simp add: freeReg_eq)
next
  case False
  from freeReg_effect[OF assms False] show ?thesis by (simp add: quiet_same)
qed

lemma spillTempReg_quiet: "spillTempReg K h em = Some em' \<Longrightarrow> quiet em em'"
  apply (auto simp: spillTempReg_def Let_def split: if_splits elim!: bind_SomeE
      dest!: movHWReg_quiet storeHWRegToFrame_quiet)
  apply (auto simp: quiet_def updFR_def split: FR.splits)
  done

lemma syncAndFreeTempReg_quiet: "syncAndFreeTempReg K h em = Some em' \<Longrightarrow> quiet em em'"
  by (auto simp: syncAndFreeTempReg_def elim!: bind_SomeE split: if_splits
      dest!: spillTempReg_quiet freeReg_quiet intro: quiet_trans)

lemma onlyFrees_quiet: "onlyFrees K em em' \<Longrightarrow> quiet em em'"
  by (simp add: onlyFrees_def quiet_same)

lemma loadFrameAddr_quiet: "loadFrameAddr r fr em = Some em' \<Longrightarrow> quiet em em'"
  by (auto simp: loadFrameAddr_def quiet_def a_emit_def isCall_def split: FR.splits if_splits)

lemma loadFrameAddr_onlySyncs: "loadFrameAddr r fr em = Some em' \<Longrightarrow> onlySyncs em em'"
  by (auto simp: loadFrameAddr_def split: FR.splits if_splits)

lemma uint64Const_frame:
  assumes "uint64Const bits c em = Some (ofs, em')"
  shows "frameRegs em' = frameRegs em \<and> hwRegs em' = hwRegs em \<and> emitted em' = emitted em \<and>
         gpTemp em' = gpTemp em \<and> vecTemp em' = vecTemp em \<and> slowPaths em' = slowPaths em \<and>
         numLabels em' = numLabels em \<and> thunks em' = thunks em \<and> thunkMap em' = thunkMap em"
  using assms
  by (cases "fp64ConstMap em bits")
     (auto simp: uint64Const_def Let_def elim!: bind_SomeE dest!: reserveData_frame)

lemma loadBits64InGp_frame:
  assumes "loadBits64InGp r bits c em = Some em'"
  shows "frameRegs em' = frameRegs em \<and> hwRegs em' = hwRegs em \<and>
         gpTemp em' = gpTemp em \<and> vecTemp em' = vecTemp em \<and> slowPaths em' = slowPaths em \<and>
         numLabels em' = numLabels em \<and> thunks em' = thunks em \<and> thunkMap em' = thunkMap em \<and>
         (\<exists>i. \<not> isCall i \<and> emitted em' = emitted em @ [i])"
  using assms
  by (auto simp: loadBits64InGp_def a_emit_def isCall_def elim!: bind_SomeE split: if_splits
      dest!: uint64Const_frame)

lemma loadBits64InGp_quiet: "loadBits64InGp r bits c em = Some em' \<Longrightarrow> quiet em em'"
  by (drule loadBits64InGp_frame) (auto simp: quiet_def)

lemma loadBits64InGp_onlySyncs: "loadBits64InGp r bits c em = Some em' \<Longrightarrow> onlySyncs em em'"
  by (drule loadBits64InGp_frame) (auto simp: onlySyncs_def list_all2_refl)

lemma callOut:
  assumes pre: "safeStep em e0" "quiet em e0"
    and sy: "syncAllTempExcept K ex e0 = Some e1"
    and mid: "onlySyncs e1 e2" "quiet e1 e2"
    and fr: "onlyFrees K e2 e3"
    and post: "onlySyncs e3 e4" "quiet e3 e4"
    and c: "call fn nm e4 = Some em'"
    and own: "ownership em" and rng: "tempsInRange K em"
  shows "atCall {ex} em em'"
proof -
  note cf = call_frame[OF c]
  note s1 = syncAllTempExcept_onlySyncs[OF sy]
  have l0: "length (frameRegs e0) = length (frameRegs em)" by (rule safeStep_length[OF pre(1)])
  have l1: "length (frameRegs e1) = length (frameRegs e0)" by (rule onlySyncs_length[OF s1])
  have l2: "length (frameRegs e2) = length (frameRegs e1)" by (rule onlySyncs_length[OF mid(1)])
  have l3: "length (frameRegs e3) = length (frameRegs e2)" by (rule onlyFrees_length[OF fr])
  have l4: "length (frameRegs e4) = length (frameRegs e3)" by (rule onlySyncs_length[OF post(1)])
  have len: "length (frameRegs em') = length (frameRegs em)"
    using cf l0 l1 l2 l3 l4 by simp
  have q: "quiet em e4"
    using pre(2) syncAllTempExcept_quiet[OF sy] mid(2) onlyFrees_quiet[OF fr] post(2)
    by (blast intro: quiet_trans)
  then obtain code where code: "emitted e4 = emitted em @ code" "list_all (\<lambda>i. \<not> isCall i) code"
    by (auto simp: quiet_def)
  from cf obtain lab where "emitted em' = emitted e4 @ [I_bl lab]" by blast
  with code have em: "\<exists>code lab. emitted em' = emitted em @ code @ [I_bl lab] \<and>
        list_all (\<lambda>i. \<not> isCall i) code" by auto
  have "backed (frameRegs em' ! j)"
    if j: "j < length (frameRegs em)" and ex: "FR j \<notin> {ex}"
      and au: "authoritative (frameRegs em ! j)" for j
  proof -
    from safeStep_nth[OF pre(1) j] au have a0: "authoritative (frameRegs e0 ! j)"
      by (simp add: keepsBacking_def)
    from ex have ex': "FR j \<noteq> ex" by simp
    from sync_pass_backs_all[OF sy safeStep_ownership[OF pre(1) own]
        safeStep_tempsInRange[OF pre(1) rng] _ ex' a0] j l0
    have "backed (frameRegs e1 ! j)" by simp
    with onlySyncs_backed[OF mid(1)] j l0 l1 have "backed (frameRegs e2 ! j)" by simp
    with onlyFrees_safeStep_backed[OF fr] j l0 l1 l2 have "backed (frameRegs e3 ! j)" by simp
    with onlySyncs_backed[OF post(1)] j l0 l1 l2 l3 have "backed (frameRegs e4 ! j)" by simp
    with cf show ?thesis by simp
  qed
  with len em show ?thesis by (simp add: atCall_def)
qed

lemma quiet_a_emit_mov [simp]:
  "quiet em (a_emit (I_mov a b) em)" "quiet em (a_emit (I_mov_imm a n) em)"
  "quiet em (a_emit (I_ldr a m) em)" "quiet em (a_emit (I_add_imm a b n) em)"
  by (simp_all add: quiet_emit isCall_def)

lemma atCall_mono: "atCall A em em' \<Longrightarrow> A \<subseteq> B \<Longrightarrow> atCall B em em'"
  by (auto simp: atCall_def)

lemma atCall_NoFR: "atCall {NoFR} em em' \<Longrightarrow> atCall {} em em'"
  by (auto simp: atCall_def)

lemma atCall_if: "atCall {if c then fr else NoFR} em em' \<Longrightarrow> atCall (if c then {fr} else {}) em em'"
  by (auto simp: atCall_def)

lemma onlySyncs_emit: "onlySyncs a b \<Longrightarrow> onlySyncs a (a_emit i b)"
  by (blast intro: onlySyncs_trans onlySyncs_a_emit)

lemma quiet_emit_step: "quiet a b \<Longrightarrow> \<not> isCall i \<Longrightarrow> quiet a (a_emit i b)"
  by (blast intro: quiet_trans quiet_emit)

lemma notCall [simp]:
  "\<not> isCall (I_mov a b)" "\<not> isCall (I_mov_imm a n)" "\<not> isCall (I_ldr a m)"
  "\<not> isCall (I_add_imm a b n)"
  by (simp_all add: isCall_def)

lemma forEach_syncToMem:
  assumes "forEach xs (\<lambda>i. syncToMem K (f i)) em = Some em'"
  shows "onlySyncs em em' \<and> quiet em em'"
proof
  show "onlySyncs em em'"
    by (rule forEach_rel[OF assms]) (auto intro: syncToMem_onlySyncs onlySyncs_trans)
  show "quiet em em'"
    by (rule forEach_rel[OF assms]) (auto intro: syncToMem_quiet quiet_trans)
qed

lemma loadConstString_atCall:
  assumes st: "loadConstString_upToCall K frRes rm stringID em = Some em'"
    and own: "ownership em" and rng: "tempsInRange K em"
  shows "atCall {frRes} em em'"
proof -
  from st obtain e1 e2 e3 where
    s1: "syncAllTempExcept K frRes em = Some e1" and
    s2: "freeAllTempExcept K NoFR e1 = Some e2" and
    s3: "loadBits64InGp (X 1) rm (Some ''RuntimeModule'') (a_emit (I_mov (X 0) XRuntime) e2) = Some e3" and
    s4: "call (FnAddr ''_sh_ljs_get_bytecode_string'') ''_sh_ljs_get_bytecode_string''
           (a_emit (I_mov_imm (W 2) (int stringID)) e3) = Some em'"
    by (auto simp: loadConstString_upToCall_def EMIT_RUNTIME_CALL_def Let_def elim!: bind_SomeE)
  have a: "onlySyncs e2 (a_emit (I_mov_imm (W 2) (int stringID)) e3)"
    using loadBits64InGp_onlySyncs[OF s3] by (blast intro: onlySyncs_trans onlySyncs_a_emit)
  have b: "quiet e2 (a_emit (I_mov_imm (W 2) (int stringID)) e3)"
    using loadBits64InGp_quiet[OF s3] by (blast intro: quiet_trans quiet_a_emit_mov)
  show ?thesis
    by (rule callOut[OF safeStep_refl quiet_refl s1 onlySyncs_refl quiet_refl
          freeAllTempExcept_onlyFrees[OF s2] a b s4 own rng])
qed

lemma declareGlobalVar_atCall:
  assumes st: "declareGlobalVar K symID em = Some em'"
    and own: "ownership em" and rng: "tempsInRange K em"
  shows "atCall {} em em'"
proof -
  from st obtain e1 e2 where
    s1: "syncAllTempExcept K NoFR em = Some e1" and
    s2: "freeAllTempExcept K NoFR e1 = Some e2" and
    s4: "call (FnAddr ''_sh_ljs_declare_global_var'') ''_sh_ljs_declare_global_var''
           (a_emit (I_mov_imm (W 1) (int symID)) (a_emit (I_mov (X 0) XRuntime) e2)) = Some em'"
    by (auto simp: declareGlobalVar_def EMIT_RUNTIME_CALL_def Let_def elim!: bind_SomeE)
  have a: "onlySyncs e2 (a_emit (I_mov_imm (W 1) (int symID)) (a_emit (I_mov (X 0) XRuntime) e2))"
    by (intro onlySyncs_emit onlySyncs_refl)
  have b: "quiet e2 (a_emit (I_mov_imm (W 1) (int symID)) (a_emit (I_mov (X 0) XRuntime) e2))"
    by (intro quiet_emit_step quiet_refl notCall)
  show ?thesis
    by (rule atCall_NoFR)
       (rule callOut[OF safeStep_refl quiet_refl s1 onlySyncs_refl quiet_refl
          freeAllTempExcept_onlyFrees[OF s2] a b s4 own rng])
qed

lemma createTopLevelEnvironment_atCall:
  assumes st: "createTopLevelEnvironment_upToCall K frRes sz em = Some em'"
    and own: "ownership em" and rng: "tempsInRange K em"
  shows "atCall {frRes} em em'"
proof -
  define e3 where "e3 e2 = a_emit (I_mov_imm (W 2) (int sz))
     (a_emit (I_mov_imm (X 1) 0) (a_emit (I_mov (X 0) XRuntime) e2))" for e2
  from st obtain e1 e2 where
    s1: "syncAllTempExcept K frRes em = Some e1" and
    s2: "freeAllTempExcept K NoFR e1 = Some e2" and
    s4: "call (FnAddr ''_sh_ljs_create_environment'') ''_sh_ljs_create_environment'' (e3 e2) = Some em'"
    by (auto simp: createTopLevelEnvironment_upToCall_def EMIT_RUNTIME_CALL_def Let_def e3_def
        elim!: bind_SomeE)
  have a: "onlySyncs e2 (e3 e2)" unfolding e3_def by (intro onlySyncs_emit onlySyncs_refl)
  have b: "quiet e2 (e3 e2)" unfolding e3_def by (intro quiet_emit_step quiet_refl notCall)
  show ?thesis
    by (rule callOut[OF safeStep_refl quiet_refl s1 onlySyncs_refl quiet_refl
          freeAllTempExcept_onlyFrees[OF s2] a b s4 own rng])
qed

lemma createClosure_atCall:
  assumes st: "createClosure_upToCall K frRes frEnv rm fid em = Some em'"
    and own: "ownership em" and rng: "tempsInRange K em"
  shows "atCall (if frRes \<noteq> frEnv then {frRes} else {}) em em'"
proof -
  from st obtain e1 e2 e3 e4 e5 where
    s1: "syncAllTempExcept K (if frRes \<noteq> frEnv then frRes else NoFR) em = Some e1" and
    s2: "syncToMem K frEnv e1 = Some e2" and
    s3: "loadFrameAddr (X 1) frEnv (a_emit (I_mov (X 0) XRuntime) e2) = Some e3" and
    s4: "loadBits64InGp (X 2) rm (Some ''RuntimeModule'') e3 = Some e4" and
    s5: "loadBits64InGp (W 3) (ucast fid) None e4 = Some e5" and
    s6: "call (FnAddr ''_sh_ljs_create_bytecode_closure'') ''_sh_ljs_create_bytecode_closure'' e5
           = Some em'"
    by (auto simp: createClosure_upToCall_def EMIT_RUNTIME_CALL_def Let_def elim!: bind_SomeE)
  have a: "onlySyncs e2 e5"
    using loadFrameAddr_onlySyncs[OF s3] loadBits64InGp_onlySyncs[OF s4]
      loadBits64InGp_onlySyncs[OF s5]
    by (blast intro: onlySyncs_trans onlySyncs_a_emit)
  have b: "quiet e2 e5"
    using loadFrameAddr_quiet[OF s3] loadBits64InGp_quiet[OF s4] loadBits64InGp_quiet[OF s5]
    by (blast intro: quiet_trans quiet_a_emit_mov)
  show ?thesis
    by (rule atCall_if)
       (rule callOut[OF safeStep_refl quiet_refl s1 syncToMem_onlySyncs[OF s2]
          syncToMem_quiet[OF s2] onlyFrees_refl a b s6 own rng])
qed

lemma putByValImpl_atCall:
  assumes st: "putByValImpl K frTarget frKey frValue nm shImpl shImplName em = Some em'"
    and own: "ownership em" and rng: "tempsInRange K em"
  shows "atCall {} em em'"
proof -
  from st obtain e1 e2 e3 e4 e5 e6 e7 e8 where
    s1: "syncAllTempExcept K NoFR em = Some e1" and
    s2: "syncToMem K frTarget e1 = Some e2" and
    s3: "syncToMem K frKey e2 = Some e3" and
    s4: "syncToMem K frValue e3 = Some e4" and
    s5: "freeAllTempExcept K NoFR e4 = Some e5" and
    s6: "loadFrameAddr (X 1) frTarget (a_emit (I_mov (X 0) XRuntime) e5) = Some e6" and
    s7: "loadFrameAddr (X 2) frKey e6 = Some e7" and
    s8: "loadFrameAddr (X 3) frValue e7 = Some e8" and
    s9: "call shImpl shImplName e8 = Some em'"
    by (auto simp: putByValImpl_def Let_def elim!: bind_SomeE)
  have m: "onlySyncs e1 e4"
    using syncToMem_onlySyncs[OF s2] syncToMem_onlySyncs[OF s3] syncToMem_onlySyncs[OF s4]
    by (blast intro: onlySyncs_trans)
  have mq: "quiet e1 e4"
    using syncToMem_quiet[OF s2] syncToMem_quiet[OF s3] syncToMem_quiet[OF s4]
    by (blast intro: quiet_trans)
  have a: "onlySyncs e5 e8"
    using loadFrameAddr_onlySyncs[OF s6] loadFrameAddr_onlySyncs[OF s7]
      loadFrameAddr_onlySyncs[OF s8]
    by (blast intro: onlySyncs_trans onlySyncs_a_emit)
  have b: "quiet e5 e8"
    using loadFrameAddr_quiet[OF s6] loadFrameAddr_quiet[OF s7] loadFrameAddr_quiet[OF s8]
    by (blast intro: quiet_trans quiet_a_emit_mov)
  show ?thesis
    by (rule atCall_NoFR)
       (rule callOut[OF safeStep_refl quiet_refl s1 m mq
          freeAllTempExcept_onlyFrees[OF s5] a b s9 own rng])
qed

lemma getByVal_atCall:
  assumes st: "getByVal_upToCall K frRes frSource frKey em = Some em'"
    and own: "ownership em" and rng: "tempsInRange K em"
  shows "atCall (if frRes \<noteq> frSource \<and> frRes \<noteq> frKey then {frRes} else {}) em em'"
proof -
  from st obtain e1 e2 e3 e4 e5 e6 where
    s1: "syncAllTempExcept K (if frRes \<noteq> frSource \<and> frRes \<noteq> frKey then frRes else NoFR) em
           = Some e1" and
    s2: "syncToMem K frSource e1 = Some e2" and
    s3: "syncToMem K frKey e2 = Some e3" and
    s4: "freeAllTempExcept K NoFR e3 = Some e4" and
    s5: "loadFrameAddr (X 1) frSource (a_emit (I_mov (X 0) XRuntime) e4) = Some e5" and
    s6: "loadFrameAddr (X 2) frKey e5 = Some e6" and
    s7: "call (FnAddr ''_sh_ljs_get_by_val_rjs'') ''_sh_ljs_get_by_val_rjs'' e6 = Some em'"
    by (auto simp: getByVal_upToCall_def EMIT_RUNTIME_CALL_def Let_def elim!: bind_SomeE)
  have m: "onlySyncs e1 e3"
    using syncToMem_onlySyncs[OF s2] syncToMem_onlySyncs[OF s3] by (blast intro: onlySyncs_trans)
  have mq: "quiet e1 e3"
    using syncToMem_quiet[OF s2] syncToMem_quiet[OF s3] by (blast intro: quiet_trans)
  have a: "onlySyncs e4 e6"
    using loadFrameAddr_onlySyncs[OF s5] loadFrameAddr_onlySyncs[OF s6]
    by (blast intro: onlySyncs_trans onlySyncs_a_emit)
  have b: "quiet e4 e6"
    using loadFrameAddr_quiet[OF s5] loadFrameAddr_quiet[OF s6]
    by (blast intro: quiet_trans quiet_a_emit_mov)
  show ?thesis
    by (rule atCall_if)
       (rule callOut[OF safeStep_refl quiet_refl s1 m mq
          freeAllTempExcept_onlyFrees[OF s4] a b s7 own rng])
qed

lemma isIn_atCall:
  assumes st: "isIn_upToCall K frRes frLeft frRight em = Some em'"
    and own: "ownership em" and rng: "tempsInRange K em"
  shows "atCall (if frRes \<noteq> frLeft \<and> frRes \<noteq> frRight then {frRes} else {}) em em'"
proof -
  from st obtain e1 e2 e3 e4 e5 e6 where
    s1: "syncAllTempExcept K (if frRes \<noteq> frLeft \<and> frRes \<noteq> frRight then frRes else NoFR) em
           = Some e1" and
    s2: "syncToMem K frLeft e1 = Some e2" and
    s3: "syncToMem K frRight e2 = Some e3" and
    s4: "freeAllTempExcept K NoFR e3 = Some e4" and
    s5: "loadFrameAddr (X 1) frLeft (a_emit (I_mov (X 0) XRuntime) e4) = Some e5" and
    s6: "loadFrameAddr (X 2) frRight e5 = Some e6" and
    s7: "call (FnAddr ''_sh_ljs_is_in_rjs'') ''_sh_ljs_is_in_rjs'' e6 = Some em'"
    by (auto simp: isIn_upToCall_def EMIT_RUNTIME_CALL_def Let_def elim!: bind_SomeE)
  have m: "onlySyncs e1 e3"
    using syncToMem_onlySyncs[OF s2] syncToMem_onlySyncs[OF s3] by (blast intro: onlySyncs_trans)
  have mq: "quiet e1 e3"
    using syncToMem_quiet[OF s2] syncToMem_quiet[OF s3] by (blast intro: quiet_trans)
  have a: "onlySyncs e4 e6"
    using loadFrameAddr_onlySyncs[OF s5] loadFrameAddr_onlySyncs[OF s6]
    by (blast intro: onlySyncs_trans onlySyncs_a_emit)
  have b: "quiet e4 e6"
    using loadFrameAddr_quiet[OF s5] loadFrameAddr_quiet[OF s6]
    by (blast intro: quiet_trans quiet_a_emit_mov)
  show ?thesis
    by (rule atCall_if)
       (rule callOut[OF safeStep_refl quiet_refl s1 m mq
          freeAllTempExcept_onlyFrees[OF s4] a b s7 own rng])
qed

lemma getByIndex_atCall:
  assumes st: "getByIndex_upToCall K frRes frSource key em = Some em'"
    and own: "ownership em" and rng: "tempsInRange K em"
  shows "atCall (if frRes \<noteq> frSource then {frRes} else {}) em em'"
proof -
  from st obtain e1 e2 e3 e4 where
    s1: "syncAllTempExcept K (if frRes \<noteq> frSource then frRes else NoFR) em = Some e1" and
    s2: "syncToMem K frSource e1 = Some e2" and
    s3: "freeAllTempExcept K NoFR e2 = Some e3" and
    s4: "loadFrameAddr (X 1) frSource (a_emit (I_mov (X 0) XRuntime) e3) = Some e4" and
    s5: "call (FnAddr ''_sh_ljs_get_by_index_rjs'') ''_sh_ljs_get_by_index_rjs''
           (a_emit (I_mov_imm (W 2) (int key)) e4) = Some em'"
    by (auto simp: getByIndex_upToCall_def EMIT_RUNTIME_CALL_def Let_def elim!: bind_SomeE)
  have a: "onlySyncs e3 (a_emit (I_mov_imm (W 2) (int key)) e4)"
    using loadFrameAddr_onlySyncs[OF s4] by (blast intro: onlySyncs_trans onlySyncs_a_emit)
  have b: "quiet e3 (a_emit (I_mov_imm (W 2) (int key)) e4)"
    using loadFrameAddr_quiet[OF s4] by (blast intro: quiet_trans quiet_a_emit_mov)
  show ?thesis
    by (rule atCall_if)
       (rule callOut[OF safeStep_refl quiet_refl s1 syncToMem_onlySyncs[OF s2]
          syncToMem_quiet[OF s2] freeAllTempExcept_onlyFrees[OF s3] a b s5 own rng])
qed

lemma getByIdImpl_atCall:
  assumes st: "getByIdImpl_upToCall K frRes symID frSource cacheIdx nm shImpl shImplName em = Some em'"
    and own: "ownership em" and rng: "tempsInRange K em"
  shows "atCall (if frRes \<noteq> frSource then {frRes} else {}) em em'"
proof -
  define e5 where "e5 e4 =
     (if cacheIdx = PROPERTY_CACHING_DISABLED K
      then a_emit (I_mov_imm (X 3) 0) (a_emit (I_mov_imm (W 2) (int symID)) e4)
      else
        (let em = a_emit (I_ldr (X 3)
                    (MemRO (roOfsReadPropertyCachePtr (a_emit (I_mov_imm (W 2) (int symID)) e4))))
                    (a_emit (I_mov_imm (W 2) (int symID)) e4)
         in if cacheIdx \<noteq> 0
            then a_emit (I_add_imm (X 3) (X 3) (int (sizeofPropertyCacheEntry K * cacheIdx))) em
            else em))" for e4
  from st obtain e1 e2 e3 e4 where
    s1: "syncAllTempExcept K (if frRes \<noteq> frSource then frRes else NoFR) em = Some e1" and
    s2: "syncToMem K frSource e1 = Some e2" and
    s3: "freeAllTempExcept K NoFR e2 = Some e3" and
    s4: "loadFrameAddr (X 1) frSource (a_emit (I_mov (X 0) XRuntime) e3) = Some e4" and
    s5: "call shImpl shImplName (e5 e4) = Some em'"
    by (auto simp: getByIdImpl_upToCall_def Let_def e5_def elim!: bind_SomeE split: if_splits)
  have a0: "onlySyncs e4 (e5 e4)"
    unfolding e5_def Let_def by (auto intro!: onlySyncs_emit)
  have b0: "quiet e4 (e5 e4)"
    unfolding e5_def Let_def by (auto intro!: quiet_emit_step)
  have a: "onlySyncs e3 (e5 e4)"
    using loadFrameAddr_onlySyncs[OF s4] a0 by (blast intro: onlySyncs_trans onlySyncs_a_emit)
  have b: "quiet e3 (e5 e4)"
    using loadFrameAddr_quiet[OF s4] b0 by (blast intro: quiet_trans quiet_a_emit_mov)
  show ?thesis
    by (rule atCall_if)
       (rule callOut[OF safeStep_refl quiet_refl s1 syncToMem_onlySyncs[OF s2]
          syncToMem_quiet[OF s2] freeAllTempExcept_onlyFrees[OF s3] a b s5 own rng])
qed

lemma putByIdImpl_atCall:
  assumes st: "putByIdImpl K frTarget symID frValue cacheIdx nm shImpl shImplName em = Some em'"
    and own: "ownership em" and rng: "tempsInRange K em"
  shows "atCall {} em em'"
proof -
  define e7 where "e7 e6 =
     (if cacheIdx = PROPERTY_CACHING_DISABLED K then a_emit (I_mov_imm (X 4) 0) e6
      else
        (let em = a_emit (I_ldr (X 4) (MemRO (roOfsWritePropertyCachePtr e6))) e6
         in if cacheIdx \<noteq> 0
            then a_emit (I_add_imm (X 4) (X 4) (int (sizeofPropertyCacheEntry K * cacheIdx))) em
            else em))" for e6
  from st obtain e1 e2 e3 e4 e5 e6 where
    s1: "syncAllTempExcept K NoFR em = Some e1" and
    s2: "syncToMem K frTarget e1 = Some e2" and
    s3: "syncToMem K frValue e2 = Some e3" and
    s4: "freeAllTempExcept K NoFR e3 = Some e4" and
    s5: "loadFrameAddr (X 1) frTarget (a_emit (I_mov (X 0) XRuntime) e4) = Some e5" and
    s6: "loadFrameAddr (X 3) frValue (a_emit (I_mov_imm (W 2) (int symID)) e5) = Some e6" and
    s7: "call shImpl shImplName (e7 e6) = Some em'"
    by (auto simp: putByIdImpl_def Let_def e7_def elim!: bind_SomeE split: if_splits)
  have m: "onlySyncs e1 e3"
    using syncToMem_onlySyncs[OF s2] syncToMem_onlySyncs[OF s3] by (blast intro: onlySyncs_trans)
  have mq: "quiet e1 e3"
    using syncToMem_quiet[OF s2] syncToMem_quiet[OF s3] by (blast intro: quiet_trans)
  have a0: "onlySyncs e6 (e7 e6)"
    unfolding e7_def Let_def by (auto intro!: onlySyncs_emit)
  have b0: "quiet e6 (e7 e6)"
    unfolding e7_def Let_def by (auto intro!: quiet_emit_step)
  have a: "onlySyncs e4 (e7 e6)"
    using loadFrameAddr_onlySyncs[OF s5] loadFrameAddr_onlySyncs[OF s6] a0
    by (blast intro: onlySyncs_trans onlySyncs_a_emit)
  have b: "quiet e4 (e7 e6)"
    using loadFrameAddr_quiet[OF s5] loadFrameAddr_quiet[OF s6] b0
    by (blast intro: quiet_trans quiet_a_emit_mov)
  show ?thesis
    by (rule atCall_NoFR)
       (rule callOut[OF safeStep_refl quiet_refl s1 m mq
          freeAllTempExcept_onlyFrees[OF s4] a b s7 own rng])
qed

lemma callBuiltin_atCall:
  assumes st: "callBuiltin_upToCall K builtinIndex argc em = Some em'"
    and own: "ownership em" and rng: "tempsInRange K em"
  shows "atCall {} em em'"
proof -
  define e4 where "e4 e3 = a_emit (I_mov_imm (W 3) (int builtinIndex))
     (a_emit (I_mov_imm (W 2) (uint (argc - 1)))
        (a_emit (I_mov (X 1) XFrame) (a_emit (I_mov (X 0) XRuntime) e3)))" for e3
  from st obtain e1 e2 e3 where
    s1: "forEach [1 ..< unat argc]
           (\<lambda>i. syncToMem K (frameArg (length (frameRegs em)) (ThisArg K - int i))) em = Some e1" and
    s2: "syncAllTempExcept K NoFR e1 = Some e2" and
    s3: "freeAllTempExcept K NoFR e2 = Some e3" and
    s4: "call (FnAddr ''_sh_ljs_call_builtin'') ''_sh_ljs_call_builtin'' (e4 e3) = Some em'"
    by (auto simp: callBuiltin_upToCall_def EMIT_RUNTIME_CALL_def Let_def e4_def elim!: bind_SomeE)
  note p = forEach_syncToMem[OF s1]
  have a: "onlySyncs e3 (e4 e3)" unfolding e4_def by (intro onlySyncs_emit onlySyncs_refl)
  have b: "quiet e3 (e4 e3)" unfolding e4_def by (intro quiet_emit_step quiet_refl notCall)
  show ?thesis
    by (rule atCall_NoFR)
       (rule callOut[OF onlySyncs_safeStep[OF p[THEN conjunct1]] p[THEN conjunct2] s2
          onlySyncs_refl quiet_refl freeAllTempExcept_onlyFrees[OF s3] a b s4 own rng])
qed

lemma getBuiltinClosure_atCall:
  assumes st: "getBuiltinClosure_upToCall K frRes builtinIndex em = Some em'"
    and own: "ownership em" and rng: "tempsInRange K em"
  shows "atCall {frRes} em em'"
proof -
  define e3 where "e3 e2 = a_emit (I_mov_imm (W 1) (int builtinIndex))
     (a_emit (I_mov (X 0) XRuntime) e2)" for e2
  from st obtain e1 e2 where
    s1: "syncAllTempExcept K frRes em = Some e1" and
    s2: "freeAllTempExcept K frRes e1 = Some e2" and
    s4: "call (FnAddr ''_sh_ljs_get_builtin_closure'') ''_sh_ljs_get_builtin_closure'' (e3 e2)
           = Some em'"
    by (auto simp: getBuiltinClosure_upToCall_def EMIT_RUNTIME_CALL_def Let_def e3_def
        elim!: bind_SomeE)
  have a: "onlySyncs e2 (e3 e2)" unfolding e3_def by (intro onlySyncs_emit onlySyncs_refl)
  have b: "quiet e2 (e3 e2)" unfolding e3_def by (intro quiet_emit_step quiet_refl notCall)
  show ?thesis
    by (rule callOut[OF safeStep_refl quiet_refl s1 onlySyncs_refl quiet_refl
          freeAllTempExcept_onlyFrees[OF s2] a b s4 own rng])
qed

lemma jmpTrueFalse_toBoolean_atCall:
  assumes st: "jmpTrueFalse_toBoolean_upToCall K frInput em = Some em'"
    and own: "ownership em" and rng: "tempsInRange K em"
  shows "atCall {} em em'"
proof -
  from st obtain e1 e2 where
    s1: "syncAllTempExcept K NoFR em = Some e1" and
    s2: "movHWFromFR K (gpX 0) frInput e1 = Some e2" and
    s3: "call (FnAddr ''_sh_ljs_to_boolean'') ''_sh_ljs_to_boolean'' e2 = Some em'"
    by (auto simp: jmpTrueFalse_toBoolean_upToCall_def EMIT_RUNTIME_CALL_def elim!: bind_SomeE)
  show ?thesis
    by (rule atCall_NoFR)
       (rule callOut[OF safeStep_refl quiet_refl s1 movHWFromFR_onlySyncs[OF s2]
          movHWFromFR_quiet[OF s2] onlyFrees_refl onlySyncs_refl quiet_refl s3 own rng])
qed

lemma storeToEnvironment_atCall:
  assumes st: "storeToEnvironment_upToCall K np frEnv slot frValue em = Some em'"
    and own: "ownership em" and rng: "tempsInRange K em"
  shows "atCall {} em em'"
proof -
  from st obtain e1 e2 e3 e4 e5 e6 e7 where
    s1: "syncAndFreeTempReg K (gpX 0) em = Some e1" and
    s2: "syncAndFreeTempReg K (gpX 1) e1 = Some e2" and
    s3: "syncAndFreeTempReg K (gpX 2) e2 = Some e3" and
    s4: "syncAndFreeTempReg K (gpX 3) e3 = Some e4" and
    s5: "syncAllTempExcept K NoFR e4 = Some e5" and
    s6: "movHWFromFR K (gpX 1) frEnv (a_emit (I_mov (X 0) XRuntime) e5) = Some e6" and
    s7: "movHWFromFR K (gpX 2) frValue e6 = Some e7" and
    s8: "call (FnAddr (if np then ''_sh_ljs_store_np_to_env'' else ''_sh_ljs_store_to_env''))
           (if np then ''_sh_ljs_store_np_to_env'' else ''_sh_ljs_store_to_env'')
           (a_emit (I_mov_imm (W 3) (int slot)) e7) = Some em'"
    by (auto simp: storeToEnvironment_upToCall_def EMIT_RUNTIME_CALL_def Let_def
        elim!: bind_SomeE split: if_splits)
  have p: "safeStep em e4"
    using s1 s2 s3 s4 by (blast intro: safeStep_trans syncAndFreeTempReg_safeStep)
  have pq: "quiet em e4"
    using s1 s2 s3 s4 by (blast intro: quiet_trans syncAndFreeTempReg_quiet)
  have a: "onlySyncs e5 (a_emit (I_mov_imm (W 3) (int slot)) e7)"
    using movHWFromFR_onlySyncs[OF s6] movHWFromFR_onlySyncs[OF s7]
    by (blast intro: onlySyncs_trans onlySyncs_a_emit)
  have b: "quiet e5 (a_emit (I_mov_imm (W 3) (int slot)) e7)"
    using movHWFromFR_quiet[OF s6] movHWFromFR_quiet[OF s7]
    by (blast intro: quiet_trans quiet_a_emit_mov)
  show ?thesis
    by (rule atCall_NoFR)
       (rule callOut[OF p pq s5 a b onlyFrees_refl onlySyncs_refl quiet_refl s8 own rng])
qed


subsection \<open>Allocation keeps the cross references and the pools consistent\<close>

lemma carries_refl [simp]: "carries K P em em"
  by (simp add: carries_def)

lemma carries_trans: "carries K P a b \<Longrightarrow> carries K P b c \<Longrightarrow> carries K P a c"
  by (auto simp: carries_def intro: quiet_trans)

lemma carriesI:
  assumes "quiet em em'"
    and "allocInv K em \<Longrightarrow> allocInv K em'"
    and "allocInv K em \<Longrightarrow> length (frameRegs em') = length (frameRegs em)"
    and "\<And>j. allocInv K em \<Longrightarrow> j < length (frameRegs em) \<Longrightarrow> P (frameRegs em ! j) \<Longrightarrow>
           P (frameRegs em' ! j)"
  shows "carries K P em em'"
  using assms by (simp add: carries_def)

lemma onlySyncs_avail:
  "onlySyncs em em' \<Longrightarrow> avail (gpTemp em') = avail (gpTemp em) \<and> avail (vecTemp em') = avail (vecTemp em)"
  by (simp add: onlySyncs_def)

lemma onlySyncs_allocInv:
  assumes "onlySyncs em em'" "allocInv K em"
  shows "allocInv K em'"
  using assms onlySyncs_wellFormed[OF assms(1)] onlySyncs_avail[OF assms(1)]
    onlySyncs_hwRegs[OF assms(1)]
  by (simp add: allocInv_def poolsOk_def)

lemma onlySyncs_carries:
  assumes "onlySyncs em em'" "quiet em em'"
    and "\<And>s s'. flagsGrow s s' \<Longrightarrow> P s \<Longrightarrow> P s'"
  shows "carries K P em em'"
  using assms onlySyncs_allocInv[OF assms(1)] onlySyncs_length[OF assms(1)]
    onlySyncs_nth[OF assms(1)]
  by (auto simp: carries_def)

lemma syncToMem_carries:
  assumes "syncToMem K fr em = Some em'"
  shows "carries K authoritative em em'" "carries K backed em em'"
  by (rule onlySyncs_carries[OF syncToMem_onlySyncs[OF assms] syncToMem_quiet[OF assms]];
      erule (1) flagsGrow_authoritative flagsGrow_backed)+

lemma poolsOkI:
  assumes "\<And>r. r \<in> set (avail (gpTemp em)) \<Longrightarrow> isTempGpX K (gpX r) \<and> hwRegs em (gpX r) = NoFR"
    and "\<And>r. r \<in> set (avail (vecTemp em)) \<Longrightarrow> isTempVecD K (vecD r) \<and> hwRegs em (vecD r) = NoFR"
    and "hwRegs em NoReg = NoFR"
  shows "poolsOk K em"
  using assms by (simp add: poolsOk_def)

lemma poolsOkD:
  assumes "poolsOk K em"
  shows "r \<in> set (avail (gpTemp em)) \<Longrightarrow> isTempGpX K (gpX r) \<and> hwRegs em (gpX r) = NoFR"
    and "r \<in> set (avail (vecTemp em)) \<Longrightarrow> isTempVecD K (vecD r) \<and> hwRegs em (vecD r) = NoFR"
    and "hwRegs em NoReg = NoFR"
  using assms by (simp_all add: poolsOk_def)

lemma isTempGpX_gpX: "isTempGpX K h \<Longrightarrow> gpX (indexInClass h) = h"
  by (cases h) (simp_all add: isTempGpX_def)

lemma isTempVecD_vecD: "isTempVecD K h \<Longrightarrow> vecD (indexInClass h) = h"
  by (cases h) (simp_all add: isTempVecD_def)

lemma freeFRTemp_allocInv:
  assumes f: "freeFRTemp K (FR j) em = Some em'" and inv: "allocInv K em"
  shows "allocInv K em'"
proof -
  from inv have wf: "wellFormed K em" and po: "poolsOk K em" by (simp_all add: allocInv_def)
  note eff = freeFRTemp_effect[OF f]
  note pl = freeFRTemp_pools[OF f]
  from wf have rng: "tempsInRange K em" by (simp add: wellFormed_def)
  from eff have j: "j < length (frameRegs em)" by simp
  have hw: "hwRegs em' h = NoFR" if "hwRegs em h = NoFR" for h
    using eff that by simp
  have "poolsOk K em'"
  proof (rule poolsOkI)
    fix r assume r: "r \<in> set (avail (gpTemp em'))"
    show "isTempGpX K (gpX r) \<and> hwRegs em' (gpX r) = NoFR"
    proof (cases "r \<in> set (avail (gpTemp em))")
      case True
      with poolsOkD(1)[OF po] hw show ?thesis by blast
    next
      case False
      with r pl have l: "localGpX (frameRegs em ! j) \<noteq> NoReg"
        and ri: "r = indexInClass (localGpX (frameRegs em ! j))"
        by (auto split: if_splits)
      from tempsInRangeD(1)[OF rng j l] have t: "isTempGpX K (localGpX (frameRegs em ! j))" .
      with ri have "gpX r = localGpX (frameRegs em ! j)" by (simp add: isTempGpX_gpX)
      with t l eff show ?thesis by simp
    qed
  next
    fix r assume r: "r \<in> set (avail (vecTemp em'))"
    show "isTempVecD K (vecD r) \<and> hwRegs em' (vecD r) = NoFR"
    proof (cases "r \<in> set (avail (vecTemp em))")
      case True
      with poolsOkD(2)[OF po] hw show ?thesis by blast
    next
      case False
      with r pl have l: "localVecD (frameRegs em ! j) \<noteq> NoReg"
        and ri: "r = indexInClass (localVecD (frameRegs em ! j))"
        by (auto split: if_splits)
      from tempsInRangeD(2)[OF rng j l] have t: "isTempVecD K (localVecD (frameRegs em ! j))" .
      with ri have "vecD r = localVecD (frameRegs em ! j)" by (simp add: isTempVecD_vecD)
      with t l eff show ?thesis by simp
    qed
  next
    from poolsOkD(3)[OF po] show "hwRegs em' NoReg = NoFR" by (rule hw)
  qed
  with freeFRTemp_wellFormed[OF f wf] show ?thesis by (simp add: allocInv_def)
qed

lemma freeReg_pools:
  assumes "freeReg K h em = Some em'" "h \<noteq> NoReg"
  shows "gpTemp em' = (if isTempGpX K h then ra_free (indexInClass h) (gpTemp em) else gpTemp em) \<and>
         vecTemp em' = (if isTempVecD K h then ra_free (indexInClass h) (vecTemp em) else vecTemp em)"
  using assms
  by (cases h; cases "hwRegs em h")
     (auto simp: freeReg_eq releasePool_def updFR_def isTempGpX_def isTempVecD_def split: if_splits)

lemma freeReg_allocInv:
  assumes f: "freeReg K h em = Some em'" and inv: "allocInv K em"
  shows "allocInv K em'"
proof (cases "h = NoReg")
  case True
  with f inv show ?thesis by (simp add: freeReg_eq)
next
  case False
  from inv have wf: "wellFormed K em" and po: "poolsOk K em" by (simp_all add: allocInv_def)
  note eff = freeReg_effect[OF f False]
  note pl = freeReg_pools[OF f False]
  have hw: "hwRegs em' h' = NoFR" if "hwRegs em h' = NoFR" for h'
    using eff that by simp
  have "poolsOk K em'"
  proof (rule poolsOkI)
    fix r assume r: "r \<in> set (avail (gpTemp em'))"
    show "isTempGpX K (gpX r) \<and> hwRegs em' (gpX r) = NoFR"
    proof (cases "r \<in> set (avail (gpTemp em))")
      case True
      with poolsOkD(1)[OF po] hw show ?thesis by blast
    next
      case nin: False
      with r pl have t: "isTempGpX K h" and ri: "r = indexInClass h"
        by (auto split: if_splits)
      then have "gpX r = h" by (simp add: isTempGpX_gpX)
      with t eff show ?thesis by simp
    qed
  next
    fix r assume r: "r \<in> set (avail (vecTemp em'))"
    show "isTempVecD K (vecD r) \<and> hwRegs em' (vecD r) = NoFR"
    proof (cases "r \<in> set (avail (vecTemp em))")
      case True
      with poolsOkD(2)[OF po] hw show ?thesis by blast
    next
      case nin: False
      with r pl have t: "isTempVecD K h" and ri: "r = indexInClass h"
        by (auto split: if_splits)
      then have "vecD r = h" by (simp add: isTempVecD_vecD)
      with t eff show ?thesis by simp
    qed
  next
    from poolsOkD(3)[OF po] show "hwRegs em' NoReg = NoFR" by (rule hw)
  qed
  with freeReg_wellFormed[OF f wf] show ?thesis by (simp add: allocInv_def)
qed

lemma allocInv_updFR:
  assumes inv: "allocInv K em"
    and f: "\<And>s. localGpX (f s) = localGpX s \<and> localVecD (f s) = localVecD s"
  shows "allocInv K (updFR fr f em)"
proof (cases fr)
  case NoFR
  with inv show ?thesis by (simp add: updFR_def)
next
  case (FR i)
  have l: "localGpX ((frameRegs em)[i := f (frameRegs em ! i)] ! k) = localGpX (frameRegs em ! k) \<and>
           localVecD ((frameRegs em)[i := f (frameRegs em ! i)] ! k) = localVecD (frameRegs em ! k)"
    if "k < length (frameRegs em)" for k
    using that f by (cases "k = i") simp_all
  from inv l show ?thesis
    unfolding FR allocInv_def wellFormed_def ownership_def tempsInRange_def hwValid_def
      poolsOk_def list_all_length
    by (simp add: updFR_def)
qed

lemma frUpdateType_allocInv:
  "frUpdateType fr t em = Some em' \<Longrightarrow> allocInv K em \<Longrightarrow> allocInv K em'"
  by (auto simp: frUpdateType_def elim!: bind_SomeE intro: allocInv_updFR)

lemma frUpdatedWithHWReg_allocInv:
  assumes f: "frUpdatedWithHWReg K fr hwReg ty em = Some em'" and inv: "allocInv K em"
  shows "allocInv K em'"
proof -
  have u: "allocInv K (updFR fr (\<lambda>s. s\<lparr>globalRegUpToDate := b\<rparr>)
             (updFR fr (\<lambda>s. s\<lparr>frameUpToDate := False\<rparr>) em))" for b
    by (intro allocInv_updFR inv) simp_all
  define e0 where "e0 b = updFR fr (\<lambda>s. s\<lparr>globalRegUpToDate := b\<rparr>)
             (updFR fr (\<lambda>s. s\<lparr>frameUpToDate := False\<rparr>) em)" for b
  from f[unfolded frUpdatedWithHWReg_def Let_def] obtain frState e1 where
    g: "getFRState fr em = Some frState" and
    step: "(if globalReg frState = hwReg then do {
              em \<leftarrow> (if localGpX frState \<noteq> NoReg then freeReg K (localGpX frState) (e0 True)
                     else Some (e0 True));
              frState \<leftarrow> getFRState fr em;
              if localVecD frState \<noteq> NoReg then freeReg K (localVecD frState) em else Some em }
            else
              (if hwReg = localGpX frState then freeReg K (localVecD frState) (e0 False)
               else do {
                 _ \<leftarrow> assert (hwReg = localVecD frState);
                 freeReg K (localGpX frState) (e0 False) })) = Some e1" and
    b: "(case ty of Some t \<Rightarrow> frUpdateType fr t e1 | None \<Rightarrow> Some e1) = Some em'"
    unfolding e0_def by (elim bind_SomeE) blast
  have u': "allocInv K (e0 b)" for b unfolding e0_def by (rule u)
  have "allocInv K e1"
  proof (cases "globalReg frState = hwReg")
    case True
    with step obtain e2 where
      a1: "(if localGpX frState \<noteq> NoReg then freeReg K (localGpX frState) (e0 True)
            else Some (e0 True)) = Some e2" and
      a2: "Option.bind (getFRState fr e2)
             (\<lambda>s2. if localVecD s2 \<noteq> NoReg then freeReg K (localVecD s2) e2 else Some e2)
           = Some e1"
      by (auto elim!: bind_SomeE)
    from a1 u'[of True] have "allocInv K e2"
      by (auto split: if_splits intro: freeReg_allocInv)
    with a2 show ?thesis
      by (auto simp: bind_eq_Some_conv split: if_splits intro: freeReg_allocInv)
  next
    case False
    with step u'[of False] show ?thesis
      by (auto split: if_splits elim!: bind_SomeE intro: freeReg_allocInv)
  qed
  with b show ?thesis
    by (cases ty) (auto intro: frUpdateType_allocInv)
qed

lemma allocInv_setPool_gp:
  assumes inv: "allocInv K em" and sub: "set (avail ra) \<subseteq> set (avail (gpTemp em))"
  shows "allocInv K (em\<lparr>gpTemp := ra\<rparr>)"
  using assms
  unfolding allocInv_def wellFormed_def ownership_def tempsInRange_def hwValid_def poolsOk_def
  by auto

lemma allocTempGpX_fresh:
  assumes al: "allocTempGpX K None em = Some (hw, em')" and inv: "allocInv K em"
  shows "allocInv K em' \<and> length (frameRegs em') = length (frameRegs em) \<and> quiet em em' \<and>
         isTempGpX K hw \<and> hwRegs em' hw = NoFR \<and>
         indexInClass hw \<notin> set (avail (gpTemp em')) \<and>
         (\<forall>j < length (frameRegs em). keepsBacking (frameRegs em ! j) (frameRegs em' ! j)) \<and>
         (\<forall>j. localType (frameRegs em' ! j) = localType (frameRegs em ! j))"
proof (cases "avail (gpTemp em) = []")
  case True
  then have ex: "avail (pool GpX em) = []" by (simp add: pool_def)
  from al have al': "allocTemp K GpX None em = Some (hw, em')" by (simp add: allocTempGpX_def)
  from allocTemp_exhausted[OF ex al'] obtain victim em1 where
    hw: "hw = HWReg_of victim GpX" and
    sp: "spillTempReg K hw em = Some em1" and
    em': "em' = setPool GpX ((pool GpX em)\<lparr>avail := [], lru := removeAll victim (lru (pool GpX em)) @ [victim]\<rparr>) em1"
    by blast
  from inv have wf: "wellFormed K em" and po: "poolsOk K em" by (simp_all add: allocInv_def)
  note eff = spillTempReg_effect[OF sp]
  from eff hw have t: "isTempGpX K hw" by (simp add: isTemp_def)
  have w1: "wellFormed K em1" by (rule spillTempReg_wellFormed[OF sp wf])
  have p1: "poolsOk K em1"
    using po eff by (auto simp: poolsOk_def)
  have e': "em' = em1\<lparr>gpTemp := (gpTemp em)\<lparr>avail := [], lru := removeAll victim (lru (gpTemp em)) @ [victim]\<rparr>\<rparr>"
    by (simp add: em' setPool_def pool_def)
  have "allocInv K em'"
    unfolding e' by (rule allocInv_setPool_gp) (simp_all add: allocInv_def w1 p1)
  moreover have "quiet em em'"
    using spillTempReg_quiet[OF sp] by (simp add: e' quiet_def)
  moreover have "\<forall>j < length (frameRegs em). keepsBacking (frameRegs em ! j) (frameRegs em' ! j)"
    using safeStep_nth[OF spillTempReg_safeStep[OF sp]] by (simp add: e')
  moreover have "\<forall>j. localType (frameRegs em' ! j) = localType (frameRegs em ! j)"
  proof
    fix j
    from eff obtain i where owner: "hwRegs em hw = FR i" by (cases "hwRegs em hw") auto
    with eff show "localType (frameRegs em' ! j) = localType (frameRegs em ! j)"
      by (cases "j = i") (simp_all add: e')
  qed
  ultimately show ?thesis
    using eff t by (simp add: e')
next
  case False
  then obtain a as where av: "avail (gpTemp em) = a # as" by (cases "avail (gpTemp em)") auto
  from al av have hw: "hw = gpX a"
    and e': "em' = em\<lparr>gpTemp := (gpTemp em)\<lparr>avail := removeAll a (avail (gpTemp em)),
                                           lru := lru (gpTemp em) @ [a]\<rparr>\<rparr>"
    by (simp_all add: allocTempGpX_def allocTemp_def ra_alloc_def pool_def setPool_def Let_def)
  from inv have po: "poolsOk K em" by (simp add: allocInv_def)
  from poolsOkD(1)[OF po, of a] av have t: "isTempGpX K (gpX a)" "hwRegs em (gpX a) = NoFR"
    by simp_all
  have "allocInv K em'"
    unfolding e' by (rule allocInv_setPool_gp[OF inv]) auto
  with t show ?thesis
    by (simp add: hw e' quiet_def)
qed

lemma assignGpX_allocInv:
  assumes a: "assignAllocatedLocalHWReg (FR i) hw em = Some em'"
    and inv: "allocInv K em"
    and t: "isTempGpX K hw" and un: "hwRegs em hw = NoFR"
    and na: "indexInClass hw \<notin> set (avail (gpTemp em))"
    and nl: "localGpX (frameRegs em ! i) = NoReg"
  shows "allocInv K em' \<and> i < length (frameRegs em) \<and>
         length (frameRegs em') = length (frameRegs em) \<and> emitted em' = emitted em \<and>
         (\<forall>k. k \<noteq> i \<longrightarrow> frameRegs em' ! k = frameRegs em ! k) \<and>
         frameRegs em' ! i = (frameRegs em ! i)\<lparr>localGpX := hw\<rparr>"
proof -
  from t have g: "isGpX hw" "hw \<noteq> NoReg" "gpX (indexInClass hw) = hw"
    by (cases hw; simp add: isTempGpX_def)+
  from a g have i: "i < length (frameRegs em)"
    and e': "em' = updFR (FR i) (\<lambda>s. s\<lparr>localGpX := hw\<rparr>) (em\<lparr>hwRegs := (hwRegs em)(hw := FR i)\<rparr>)"
    by (auto simp: assignAllocatedLocalHWReg_def Let_def bind_eq_Some_conv split: if_splits)
  from inv have own: "ownership em" and rng: "tempsInRange K em" and hv: "hwValid em"
    and po: "poolsOk K em"
    by (simp_all add: allocInv_def wellFormed_def)
  have fr: "frameRegs em' = (frameRegs em)[i := (frameRegs em ! i)\<lparr>localGpX := hw\<rparr>]"
    and hw': "hwRegs em' = (hwRegs em)(hw := FR i)"
    and pools: "gpTemp em' = gpTemp em" "vecTemp em' = vecTemp em"
    and emi: "emitted em' = emitted em"
    by (simp_all add: e' updFR_def)
  have nohw: "localGpX (frameRegs em ! k) \<noteq> hw \<and> localVecD (frameRegs em ! k) \<noteq> hw"
    if "k < length (frameRegs em)" for k
    using ownershipD[OF own that] un g(2) by auto
  have "ownership em'"
  proof (rule ownershipI)
    fix k assume k: "k < length (frameRegs em')" and l: "localGpX (frameRegs em' ! k) \<noteq> NoReg"
    then have k': "k < length (frameRegs em)" by (simp add: fr)
    show "isGpX (localGpX (frameRegs em' ! k)) \<and> hwRegs em' (localGpX (frameRegs em' ! k)) = FR k"
    proof (cases "k = i")
      case True
      with i g show ?thesis by (simp add: fr hw')
    next
      case False
      with l ownershipD(1)[OF own k'] nohw[OF k'] show ?thesis by (simp add: fr hw')
    qed
  next
    fix k assume k: "k < length (frameRegs em')" and l: "localVecD (frameRegs em' ! k) \<noteq> NoReg"
    then have k': "k < length (frameRegs em)" by (simp add: fr)
    from l k' have l': "localVecD (frameRegs em ! k) \<noteq> NoReg"
      by (cases "k = i") (simp_all add: fr)
    from ownershipD(2)[OF own k' l'] nohw[OF k'] k'
    show "isVecD (localVecD (frameRegs em' ! k)) \<and> hwRegs em' (localVecD (frameRegs em' ! k)) = FR k"
      by (cases "k = i") (simp_all add: fr hw')
  qed
  moreover have "tempsInRange K em'"
  proof (rule tempsInRangeI)
    fix k assume k: "k < length (frameRegs em')" and l: "localGpX (frameRegs em' ! k) \<noteq> NoReg"
    then have k': "k < length (frameRegs em)" by (simp add: fr)
    from l tempsInRangeD(1)[OF rng k'] t k'
    show "isTempGpX K (localGpX (frameRegs em' ! k))"
      by (cases "k = i") (simp_all add: fr)
  next
    fix k assume k: "k < length (frameRegs em')" and l: "localVecD (frameRegs em' ! k) \<noteq> NoReg"
    then have k': "k < length (frameRegs em)" by (simp add: fr)
    from l tempsInRangeD(2)[OF rng k'] k'
    show "isTempVecD K (localVecD (frameRegs em' ! k))"
      by (cases "k = i") (simp_all add: fr)
  qed
  moreover have "hwValid em'"
  proof (rule hwValidI)
    fix h k assume h: "hwRegs em' h = FR k"
    show "k < length (frameRegs em') \<and>
          (localGpX (frameRegs em' ! k) = h \<or> localVecD (frameRegs em' ! k) = h)"
    proof (cases "h = hw")
      case True
      with h i show ?thesis by (simp add: fr hw')
    next
      case False
      with h have old: "hwRegs em h = FR k" by (simp add: hw')
      from hwValidD[OF hv old] have k: "k < length (frameRegs em)"
        and l: "localGpX (frameRegs em ! k) = h \<or> localVecD (frameRegs em ! k) = h" by simp_all
      show ?thesis
      proof (cases "k = i")
        case True
        from old poolsOkD(3)[OF po] have "h \<noteq> NoReg" by auto
        with l True nl have "localVecD (frameRegs em ! i) = h" by auto
        with True i show ?thesis by (simp add: fr)
      next
        case False
        with k l show ?thesis by (simp add: fr)
      qed
    qed
  qed
  moreover have "poolsOk K em'"
  proof (rule poolsOkI)
    fix r assume r: "r \<in> set (avail (gpTemp em'))"
    with na have "r \<noteq> indexInClass hw" by (auto simp: pools)
    with g(3) have "gpX r \<noteq> hw" by auto
    with poolsOkD(1)[OF po, of r] r show "isTempGpX K (gpX r) \<and> hwRegs em' (gpX r) = NoFR"
      by (simp add: pools hw')
  next
    fix r assume r: "r \<in> set (avail (vecTemp em'))"
    from g(1) have "vecD r \<noteq> hw" by (cases hw) auto
    with poolsOkD(2)[OF po, of r] r show "isTempVecD K (vecD r) \<and> hwRegs em' (vecD r) = NoFR"
      by (simp add: pools hw')
  next
    from poolsOkD(3)[OF po] g(2) show "hwRegs em' NoReg = NoFR" by (simp add: hw')
  qed
  ultimately have "allocInv K em'" by (simp add: allocInv_def wellFormed_def)
  with i emi show ?thesis by (simp add: fr)
qed

lemma keepsBacking_flagsGrow: "flagsGrow s s' \<Longrightarrow> keepsBacking s s'"
  by (auto simp: keepsBacking_def flagsGrow_def backed_def authoritative_def)

lemma onlySyncs_keepsBacking:
  "onlySyncs em em' \<Longrightarrow> k < length (frameRegs em) \<Longrightarrow>
   keepsBacking (frameRegs em ! k) (frameRegs em' ! k)"
  by (blast intro: keepsBacking_flagsGrow onlySyncs_nth)

lemma isFRInRegister_result:
  assumes "isFRInRegister K (FR i) em = Some (h, em')"
  shows "i < length (frameRegs em) \<and> h = registerOf (frameRegs em ! i) \<and>
         em' = useReg K (if localGpX (frameRegs em ! i) \<noteq> NoReg then localGpX (frameRegs em ! i)
                         else localVecD (frameRegs em ! i)) em"
  using assms
  by (auto simp: isFRInRegister_def registerOf_def bind_eq_Some_conv useReg_def split: if_splits)

lemma getOrAllocFRInAnyReg_carry:
  assumes g: "getOrAllocFRInAnyReg K (FR i) load pref em = Some (reg, em')"
    and inv: "allocInv K em"
  shows "allocInv K em' \<and> length (frameRegs em') = length (frameRegs em) \<and> quiet em em' \<and>
         reg \<noteq> NoReg \<and> i < length (frameRegs em) \<and>
         (\<forall>k < length (frameRegs em). k \<noteq> i \<longrightarrow> keepsBacking (frameRegs em ! k) (frameRegs em' ! k)) \<and>
         (authoritative (frameRegs em ! i) \<longrightarrow> authoritative (frameRegs em' ! i)) \<and>
         (backed (frameRegs em ! i) \<longrightarrow> backed (frameRegs em' ! i)) \<and>
         localType (frameRegs em' ! i) = localType (frameRegs em ! i) \<and>
         (localGpX (frameRegs em' ! i) = reg \<or> localVecD (frameRegs em' ! i) = reg \<or>
          globalReg (frameRegs em' ! i) = reg)"
proof -
  from g obtain tmp e1 where
    a: "isFRInRegister K (FR i) em = Some (tmp, e1)" and
    rest: "(if tmp \<noteq> NoReg then Some (tmp, e1)
            else do {
              (hwGpX, em) \<leftarrow> allocTempGpX K None e1;
              em \<leftarrow> assignAllocatedLocalHWReg (FR i) hwGpX em;
              em \<leftarrow> (if load then do {
                       em \<leftarrow> loadFrame hwGpX (FR i) em;
                       Some (updFR (FR i) (\<lambda>s. s\<lparr>frameUpToDate := True\<rparr>) em) }
                     else Some em);
              Some (hwGpX, em) }) = Some (reg, em')"
    by (auto simp: getOrAllocFRInAnyReg_def elim!: bind_SomeE)
  note r = isFRInRegister_result[OF a]
  note os1 = isFRInRegister_onlySyncs[OF a]
  from r have i: "i < length (frameRegs em)" by simp
  have inv1: "allocInv K e1" by (rule onlySyncs_allocInv[OF os1 inv])
  have f1: "frameRegs e1 = frameRegs em" using r by simp
  have q1: "quiet em e1" by (rule isFRInRegister_quiet[OF a])
  show ?thesis
  proof (cases "tmp \<noteq> NoReg")
    case True
    with rest have e: "reg = tmp" "em' = e1" by simp_all
    from r e True have loc: "localGpX (frameRegs em' ! i) = reg \<or> localVecD (frameRegs em' ! i) = reg \<or>
          globalReg (frameRegs em' ! i) = reg"
      by (auto simp: registerOf_def f1 split: if_splits)
    from inv1 q1 True i loc show ?thesis
      by (simp add: e f1)
  next
    case False
    with r have none: "localGpX (frameRegs em ! i) = NoReg" "localVecD (frameRegs em ! i) = NoReg"
      "globalReg (frameRegs em ! i) = NoReg"
      by (auto simp: registerOf_def split: if_splits)
    from rest False obtain hw e2 e3 where
      al: "allocTempGpX K None e1 = Some (hw, e2)" and
      as: "assignAllocatedLocalHWReg (FR i) hw e2 = Some e3" and
      ld: "(if load then do {
                       em \<leftarrow> loadFrame hw (FR i) e3;
                       Some (updFR (FR i) (\<lambda>s. s\<lparr>frameUpToDate := True\<rparr>) em) }
                     else Some e3) = Some em'" and
      reg: "reg = hw"
      by (auto elim!: bind_SomeE)
    note fresh = allocTempGpX_fresh[OF al inv1]
    from fresh have inv2: "allocInv K e2" and l2: "length (frameRegs e2) = length (frameRegs em)"
      and q2: "quiet e1 e2" and t: "isTempGpX K hw" and un: "hwRegs e2 hw = NoFR"
      and na: "indexInClass hw \<notin> set (avail (gpTemp e2))"
      and kb: "\<And>j. j < length (frameRegs em) \<Longrightarrow> keepsBacking (frameRegs em ! j) (frameRegs e2 ! j)"
      by (simp_all add: f1)
    from kb[OF i] none have nl: "localGpX (frameRegs e2 ! i) = NoReg"
      by (auto simp: keepsBacking_def)
    note asg = assignGpX_allocInv[OF as inv2 t un na nl]
    from asg have inv3: "allocInv K e3" and l3: "length (frameRegs e3) = length (frameRegs e2)"
      and q3: "emitted e3 = emitted e2"
      and o3: "\<And>k. k \<noteq> i \<Longrightarrow> frameRegs e3 ! k = frameRegs e2 ! k"
      and i3: "frameRegs e3 ! i = (frameRegs e2 ! i)\<lparr>localGpX := hw\<rparr>"
      by simp_all
    from t have hwn: "hw \<noteq> NoReg" by (cases hw) (simp_all add: isTempGpX_def)
    have os4: "onlySyncs e3 em'"
      using ld
      by (auto split: if_splits elim!: bind_SomeE dest!: loadFrame_onlySyncs
          intro: onlySyncs_step)
    have q4: "quiet e3 em'"
      using ld
      by (auto split: if_splits elim!: bind_SomeE dest!: loadFrame_quiet
          intro: quiet_trans[OF _ quiet_updFR])
    have inv4: "allocInv K em'" by (rule onlySyncs_allocInv[OF os4 inv3])
    have l4: "length (frameRegs em') = length (frameRegs em)"
      using onlySyncs_length[OF os4] l3 l2 by simp
    have q: "quiet em em'"
      using q1 q2 quiet_same[OF q3] q4 by (blast intro: quiet_trans)
    have i3': "i < length (frameRegs e3)" using i l2 l3 by simp
    note g4 = onlySyncs_nth[OF os4 i3']
    have others: "keepsBacking (frameRegs em ! k) (frameRegs em' ! k)"
      if k: "k < length (frameRegs em)" and ki: "k \<noteq> i" for k
    proof -
      have "k < length (frameRegs e3)" using k l2 l3 by simp
      from onlySyncs_keepsBacking[OF os4 this] o3[OF ki] kb[OF k]
      show ?thesis by (auto intro: keepsBacking_trans)
    qed
    from g4 i3 hwn have au: "authoritative (frameRegs em' ! i)"
      by (simp add: flagsGrow_def authoritative_def)
    from g4 i3 kb[OF i] have bk: "backed (frameRegs em ! i) \<longrightarrow> backed (frameRegs em' ! i)"
      by (auto simp: flagsGrow_def keepsBacking_def backed_def)
    from g4 i3 have loc: "localGpX (frameRegs em' ! i) = reg"
      by (simp add: flagsGrow_def reg)
    have ty: "localType (frameRegs em' ! i) = localType (frameRegs em ! i)"
    proof -
      from fresh have "localType (frameRegs e2 ! i) = localType (frameRegs em ! i)"
        by (simp add: f1)
      with g4 i3 show ?thesis by (simp add: flagsGrow_def)
    qed
    from inv4 l4 q hwn i others au bk loc ty show ?thesis by (simp add: reg)
  qed
qed

lemma allocInv_emitted [simp]: "allocInv K (em\<lparr>emitted := c\<rparr>) = allocInv K em"
  unfolding allocInv_def wellFormed_def ownership_def tempsInRange_def hwValid_def poolsOk_def
  by simp

lemma movFRFromHW_store:
  assumes m: "movFRFromHW K (FR d) src ty em = Some em'" and inv: "allocInv K em"
    and nl: "localGpX (frameRegs em ! d) = NoReg" "localVecD (frameRegs em ! d) = NoReg"
  shows "allocInv K em' \<and> length (frameRegs em') = length (frameRegs em) \<and> quiet em em' \<and>
         d < length (frameRegs em) \<and>
         (\<forall>k. k \<noteq> d \<longrightarrow> frameRegs em' ! k = frameRegs em ! k) \<and>
         backed (frameRegs em' ! d) \<and>
         localGpX (frameRegs em' ! d) = NoReg \<and> localVecD (frameRegs em' ! d) = NoReg \<and>
         globalReg (frameRegs em' ! d) = globalReg (frameRegs em ! d) \<and>
         localType (frameRegs em' ! d) = (case ty of Some t \<Rightarrow> t | None \<Rightarrow> localType (frameRegs em ! d)) \<and>
         (if globalReg (frameRegs em ! d) \<noteq> NoReg
          then globalRegUpToDate (frameRegs em' ! d) \<and> \<not> frameUpToDate (frameRegs em' ! d) \<and>
               (\<exists>w. movCode (globalReg (frameRegs em ! d)) src = Some w \<and>
                    emitted em' = emitted em @ w)
          else frameUpToDate (frameRegs em' ! d) \<and>
               (\<exists>st. frameCode I_str src (FR d) = Some st \<and> emitted em' = emitted em @ [st]))"
proof (cases "globalReg (frameRegs em ! d) \<noteq> NoReg")
  case True
  from m have d: "d < length (frameRegs em)"
    by (auto simp: movFRFromHW_def bind_eq_Some_conv split: if_splits)
  from m nl True d obtain w where
    w: "movCode (globalReg (frameRegs em ! d)) src = Some w" and
    u: "frUpdatedWithHWReg K (FR d) (globalReg (frameRegs em ! d)) ty
          (em\<lparr>emitted := emitted em @ w\<rparr>) = Some em'"
    by (auto simp: movFRFromHW_def movHWReg_eq bind_eq_Some_conv split: option.splits)
  let ?e1 = "em\<lparr>emitted := emitted em @ w\<rparr>"
  have inv1: "allocInv K ?e1" using inv by simp
  then have wf1: "wellFormed K ?e1" by (simp add: allocInv_def)
  from frUpdatedWithHWReg_commits[OF wf1 _ u] True
  have c: "emitted em' = emitted em @ w \<and>
         length (frameRegs em') = length (frameRegs em) \<and>
         (\<forall>j. j \<noteq> d \<longrightarrow> frameRegs em' ! j = frameRegs em ! j) \<and>
         \<not> frameUpToDate (frameRegs em' ! d) \<and> globalRegUpToDate (frameRegs em' ! d) \<and>
         globalReg (frameRegs em' ! d) = globalReg (frameRegs em ! d) \<and>
         localGpX (frameRegs em' ! d) = NoReg \<and> localVecD (frameRegs em' ! d) = NoReg"
    by auto
  have ty: "localType (frameRegs em' ! d) = (case ty of Some t \<Rightarrow> t | None \<Rightarrow> localType (frameRegs em ! d))"
    using frUpdatedWithHWReg_effect[OF u True[simplified]] nl by (cases ty) simp_all
  have q: "quiet em em'"
    using c movCode_quiet[OF w] by (auto simp: quiet_def)
  from frUpdatedWithHWReg_allocInv[OF u inv1] c ty q d True w show ?thesis
    by (simp add: backed_def)
next
  case False
  from m have d: "d < length (frameRegs em)"
    by (auto simp: movFRFromHW_def bind_eq_Some_conv split: if_splits)
  from m nl False d obtain st where
    st: "frameCode I_str src (FR d) = Some st" and
    e: "em' = updFR (FR d) (\<lambda>s. s\<lparr>frameUpToDate := True\<rparr>)
              (case ty of
                 Some t \<Rightarrow> updFR (FR d) (\<lambda>s. s\<lparr>localType := t\<rparr>)
                   (updFR (FR d) (\<lambda>s. s\<lparr>frameUpToDate := True\<rparr>) (em\<lparr>emitted := emitted em @ [st]\<rparr>))
               | None \<Rightarrow> updFR (FR d) (\<lambda>s. s\<lparr>frameUpToDate := True\<rparr>) (em\<lparr>emitted := emitted em @ [st]\<rparr>))"
    by (cases ty)
       (auto simp: movFRFromHW_def storeHWRegToFrame_eq frUpdateType_def bind_eq_Some_conv
          split: option.splits if_splits)
  have inv': "allocInv K em'"
    unfolding e using inv by (cases ty) (auto intro!: allocInv_updFR)
  have q: "quiet em em'"
    using frameCode_quiet(1)[OF st] by (cases ty) (auto simp: e quiet_def updFR_def)
  from inv' q d False st nl show ?thesis
    by (cases ty) (auto simp: e updFR_def backed_def nth_list_update)
qed

lemma allocInv_useReg [simp]: "allocInv K (useReg K h em) = allocInv K em"
  unfolding allocInv_def wellFormed_def ownership_def tempsInRange_def hwValid_def poolsOk_def
  by simp

lemma getOrAllocFRInGpX_carry:
  assumes g: "getOrAllocFRInGpX K (FR i) False em = Some (reg, em')"
    and inv: "allocInv K em"
  shows "allocInv K em' \<and> length (frameRegs em') = length (frameRegs em) \<and> quiet em em' \<and>
         isGpX reg \<and> i < length (frameRegs em) \<and>
         (\<forall>k < length (frameRegs em). k \<noteq> i \<longrightarrow> keepsBacking (frameRegs em ! k) (frameRegs em' ! k)) \<and>
         (localGpX (frameRegs em' ! i) = reg \<or> globalReg (frameRegs em' ! i) = reg)"
proof -
  from g have i: "i < length (frameRegs em)"
    by (auto simp: getOrAllocFRInGpX_def bind_eq_Some_conv split: if_splits)
  from inv have own: "ownership em" by (simp add: allocInv_def wellFormed_def)
  show ?thesis
  proof (cases "localGpX (frameRegs em ! i) \<noteq> NoReg")
    case True
    with g i have e: "reg = localGpX (frameRegs em ! i)" "em' = useReg K (localGpX (frameRegs em ! i)) em"
      by (auto simp: getOrAllocFRInGpX_def)
    from ownershipD(1)[OF own i True] inv i show ?thesis
      by (simp add: e)
  next
    case nl: False
    show ?thesis
    proof (cases "isGpX (globalReg (frameRegs em ! i))")
      case True
      with g i nl have e: "reg = globalReg (frameRegs em ! i)" "em' = em"
        by (auto simp: getOrAllocFRInGpX_def)
      from True inv i show ?thesis by (simp add: e)
    next
      case False
      with g i nl obtain e2 where
        al: "allocTempGpX K None em = Some (reg, e2)" and
        as: "assignAllocatedLocalHWReg (FR i) reg e2 = Some em'"
        by (auto simp: getOrAllocFRInGpX_def bind_eq_Some_conv split: if_splits)
      note fresh = allocTempGpX_fresh[OF al inv]
      from fresh have inv2: "allocInv K e2" and l2: "length (frameRegs e2) = length (frameRegs em)"
        and q2: "quiet em e2" and t: "isTempGpX K reg" and un: "hwRegs e2 reg = NoFR"
        and na: "indexInClass reg \<notin> set (avail (gpTemp e2))"
        and kb: "\<And>j. j < length (frameRegs em) \<Longrightarrow> keepsBacking (frameRegs em ! j) (frameRegs e2 ! j)"
        by simp_all
      from kb[OF i] nl have nl2: "localGpX (frameRegs e2 ! i) = NoReg"
        by (auto simp: keepsBacking_def)
      note asg = assignGpX_allocInv[OF as inv2 t un na nl2]
      from t have gx: "isGpX reg" by (simp add: isTempGpX_def)
      have q: "quiet em em'" using q2 asg by (auto simp: quiet_def)
      from asg kb l2 gx q i show ?thesis by simp
    qed
  qed
qed

lemma loadBits64InGp_code:
  assumes "loadBits64InGp r bits c em = Some em'"
  shows "emitted em' = emitted em @
           [if isCheapConst bits then I_mov_imm r (uint bits)
            else I_ldr r (MemRO (the (fp64ConstMap em' bits)))] \<and>
         (\<not> isCheapConst bits \<longrightarrow> fp64ConstMap em' bits \<noteq> None)"
  using assms
  by (cases "fp64ConstMap em bits")
     (auto simp: loadBits64InGp_def uint64Const_def a_emit_def Let_def bind_eq_Some_conv
        split: if_splits dest!: reserveData_frame)

lemma loadBits64InGp_allocInv:
  "loadBits64InGp r bits c em = Some em' \<Longrightarrow> allocInv K em \<Longrightarrow> allocInv K em'"
  by (blast intro: onlySyncs_allocInv loadBits64InGp_onlySyncs)

lemma loadConstBits64_carry:
  assumes l: "loadConstBits64 K (FR n) bits ty nm em = Some em'"
    and inv: "allocInv K em"
  shows "allocInv K em' \<and> length (frameRegs em') = length (frameRegs em) \<and> quiet em em' \<and>
         n < length (frameRegs em) \<and>
         (\<forall>k < length (frameRegs em). k \<noteq> n \<longrightarrow> keepsBacking (frameRegs em ! k) (frameRegs em' ! k)) \<and>
         authoritative (frameRegs em' ! n) \<and> \<not> frameUpToDate (frameRegs em' ! n) \<and>
         localType (frameRegs em' ! n) = ty \<and>
         (\<exists>r pre. emitted em' = emitted em @ pre @
              [if isCheapConst bits then I_mov_imm (X r) (uint bits)
               else I_ldr (X r) (MemRO (the (fp64ConstMap em' bits)))] \<and>
            (localGpX (frameRegs em' ! n) = gpX r \<or>
             globalReg (frameRegs em' ! n) = gpX r \<and> globalRegUpToDate (frameRegs em' ! n)))"
proof -
  from l obtain hwRes e1 r e2 where
    g: "getOrAllocFRInGpX K (FR n) False em = Some (hwRes, e1)" and
    r: "a64GpX hwRes = Some r" and
    lb: "loadBits64InGp r bits (Some nm) e1 = Some e2" and
    u: "frUpdatedWithHWReg K (FR n) hwRes (Some ty) e2 = Some em'"
    by (auto simp: loadConstBits64_def elim!: bind_SomeE)
  note c1 = getOrAllocFRInGpX_carry[OF g inv]
  from c1 have inv1: "allocInv K e1" and l1: "length (frameRegs e1) = length (frameRegs em)"
    and q1: "quiet em e1" and n: "n < length (frameRegs em)"
    and kb: "\<And>k. k < length (frameRegs em) \<Longrightarrow> k \<noteq> n \<Longrightarrow>
               keepsBacking (frameRegs em ! k) (frameRegs e1 ! k)"
    and loc: "localGpX (frameRegs e1 ! n) = hwRes \<or> globalReg (frameRegs e1 ! n) = hwRes"
    by simp_all
  from r obtain x where hx: "hwRes = gpX x" "r = X x"
    by (cases hwRes) (auto simp: a64GpX_def)
  note f2 = loadBits64InGp_frame[OF lb]
  note code = loadBits64InGp_code[OF lb]
  have inv2: "allocInv K e2" by (rule loadBits64InGp_allocInv[OF lb inv1])
  then have wf2: "wellFormed K e2" by (simp add: allocInv_def)
  have nz: "hwRes \<noteq> NoReg" by (simp add: hx)
  from frUpdatedWithHWReg_commits[OF wf2 nz u]
  have c: "emitted em' = emitted e2" "length (frameRegs em') = length (frameRegs e2)"
    "\<And>j. j \<noteq> n \<Longrightarrow> frameRegs em' ! j = frameRegs e2 ! j"
    "authoritative (frameRegs em' ! n)" "\<not> frameUpToDate (frameRegs em' ! n)"
    "globalRegUpToDate (frameRegs em' ! n) = (globalReg (frameRegs e2 ! n) = hwRes)"
    "globalReg (frameRegs em' ! n) = globalReg (frameRegs e2 ! n)"
    "localGpX (frameRegs em' ! n) =
       (if globalReg (frameRegs e2 ! n) \<noteq> hwRes \<and> hwRes = localGpX (frameRegs e2 ! n)
        then hwRes else NoReg)"
    by auto
  from inv2 have own2: "ownership e2" by (simp add: allocInv_def wellFormed_def)
  have n2: "n < length (frameRegs e2)" using n l1 f2 by simp
  have ty: "localType (frameRegs em' ! n) = ty"
    using frUpdatedWithHWReg_effect[OF u nz ownershipD[OF own2 n2]] by simp
  have fm: "fp64ConstMap em' = fp64ConstMap e2"
    using u
    by (auto simp: frUpdatedWithHWReg_def frUpdateType_def Let_def freeReg_eq releasePool_def
        updFR_def bind_eq_Some_conv split: if_splits FR.splits)
  from q1 obtain pre where pre: "emitted e1 = emitted em @ pre" by (auto simp: quiet_def)
  have q: "quiet em em'"
    using q1 loadBits64InGp_quiet[OF lb] quiet_same[OF c(1)] by (blast intro: quiet_trans)
  have em: "emitted em' = emitted em @ pre @
              [if isCheapConst bits then I_mov_imm (X x) (uint bits)
               else I_ldr (X x) (MemRO (the (fp64ConstMap em' bits)))]"
    using code c(1) pre by (simp add: hx fm)
  have where': "localGpX (frameRegs em' ! n) = gpX x \<or>
             globalReg (frameRegs em' ! n) = gpX x \<and> globalRegUpToDate (frameRegs em' ! n)"
    using loc c(6,7,8) f2 by (auto simp: hx)
  have others: "keepsBacking (frameRegs em ! k) (frameRegs em' ! k)"
    if "k < length (frameRegs em)" "k \<noteq> n" for k
    using kb[OF that] c(3)[OF that(2)] f2 by simp
  from frUpdatedWithHWReg_allocInv[OF u inv2] c(2,4,5) l1 f2 q n others ty em where'
  show ?thesis by auto
qed


section \<open>The claims\<close>

text \<open>
  C10. \<open>mov\<close> with the destination equal to the source emits no instruction and returns
  the emitter state as it was: no register is allocated or freed, and no up-to-date flag
  or type of any frame register changes.
\<close>

theorem mov_same_register_unchanged: "mov K fr fr logComment em = Some em"
  by (simp add: mov_def)

text \<open>
  C1. A state is well formed when the cross references between frame registers and
  hardware registers agree in both directions and local registers are temporaries; the
  state in which nothing is bound is well formed. A frame register has an authoritative
  location when it is bound to a local register, or its global register is marked up to
  date, or its frame slot is marked up to date. From a well-formed state, each mutation
  of the binding state, whenever it returns, leaves the state well formed and:

  \<^item> \<open>frUpdatedWithHWReg\<close> (given a valid register) changes only the committed frame
    register, marks its frame slot stale, marks its global register up to date exactly
    when that is the register committed, keeps as local register only the committed one,
    and so leaves the committed register as the authoritative location;
  \<^item> \<open>spillTempReg\<close> changes only the owner of the spilled register and raises an
    up-to-date flag only together with the move or store that writes the value there;
    every frame register that had an authoritative location keeps one;
  \<^item> \<open>syncToMem\<close> changes only the up-to-date flags of its frame register, raising them
    together with the instructions that write the value; every frame register that had
    an authoritative location keeps one;
  \<^item> \<open>freeReg\<close> changes no up-to-date flag and emits nothing; it removes the register
    from its owner, so every frame register that has an authoritative location other
    than the freed register keeps one: this covers every register without an owner, the
    call after \<open>spillTempReg\<close> in \<open>syncAndFreeTempReg\<close>, and the calls in
    \<open>frUpdatedWithHWReg\<close>, which free the registers that the commit made stale.
\<close>

theorem binding_mutations_preserve_invariant:
  assumes "wellFormed K em"
  shows
   "(\<forall>fr hwReg ty em'. hwReg \<noteq> NoReg \<and> frUpdatedWithHWReg K fr hwReg ty em = Some em' \<longrightarrow>
       wellFormed K em' \<and> emitted em' = emitted em \<and>
       length (frameRegs em') = length (frameRegs em) \<and>
       (\<exists>i. fr = FR i \<and> i < length (frameRegs em) \<and>
          (\<forall>j. j \<noteq> i \<longrightarrow> frameRegs em' ! j = frameRegs em ! j) \<and>
          authoritative (frameRegs em' ! i) \<and>
          \<not> frameUpToDate (frameRegs em' ! i) \<and>
          globalRegUpToDate (frameRegs em' ! i) = (globalReg (frameRegs em ! i) = hwReg) \<and>
          globalReg (frameRegs em' ! i) = globalReg (frameRegs em ! i) \<and>
          localGpX (frameRegs em' ! i) =
            (if globalReg (frameRegs em ! i) \<noteq> hwReg \<and> hwReg = localGpX (frameRegs em ! i)
             then hwReg else NoReg) \<and>
          localVecD (frameRegs em' ! i) =
            (if globalReg (frameRegs em ! i) \<noteq> hwReg \<and> hwReg \<noteq> localGpX (frameRegs em ! i)
             then hwReg else NoReg))) \<and>
    (\<forall>toSpill em'. spillTempReg K toSpill em = Some em' \<longrightarrow>
       wellFormed K em' \<and> length (frameRegs em') = length (frameRegs em) \<and>
       hwRegs em' = (hwRegs em)(toSpill := NoFR) \<and>
       (\<forall>j < length (frameRegs em).
          authoritative (frameRegs em ! j) \<longrightarrow> authoritative (frameRegs em' ! j)) \<and>
       (\<exists>i. hwRegs em toSpill = FR i \<and> i < length (frameRegs em) \<and>
          (\<forall>j. j \<noteq> i \<longrightarrow> frameRegs em' ! j = frameRegs em ! j) \<and>
          backed (frameRegs em' ! i) \<and>
          (if globalReg (frameRegs em ! i) \<noteq> NoReg
           then globalRegUpToDate (frameRegs em' ! i) \<and>
                frameUpToDate (frameRegs em' ! i) = frameUpToDate (frameRegs em ! i) \<and>
                (if globalRegUpToDate (frameRegs em ! i) then emitted em' = emitted em
                 else \<exists>w. movCode (globalReg (frameRegs em ! i)) toSpill = Some w \<and>
                        emitted em' = emitted em @ w)
           else frameUpToDate (frameRegs em' ! i) \<and>
                globalRegUpToDate (frameRegs em' ! i) = globalRegUpToDate (frameRegs em ! i) \<and>
                (if frameUpToDate (frameRegs em ! i) then emitted em' = emitted em
                 else \<exists>st. frameCode I_str toSpill (FR i) = Some st \<and>
                        emitted em' = emitted em @ [st])))) \<and>
    (\<forall>fr em'. syncToMem K fr em = Some em' \<longrightarrow>
       wellFormed K em' \<and> length (frameRegs em') = length (frameRegs em) \<and>
       hwRegs em' = hwRegs em \<and>
       (\<forall>j < length (frameRegs em).
          authoritative (frameRegs em ! j) \<longrightarrow> authoritative (frameRegs em' ! j)) \<and>
       (\<exists>i. fr = FR i \<and> i < length (frameRegs em) \<and>
          (\<forall>j. j \<noteq> i \<longrightarrow> frameRegs em' ! j = frameRegs em ! j) \<and>
          localGpX (frameRegs em' ! i) = localGpX (frameRegs em ! i) \<and>
          localVecD (frameRegs em' ! i) = localVecD (frameRegs em ! i) \<and>
          globalReg (frameRegs em' ! i) = globalReg (frameRegs em ! i) \<and>
          frameUpToDate (frameRegs em' ! i) \<and>
          (frameUpToDate (frameRegs em ! i) \<longrightarrow> em' = em) \<and>
          (\<not> frameUpToDate (frameRegs em ! i) \<longrightarrow>
             registerOf (frameRegs em ! i) \<noteq> NoReg \<and>
             globalRegUpToDate (frameRegs em' ! i) =
               (globalReg (frameRegs em ! i) \<noteq> NoReg \<or> globalRegUpToDate (frameRegs em ! i)) \<and>
             (\<exists>pre st.
                (if globalReg (frameRegs em ! i) \<noteq> NoReg \<and> \<not> globalRegUpToDate (frameRegs em ! i)
                 then movCode (globalReg (frameRegs em ! i)) (registerOf (frameRegs em ! i)) = Some pre
                 else pre = []) \<and>
                frameCode I_str (registerOf (frameRegs em ! i)) (FR i) = Some st \<and>
                emitted em' = emitted em @ pre @ [st])))) \<and>
    (\<forall>hwReg em'. freeReg K hwReg em = Some em' \<longrightarrow>
       wellFormed K em' \<and> emitted em' = emitted em \<and>
       length (frameRegs em') = length (frameRegs em) \<and>
       (hwReg \<noteq> NoReg \<longrightarrow> hwRegs em' = (hwRegs em)(hwReg := NoFR)) \<and>
       (\<forall>j < length (frameRegs em).
          frameUpToDate (frameRegs em' ! j) = frameUpToDate (frameRegs em ! j) \<and>
          globalRegUpToDate (frameRegs em' ! j) = globalRegUpToDate (frameRegs em ! j) \<and>
          globalReg (frameRegs em' ! j) = globalReg (frameRegs em ! j) \<and>
          (hwRegs em hwReg \<noteq> FR j \<longrightarrow> frameRegs em' ! j = frameRegs em ! j) \<and>
          (hwReg \<noteq> NoReg \<longrightarrow> localGpX (frameRegs em' ! j) \<noteq> hwReg \<and>
                              localVecD (frameRegs em' ! j) \<noteq> hwReg) \<and>
          (authoritative (frameRegs em ! j) \<and>
           (hwRegs em hwReg \<noteq> FR j \<or> backed (frameRegs em ! j) \<or>
            (localGpX (frameRegs em ! j) \<noteq> NoReg \<and> localVecD (frameRegs em ! j) \<noteq> NoReg)) \<longrightarrow>
           authoritative (frameRegs em' ! j)))) \<and>
    (\<forall>hwReg em'. syncAndFreeTempReg K hwReg em = Some em' \<longrightarrow>
       wellFormed K em' \<and> length (frameRegs em') = length (frameRegs em) \<and>
       (\<forall>j < length (frameRegs em).
          authoritative (frameRegs em ! j) \<longrightarrow> authoritative (frameRegs em' ! j)))"
proof -
  have p1: "(\<forall>fr hwReg ty em'. hwReg \<noteq> NoReg \<and> frUpdatedWithHWReg K fr hwReg ty em = Some em' \<longrightarrow>
       wellFormed K em' \<and> emitted em' = emitted em \<and>
       length (frameRegs em') = length (frameRegs em) \<and>
       (\<exists>i. fr = FR i \<and> i < length (frameRegs em) \<and>
          (\<forall>j. j \<noteq> i \<longrightarrow> frameRegs em' ! j = frameRegs em ! j) \<and>
          authoritative (frameRegs em' ! i) \<and>
          \<not> frameUpToDate (frameRegs em' ! i) \<and>
          globalRegUpToDate (frameRegs em' ! i) = (globalReg (frameRegs em ! i) = hwReg) \<and>
          globalReg (frameRegs em' ! i) = globalReg (frameRegs em ! i) \<and>
          localGpX (frameRegs em' ! i) =
            (if globalReg (frameRegs em ! i) \<noteq> hwReg \<and> hwReg = localGpX (frameRegs em ! i)
             then hwReg else NoReg) \<and>
          localVecD (frameRegs em' ! i) =
            (if globalReg (frameRegs em ! i) \<noteq> hwReg \<and> hwReg \<noteq> localGpX (frameRegs em ! i)
             then hwReg else NoReg)))"
    by (intro allI impI, elim conjE, rule frUpdatedWithHWReg_commits[OF assms])
  have p2: "(\<forall>toSpill em'. spillTempReg K toSpill em = Some em' \<longrightarrow>
       wellFormed K em' \<and> length (frameRegs em') = length (frameRegs em) \<and>
       hwRegs em' = (hwRegs em)(toSpill := NoFR) \<and>
       (\<forall>j < length (frameRegs em).
          authoritative (frameRegs em ! j) \<longrightarrow> authoritative (frameRegs em' ! j)) \<and>
       (\<exists>i. hwRegs em toSpill = FR i \<and> i < length (frameRegs em) \<and>
          (\<forall>j. j \<noteq> i \<longrightarrow> frameRegs em' ! j = frameRegs em ! j) \<and>
          backed (frameRegs em' ! i) \<and>
          (if globalReg (frameRegs em ! i) \<noteq> NoReg
           then globalRegUpToDate (frameRegs em' ! i) \<and>
                frameUpToDate (frameRegs em' ! i) = frameUpToDate (frameRegs em ! i) \<and>
                (if globalRegUpToDate (frameRegs em ! i) then emitted em' = emitted em
                 else \<exists>w. movCode (globalReg (frameRegs em ! i)) toSpill = Some w \<and>
                        emitted em' = emitted em @ w)
           else frameUpToDate (frameRegs em' ! i) \<and>
                globalRegUpToDate (frameRegs em' ! i) = globalRegUpToDate (frameRegs em ! i) \<and>
                (if frameUpToDate (frameRegs em ! i) then emitted em' = emitted em
                 else \<exists>st. frameCode I_str toSpill (FR i) = Some st \<and>
                        emitted em' = emitted em @ [st]))))"
    by (intro allI impI, rule spillTempReg_writes_back[OF assms])
  have p3: "(\<forall>fr em'. syncToMem K fr em = Some em' \<longrightarrow>
       wellFormed K em' \<and> length (frameRegs em') = length (frameRegs em) \<and>
       hwRegs em' = hwRegs em \<and>
       (\<forall>j < length (frameRegs em).
          authoritative (frameRegs em ! j) \<longrightarrow> authoritative (frameRegs em' ! j)) \<and>
       (\<exists>i. fr = FR i \<and> i < length (frameRegs em) \<and>
          (\<forall>j. j \<noteq> i \<longrightarrow> frameRegs em' ! j = frameRegs em ! j) \<and>
          localGpX (frameRegs em' ! i) = localGpX (frameRegs em ! i) \<and>
          localVecD (frameRegs em' ! i) = localVecD (frameRegs em ! i) \<and>
          globalReg (frameRegs em' ! i) = globalReg (frameRegs em ! i) \<and>
          frameUpToDate (frameRegs em' ! i) \<and>
          (frameUpToDate (frameRegs em ! i) \<longrightarrow> em' = em) \<and>
          (\<not> frameUpToDate (frameRegs em ! i) \<longrightarrow>
             registerOf (frameRegs em ! i) \<noteq> NoReg \<and>
             globalRegUpToDate (frameRegs em' ! i) =
               (globalReg (frameRegs em ! i) \<noteq> NoReg \<or> globalRegUpToDate (frameRegs em ! i)) \<and>
             (\<exists>pre st.
                (if globalReg (frameRegs em ! i) \<noteq> NoReg \<and> \<not> globalRegUpToDate (frameRegs em ! i)
                 then movCode (globalReg (frameRegs em ! i)) (registerOf (frameRegs em ! i)) = Some pre
                 else pre = []) \<and>
                frameCode I_str (registerOf (frameRegs em ! i)) (FR i) = Some st \<and>
                emitted em' = emitted em @ pre @ [st]))))"
    by (intro allI impI, rule syncToMem_syncs[OF assms])
  have p4: "(\<forall>hwReg em'. freeReg K hwReg em = Some em' \<longrightarrow>
       wellFormed K em' \<and> emitted em' = emitted em \<and>
       length (frameRegs em') = length (frameRegs em) \<and>
       (hwReg \<noteq> NoReg \<longrightarrow> hwRegs em' = (hwRegs em)(hwReg := NoFR)) \<and>
       (\<forall>j < length (frameRegs em).
          frameUpToDate (frameRegs em' ! j) = frameUpToDate (frameRegs em ! j) \<and>
          globalRegUpToDate (frameRegs em' ! j) = globalRegUpToDate (frameRegs em ! j) \<and>
          globalReg (frameRegs em' ! j) = globalReg (frameRegs em ! j) \<and>
          (hwRegs em hwReg \<noteq> FR j \<longrightarrow> frameRegs em' ! j = frameRegs em ! j) \<and>
          (hwReg \<noteq> NoReg \<longrightarrow> localGpX (frameRegs em' ! j) \<noteq> hwReg \<and>
                              localVecD (frameRegs em' ! j) \<noteq> hwReg) \<and>
          (authoritative (frameRegs em ! j) \<and>
           (hwRegs em hwReg \<noteq> FR j \<or> backed (frameRegs em ! j) \<or>
            (localGpX (frameRegs em ! j) \<noteq> NoReg \<and> localVecD (frameRegs em ! j) \<noteq> NoReg)) \<longrightarrow>
           authoritative (frameRegs em' ! j))))"
    by (intro allI impI, rule freeReg_unbinds[OF assms])
  have p5: "(\<forall>hwReg em'. syncAndFreeTempReg K hwReg em = Some em' \<longrightarrow>
       wellFormed K em' \<and> length (frameRegs em') = length (frameRegs em) \<and>
       (\<forall>j < length (frameRegs em).
          authoritative (frameRegs em ! j) \<longrightarrow> authoritative (frameRegs em' ! j)))"
    by (intro allI impI, rule syncAndFreeTempReg_keeps[OF assms])
  show ?thesis
    apply (rule conjI[OF p1])
    apply (rule conjI[OF p2])
    apply (rule conjI[OF p3])
    apply (rule conjI[OF p4])
    apply (rule p5)
    done
qed

theorem binding_mutations_preserve_invariant_witness:
  "wellFormed K2 (emptyEmitter [fr0, fr0]) \<and> wellFormed K2 emLocal \<and>
   (\<exists>em'. frUpdatedWithHWReg K2 (FR 0) (gpX 0) None emLocal = Some em' \<and> wellFormed K2 em' \<and>
      authoritative (frameRegs em' ! 0) \<and> localGpX (frameRegs em' ! 0) = gpX 0 \<and>
      frameRegs em' ! 1 = frameRegs emLocal ! 1) \<and>
   (\<exists>em'. spillTempReg K2 (gpX 0) emLocal = Some em' \<and> wellFormed K2 em' \<and>
      backed (frameRegs em' ! 0) \<and> authoritative (frameRegs em' ! 1) \<and>
      emitted em' = emitted emLocal @ [I_str (X 0) (Mem XFrame 0)]) \<and>
   (\<exists>em'. syncToMem K2 (FR 0) emLocal = Some em' \<and> wellFormed K2 em' \<and>
      frameUpToDate (frameRegs em' ! 0) \<and> localGpX (frameRegs em' ! 0) = gpX 0 \<and>
      authoritative (frameRegs em' ! 1)) \<and>
   (\<exists>em'. freeReg K2 (gpX 1) emLocal = Some em' \<and> wellFormed K2 em' \<and>
      authoritative (frameRegs em' ! 0) \<and> authoritative (frameRegs em' ! 1)) \<and>
   (\<exists>em'. syncAndFreeTempReg K2 (gpX 0) emLocal = Some em' \<and> wellFormed K2 em' \<and>
      authoritative (frameRegs em' ! 0) \<and> authoritative (frameRegs em' ! 1))"
proof -
  have wf0: "wellFormed K2 (emptyEmitter [fr0, fr0])"
    by (auto simp: sample_defs wellFormed_def ownership_def tempsInRange_def hwValid_def
        All_less_Suc numeral_2_eq_2)
  have wf: "wellFormed K2 emLocal"
    by (auto simp: sample_defs wellFormed_def ownership_def tempsInRange_def hwValid_def
        isTempGpX_def All_less_Suc numeral_2_eq_2 split: if_splits)
  have facts: "length (frameRegs emLocal) = 2"
    "authoritative (frameRegs emLocal ! 0)" "authoritative (frameRegs emLocal ! 1)"
    "hwRegs emLocal (gpX 0) = FR 0" "hwRegs emLocal (gpX 1) = NoFR"
    "globalReg (frameRegs emLocal ! 0) = NoReg" "\<not> frameUpToDate (frameRegs emLocal ! 0)"
    "localGpX (frameRegs emLocal ! 0) = gpX 0"
    "frameCode I_str (gpX 0) (FR 0) = Some (I_str (X 0) (Mem XFrame 0))"
    by (simp_all add: sample_defs authoritative_def frameCode_def)
  have 1: "\<exists>em'. frUpdatedWithHWReg K2 (FR 0) (gpX 0) None emLocal = Some em'"
    by (simp add: sample_defs frUpdatedWithHWReg_def freeReg_eq)
  have 2: "\<exists>em'. spillTempReg K2 (gpX 0) emLocal = Some em'"
    by (simp add: sample_defs spillTempReg_def isTemp_def isTempGpX_def storeHWRegToFrame_eq
        frameCode_def)
  have 3: "\<exists>em'. syncToMem K2 (FR 0) emLocal = Some em'"
    by (simp add: sample_defs syncToMem_def isFRInRegister_def storeHWRegToFrame_eq frameCode_def)
  have 4: "\<exists>em'. freeReg K2 (gpX 1) emLocal = Some em'"
    by (simp add: sample_defs freeReg_eq)
  have 5: "\<exists>em'. syncAndFreeTempReg K2 (gpX 0) emLocal = Some em'"
    by (simp add: sample_defs syncAndFreeTempReg_def spillTempReg_def isTemp_def isTempGpX_def
        storeHWRegToFrame_eq frameCode_def freeReg_eq)
  from 1 obtain e1 where e1: "frUpdatedWithHWReg K2 (FR 0) (gpX 0) None emLocal = Some e1" by blast
  from 2 obtain e2 where e2: "spillTempReg K2 (gpX 0) emLocal = Some e2" by blast
  from 3 obtain e3 where e3: "syncToMem K2 (FR 0) emLocal = Some e3" by blast
  from 4 obtain e4 where e4: "freeReg K2 (gpX 1) emLocal = Some e4" by blast
  from 5 obtain e5 where e5: "syncAndFreeTempReg K2 (gpX 0) emLocal = Some e5" by blast
  note t = binding_mutations_preserve_invariant[OF wf]
  from t[THEN conjunct1, rule_format, of "gpX 0" "FR 0" None e1] e1 facts
  have r1: "wellFormed K2 e1 \<and> authoritative (frameRegs e1 ! 0) \<and>
            localGpX (frameRegs e1 ! 0) = gpX 0 \<and> frameRegs e1 ! 1 = frameRegs emLocal ! 1"
    by auto
  from t[THEN conjunct2, THEN conjunct1, rule_format, OF e2] facts
  have r2: "wellFormed K2 e2 \<and> backed (frameRegs e2 ! 0) \<and> authoritative (frameRegs e2 ! 1) \<and>
            emitted e2 = emitted emLocal @ [I_str (X 0) (Mem XFrame 0)]"
    by auto
  from t[THEN conjunct2, THEN conjunct2, THEN conjunct1, rule_format, OF e3] facts
  have r3: "wellFormed K2 e3 \<and> frameUpToDate (frameRegs e3 ! 0) \<and>
            localGpX (frameRegs e3 ! 0) = gpX 0 \<and> authoritative (frameRegs e3 ! 1)"
    by auto
  from t[THEN conjunct2, THEN conjunct2, THEN conjunct2, THEN conjunct1, rule_format, OF e4] facts
  have r4: "wellFormed K2 e4 \<and> authoritative (frameRegs e4 ! 0) \<and> authoritative (frameRegs e4 ! 1)"
    by auto
  from t[THEN conjunct2, THEN conjunct2, THEN conjunct2, THEN conjunct2, rule_format, OF e5] facts
  have r5: "wellFormed K2 e5 \<and> authoritative (frameRegs e5 ! 0) \<and> authoritative (frameRegs e5 ! 1)"
    by auto
  from wf0 wf e1 e2 e3 e4 e5 r1 r2 r3 r4 r5 show ?thesis by blast
qed

text \<open>
  C3 (as amended). If the frame slot of \<open>fr\<close> is marked up to date, \<open>syncToMem\<close> emits
  nothing and returns the state unchanged. Otherwise, when it returns, it has emitted a
  store to the frame slot of \<open>fr\<close> whose source is the register \<open>isFRInRegister\<close> reports:
  the local integer register if bound, else the local vector register if bound, else the
  global register; a stale global register is first refreshed by a move from that source;
  the frame slot (and the global register, if any) is then marked up to date.
\<close>

theorem syncToMem_stores_from_local_first:
  assumes "getFRState fr em = Some s"
  shows "(frameUpToDate s \<longrightarrow> syncToMem K fr em = Some em) \<and>
         (\<not> frameUpToDate s \<longrightarrow>
            (\<forall>em'. syncToMem K fr em = Some em' \<longrightarrow>
               (\<exists>pre st.
                  (if globalReg s \<noteq> NoReg \<and> \<not> globalRegUpToDate s
                   then movCode (globalReg s) (registerOf s) = Some pre else pre = []) \<and>
                  frameCode I_str (registerOf s) fr = Some st \<and>
                  emitted em' = emitted em @ pre @ [st]) \<and>
               (\<exists>s'. getFRState fr em' = Some s' \<and> frameUpToDate s' \<and>
                  (globalReg s \<noteq> NoReg \<longrightarrow> globalRegUpToDate s'))))"
  using assms
  by (cases fr)
     (auto simp: syncToMem_def isFRInRegister_def movHWReg_eq storeHWRegToFrame_eq registerOf_def
        bind_eq_Some_conv split: if_splits option.splits)

text \<open>
  The claim as stated fails: with a local register bound, the store reads the local
  register \<open>x0\<close> although the pinned register \<open>x22\<close> is up to date.
\<close>

theorem syncToMem_store_source_is_local:
  "\<exists>em'. syncToMem K2 (FR 0) emPinned = Some em' \<and>
         globalReg (frameRegs emPinned ! 0) = gpX 22 \<and>
         globalRegUpToDate (frameRegs emPinned ! 0) \<and>
         emitted emPinned = [] \<and> emitted em' = [I_str (X 0) (Mem XFrame 0)]"
  by (simp add: sample_defs syncToMem_def isFRInRegister_def movHWReg_eq storeHWRegToFrame_eq
      frameCode_def)

theorem syncToMem_stores_from_local_first_witness:
  "getFRState (FR 1) emLocal = Some (frameRegs emLocal ! 1) \<and>
   frameUpToDate (frameRegs emLocal ! 1) \<and>
   syncToMem K2 (FR 1) emLocal = Some emLocal \<and>
   getFRState (FR 0) emPinned = Some (frameRegs emPinned ! 0) \<and>
   \<not> frameUpToDate (frameRegs emPinned ! 0) \<and>
   (\<exists>em'. syncToMem K2 (FR 0) emPinned = Some em' \<and>
      emitted em' = emitted emPinned @ [I_str (X 0) (Mem XFrame 0)] \<and>
      (\<exists>s'. getFRState (FR 0) em' = Some s' \<and> frameUpToDate s' \<and> globalRegUpToDate s'))"
proof -
  have a: "getFRState (FR 1) emLocal = Some (frameRegs emLocal ! 1)"
          "frameUpToDate (frameRegs emLocal ! 1)"
    by (simp_all add: sample_defs)
  have b: "getFRState (FR 0) emPinned = Some (frameRegs emPinned ! 0)"
          "\<not> frameUpToDate (frameRegs emPinned ! 0)"
          "globalReg (frameRegs emPinned ! 0) \<noteq> NoReg"
          "globalRegUpToDate (frameRegs emPinned ! 0)"
          "frameCode I_str (registerOf (frameRegs emPinned ! 0)) (FR 0)
             = Some (I_str (X 0) (Mem XFrame 0))"
    by (simp_all add: sample_defs registerOf_def frameCode_def)
  have c: "\<exists>em'. syncToMem K2 (FR 0) emPinned = Some em'"
    by (simp add: sample_defs syncToMem_def isFRInRegister_def storeHWRegToFrame_eq frameCode_def)
  from syncToMem_stores_from_local_first[OF a(1), of K2] a(2)
  have 1: "syncToMem K2 (FR 1) emLocal = Some emLocal" by simp
  from c obtain em' where em': "syncToMem K2 (FR 0) emPinned = Some em'" by blast
  from syncToMem_stores_from_local_first[OF b(1), of K2] b em'
  have 2: "emitted em' = emitted emPinned @ [I_str (X 0) (Mem XFrame 0)] \<and>
           (\<exists>s'. getFRState (FR 0) em' = Some s' \<and> frameUpToDate s' \<and> globalRegUpToDate s')"
    by auto
  from a b 1 em' 2 show ?thesis by blast
qed

text \<open>
  C2. When the pool of a register class has no available index and \<open>allocTemp\<close> returns,
  exactly one register was evicted: the least recently used one of the pool when no
  register is preferred, the preferred one otherwise, whatever its recency. That register
  is a temporary and is the one handed out; it had an owner, it lost it, no other register
  lost its owner and no other frame register changed. The owner's binding to that register
  is released and nothing else of the owner changes but the flag of the location written:
  the value was moved to the owner's global register if there is one and it was stale,
  else stored to its frame slot if that was stale, and that location is marked up to date,
  so that the owner is backed. In the pool the register handed out becomes the most
  recently used; the other pool is unchanged. The allocation does return when the victim
  is a temporary whose owner refers back to it and is not pinned to it.
\<close>

theorem allocTemp_exhausted_evicts_one:
  assumes ex: "avail (pool t em) = []"
  shows "(\<forall>hw em'. allocTemp K t preferred em = Some (hw, em') \<longrightarrow>
           (\<exists>victim i.
              (case preferred of Some p \<Rightarrow> victim = indexInClass p
               | None \<Rightarrow> leastRecentlyUsed (pool t em) = Some victim) \<and>
              hw = HWReg_of victim t \<and> isTemp K hw \<and>
              hwRegs em hw = FR i \<and> i < length (frameRegs em) \<and>
              hwRegs em' = (hwRegs em)(hw := NoFR) \<and>
              length (frameRegs em') = length (frameRegs em) \<and>
              (\<forall>j. j \<noteq> i \<longrightarrow> frameRegs em' ! j = frameRegs em ! j) \<and>
              (if localGpX (frameRegs em ! i) = hw
               then localGpX (frameRegs em' ! i) = NoReg \<and>
                    localVecD (frameRegs em' ! i) = localVecD (frameRegs em ! i)
               else localVecD (frameRegs em ! i) = hw \<and> localVecD (frameRegs em' ! i) = NoReg \<and>
                    localGpX (frameRegs em' ! i) = localGpX (frameRegs em ! i)) \<and>
              globalReg (frameRegs em' ! i) = globalReg (frameRegs em ! i) \<and>
              localType (frameRegs em' ! i) = localType (frameRegs em ! i) \<and>
              globalType (frameRegs em' ! i) = globalType (frameRegs em ! i) \<and>
              backed (frameRegs em' ! i) \<and>
              (if globalReg (frameRegs em ! i) \<noteq> NoReg
               then globalRegUpToDate (frameRegs em' ! i) \<and>
                    frameUpToDate (frameRegs em' ! i) = frameUpToDate (frameRegs em ! i) \<and>
                    (if globalRegUpToDate (frameRegs em ! i) then emitted em' = emitted em
                     else \<exists>w. movCode (globalReg (frameRegs em ! i)) hw = Some w \<and>
                            emitted em' = emitted em @ w)
               else frameUpToDate (frameRegs em' ! i) \<and>
                    globalRegUpToDate (frameRegs em' ! i) = globalRegUpToDate (frameRegs em ! i) \<and>
                    (if frameUpToDate (frameRegs em ! i) then emitted em' = emitted em
                     else \<exists>st. frameCode I_str hw (FR i) = Some st \<and>
                            emitted em' = emitted em @ [st])) \<and>
              pool t em' = (pool t em)\<lparr>avail := [], lru := removeAll victim (lru (pool t em)) @ [victim]\<rparr> \<and>
              (\<forall>t'. t' \<noteq> t \<longrightarrow> pool t' em' = pool t' em))) \<and>
         (\<forall>victim i.
            (case preferred of Some p \<Rightarrow> victim = indexInClass p
             | None \<Rightarrow> leastRecentlyUsed (pool t em) = Some victim) \<and>
            isTemp K (HWReg_of victim t) \<and> hwRegs em (HWReg_of victim t) = FR i \<and> hwValid em \<and>
            globalReg (frameRegs em ! i) \<noteq> HWReg_of victim t \<longrightarrow>
            (\<exists>em'. allocTemp K t preferred em = Some (HWReg_of victim t, em')))"
proof (rule conjI; (intro allI impI))
  fix hw em' assume al: "allocTemp K t preferred em = Some (hw, em')"
  from allocTemp_exhausted[OF ex al] obtain victim em1 where
    v: "case preferred of Some p \<Rightarrow> victim = indexInClass p
        | None \<Rightarrow> leastRecentlyUsed (pool t em) = Some victim"
    and hw: "hw = HWReg_of victim t"
    and sp: "spillTempReg K hw em = Some em1"
    and em': "em' = setPool t ((pool t em)\<lparr>avail := [], lru := removeAll victim (lru (pool t em)) @ [victim]\<rparr>) em1"
    by blast
  note eff = spillTempReg_effect[OF sp]
  from eff obtain i where owner: "hwRegs em hw = FR i"
    by (cases "hwRegs em hw") auto
  note emi = spillTempReg_emitted[OF sp owner]
  have other: "\<forall>t'. t' \<noteq> t \<longrightarrow> pool t' em' = pool t' em"
    using spillTempReg_pool[OF sp] by (simp add: em' pool_other)
  have pl: "pool t em' = (pool t em)\<lparr>avail := [], lru := removeAll victim (lru (pool t em)) @ [victim]\<rparr>"
    by (simp add: em')
  from eff owner have bk: "backed (frameRegs em' ! i)"
    by (auto simp: em' backed_def split: if_splits)
  from eff owner emi have
    "isTemp K hw \<and> i < length (frameRegs em) \<and>
     hwRegs em' = (hwRegs em)(hw := NoFR) \<and>
     length (frameRegs em') = length (frameRegs em) \<and>
     (\<forall>j. j \<noteq> i \<longrightarrow> frameRegs em' ! j = frameRegs em ! j) \<and>
     (if localGpX (frameRegs em ! i) = hw
      then localGpX (frameRegs em' ! i) = NoReg \<and>
           localVecD (frameRegs em' ! i) = localVecD (frameRegs em ! i)
      else localVecD (frameRegs em ! i) = hw \<and> localVecD (frameRegs em' ! i) = NoReg \<and>
           localGpX (frameRegs em' ! i) = localGpX (frameRegs em ! i)) \<and>
     globalReg (frameRegs em' ! i) = globalReg (frameRegs em ! i) \<and>
     localType (frameRegs em' ! i) = localType (frameRegs em ! i) \<and>
     globalType (frameRegs em' ! i) = globalType (frameRegs em ! i) \<and>
     (if globalReg (frameRegs em ! i) \<noteq> NoReg
      then globalRegUpToDate (frameRegs em' ! i) \<and>
           frameUpToDate (frameRegs em' ! i) = frameUpToDate (frameRegs em ! i) \<and>
           (if globalRegUpToDate (frameRegs em ! i) then emitted em' = emitted em
            else \<exists>w. movCode (globalReg (frameRegs em ! i)) hw = Some w \<and>
                   emitted em' = emitted em @ w)
      else frameUpToDate (frameRegs em' ! i) \<and>
           globalRegUpToDate (frameRegs em' ! i) = globalRegUpToDate (frameRegs em ! i) \<and>
           (if frameUpToDate (frameRegs em ! i) then emitted em' = emitted em
            else \<exists>st. frameCode I_str hw (FR i) = Some st \<and>
                   emitted em' = emitted em @ [st]))"
    by (simp add: em' split: if_splits)
  with v hw owner bk pl other
  show "\<exists>victim i.
              (case preferred of Some p \<Rightarrow> victim = indexInClass p
               | None \<Rightarrow> leastRecentlyUsed (pool t em) = Some victim) \<and>
              hw = HWReg_of victim t \<and> isTemp K hw \<and>
              hwRegs em hw = FR i \<and> i < length (frameRegs em) \<and>
              hwRegs em' = (hwRegs em)(hw := NoFR) \<and>
              length (frameRegs em') = length (frameRegs em) \<and>
              (\<forall>j. j \<noteq> i \<longrightarrow> frameRegs em' ! j = frameRegs em ! j) \<and>
              (if localGpX (frameRegs em ! i) = hw
               then localGpX (frameRegs em' ! i) = NoReg \<and>
                    localVecD (frameRegs em' ! i) = localVecD (frameRegs em ! i)
               else localVecD (frameRegs em ! i) = hw \<and> localVecD (frameRegs em' ! i) = NoReg \<and>
                    localGpX (frameRegs em' ! i) = localGpX (frameRegs em ! i)) \<and>
              globalReg (frameRegs em' ! i) = globalReg (frameRegs em ! i) \<and>
              localType (frameRegs em' ! i) = localType (frameRegs em ! i) \<and>
              globalType (frameRegs em' ! i) = globalType (frameRegs em ! i) \<and>
              backed (frameRegs em' ! i) \<and>
              (if globalReg (frameRegs em ! i) \<noteq> NoReg
               then globalRegUpToDate (frameRegs em' ! i) \<and>
                    frameUpToDate (frameRegs em' ! i) = frameUpToDate (frameRegs em ! i) \<and>
                    (if globalRegUpToDate (frameRegs em ! i) then emitted em' = emitted em
                     else \<exists>w. movCode (globalReg (frameRegs em ! i)) hw = Some w \<and>
                            emitted em' = emitted em @ w)
               else frameUpToDate (frameRegs em' ! i) \<and>
                    globalRegUpToDate (frameRegs em' ! i) = globalRegUpToDate (frameRegs em ! i) \<and>
                    (if frameUpToDate (frameRegs em ! i) then emitted em' = emitted em
                     else \<exists>st. frameCode I_str hw (FR i) = Some st \<and>
                            emitted em' = emitted em @ [st])) \<and>
              pool t em' = (pool t em)\<lparr>avail := [], lru := removeAll victim (lru (pool t em)) @ [victim]\<rparr> \<and>
              (\<forall>t'. t' \<noteq> t \<longrightarrow> pool t' em' = pool t' em)"
    by blast
next
  fix victim i
  assume a: "(case preferred of Some p \<Rightarrow> victim = indexInClass p
             | None \<Rightarrow> leastRecentlyUsed (pool t em) = Some victim) \<and>
            isTemp K (HWReg_of victim t) \<and> hwRegs em (HWReg_of victim t) = FR i \<and> hwValid em \<and>
            globalReg (frameRegs em ! i) \<noteq> HWReg_of victim t"
  then obtain em1 where sp: "spillTempReg K (HWReg_of victim t) em = Some em1"
    using spillTempReg_succeeds by blast
  from spillTempReg_pool[OF sp] have p: "pool t em1 = pool t em" .
  from a have idx: "(case map_option indexInClass preferred of Some p \<Rightarrow> Some p
           | None \<Rightarrow> leastRecentlyUsed (pool t em)) = Some victim"
    by (cases preferred) auto
  show "\<exists>em'. allocTemp K t preferred em = Some (HWReg_of victim t, em')"
    using idx sp
    by (simp add: allocTemp_def ra_alloc_exhausted[OF ex] Let_def p ra_alloc_after_free[OF ex])
qed

theorem allocTemp_exhausted_evicts_one_witness:
  "avail (pool GpX emFull) = [] \<and>
   leastRecentlyUsed (pool GpX emFull) = Some 1 \<and>
   (\<exists>em'. allocTemp K2 GpX None emFull = Some (gpX 1, em') \<and>
      hwRegs em' = (hwRegs emFull)(gpX 1 := NoFR) \<and>
      localGpX (frameRegs em' ! 1) = NoReg \<and> frameUpToDate (frameRegs em' ! 1) \<and>
      frameRegs em' ! 0 = frameRegs emFull ! 0 \<and>
      emitted em' = emitted emFull @ [I_str (X 1) (Mem XFrame 8)] \<and>
      pool GpX em' = \<lparr>avail = [], lru = [0, 1]\<rparr>) \<and>
   (\<exists>em'. allocTemp K2 GpX (Some (gpX 0)) emFull = Some (gpX 0, em') \<and>
      hwRegs em' = (hwRegs emFull)(gpX 0 := NoFR) \<and>
      localGpX (frameRegs em' ! 0) = NoReg \<and> frameUpToDate (frameRegs em' ! 0) \<and>
      frameRegs em' ! 1 = frameRegs emFull ! 1 \<and>
      emitted em' = emitted emFull @ [I_str (X 0) (Mem XFrame 0)] \<and>
      pool GpX em' = \<lparr>avail = [], lru = [1, 0]\<rparr>) \<and>
   avail (pool GpX emFullPinned) = [] \<and>
   leastRecentlyUsed (pool GpX emFullPinned) = Some 1 \<and>
   globalReg (frameRegs emFullPinned ! 1) = gpX 22 \<and>
   \<not> globalRegUpToDate (frameRegs emFullPinned ! 1) \<and>
   (\<exists>em'. allocTemp K2 GpX None emFullPinned = Some (gpX 1, em') \<and>
      hwRegs em' = (hwRegs emFullPinned)(gpX 1 := NoFR) \<and>
      localGpX (frameRegs em' ! 1) = NoReg \<and> globalRegUpToDate (frameRegs em' ! 1) \<and>
      \<not> frameUpToDate (frameRegs em' ! 1) \<and>
      emitted em' = emitted emFullPinned @ [I_mov (X 22) (X 1)])"
proof -
  have ex: "avail (pool GpX emFull) = []" and l: "leastRecentlyUsed (pool GpX emFull) = Some 1"
    and exP: "avail (pool GpX emFullPinned) = []"
    and lP: "leastRecentlyUsed (pool GpX emFullPinned) = Some 1"
    by (simp_all add: sample_defs emFullPinned_def pool_def leastRecentlyUsed_def)
  have facts:
    "hwRegs emFull (gpX 1) = FR 1" "hwRegs emFull (gpX 0) = FR 0"
    "globalReg (frameRegs emFull ! 1) = NoReg" "globalReg (frameRegs emFull ! 0) = NoReg"
    "\<not> frameUpToDate (frameRegs emFull ! 1)" "\<not> frameUpToDate (frameRegs emFull ! 0)"
    "localGpX (frameRegs emFull ! 1) = gpX 1" "localGpX (frameRegs emFull ! 0) = gpX 0"
    "frameCode I_str (gpX 1) (FR 1) = Some (I_str (X 1) (Mem XFrame 8))"
    "frameCode I_str (gpX 0) (FR 0) = Some (I_str (X 0) (Mem XFrame 0))"
    "pool GpX emFull = \<lparr>avail = [], lru = [1, 0]\<rparr>"
    "isTemp K2 (gpX 0)" "isTemp K2 (gpX 1)" "hwValid emFull"
    by (simp_all add: sample_defs frameCode_def pool_def isTemp_def isTempGpX_def hwValid_def)
  have factsP:
    "hwRegs emFullPinned (gpX 1) = FR 1"
    "globalReg (frameRegs emFullPinned ! 1) = gpX 22"
    "\<not> globalRegUpToDate (frameRegs emFullPinned ! 1)"
    "\<not> frameUpToDate (frameRegs emFullPinned ! 1)"
    "localGpX (frameRegs emFullPinned ! 1) = gpX 1"
    "movCode (gpX 22) (gpX 1) = Some [I_mov (X 22) (X 1)]"
    "hwValid emFullPinned"
    by (simp_all add: sample_defs emFullPinned_def movCode_def hwValid_def)
  note t1 = allocTemp_exhausted_evicts_one[OF ex, of K2 None]
  note t2 = allocTemp_exhausted_evicts_one[OF ex, of K2 "Some (gpX 0)"]
  note t3 = allocTemp_exhausted_evicts_one[OF exP, of K2 None]
  from t1[THEN conjunct2, rule_format, of 1 1] l facts
  obtain em1 where a1: "allocTemp K2 GpX None emFull = Some (gpX 1, em1)" by auto
  from t2[THEN conjunct2, rule_format, of 0 0] facts
  obtain em2 where a2: "allocTemp K2 GpX (Some (gpX 0)) emFull = Some (gpX 0, em2)" by auto
  from t3[THEN conjunct2, rule_format, of 1 1] lP factsP facts(13)
  obtain em3 where a3: "allocTemp K2 GpX None emFullPinned = Some (gpX 1, em3)" by auto
  from t1[THEN conjunct1, rule_format, OF a1] l facts
  have 1: "hwRegs em1 = (hwRegs emFull)(gpX 1 := NoFR) \<and>
      localGpX (frameRegs em1 ! 1) = NoReg \<and> frameUpToDate (frameRegs em1 ! 1) \<and>
      frameRegs em1 ! 0 = frameRegs emFull ! 0 \<and>
      emitted em1 = emitted emFull @ [I_str (X 1) (Mem XFrame 8)] \<and>
      pool GpX em1 = \<lparr>avail = [], lru = [0, 1]\<rparr>"
    by auto
  from t2[THEN conjunct1, rule_format, OF a2] facts
  have 2: "hwRegs em2 = (hwRegs emFull)(gpX 0 := NoFR) \<and>
      localGpX (frameRegs em2 ! 0) = NoReg \<and> frameUpToDate (frameRegs em2 ! 0) \<and>
      frameRegs em2 ! 1 = frameRegs emFull ! 1 \<and>
      emitted em2 = emitted emFull @ [I_str (X 0) (Mem XFrame 0)] \<and>
      pool GpX em2 = \<lparr>avail = [], lru = [1, 0]\<rparr>"
    by auto
  from t3[THEN conjunct1, rule_format, OF a3] lP factsP
  have 3: "hwRegs em3 = (hwRegs emFullPinned)(gpX 1 := NoFR) \<and>
      localGpX (frameRegs em3 ! 1) = NoReg \<and> globalRegUpToDate (frameRegs em3 ! 1) \<and>
      \<not> frameUpToDate (frameRegs em3 ! 1) \<and>
      emitted em3 = emitted emFullPinned @ [I_mov (X 22) (X 1)]"
    by auto
  from ex l exP lP factsP(2,3) a1 a2 a3 1 2 3 show ?thesis by blast
qed

text \<open>
  C5. Whenever \<open>newBasicBlock\<close> returns, the emitter has the same frame registers as
  before, and for each of them: no local register of either class is bound, the local
  type is the global type it had before, its global type and global register are
  unchanged, and its up-to-date flags were only raised; the instructions emitted are those
  of the sync pass, none of them a call, followed by the binding of the label. From a
  well-formed state \<open>newBasicBlock\<close> does return, in a well-formed state in which every
  frame register that had an authoritative location is backed, no hardware register has
  an owner, and exactly the temporaries that had an owner went back to their pool.
\<close>

theorem newBasicBlock_resets_bindings:
  "(\<forall>em'. newBasicBlock K label' em = Some em' \<longrightarrow>
      length (frameRegs em') = length (frameRegs em) \<and>
      (\<forall>j < length (frameRegs em).
         localGpX (frameRegs em' ! j) = NoReg \<and> localVecD (frameRegs em' ! j) = NoReg \<and>
         localType (frameRegs em' ! j) = globalType (frameRegs em ! j) \<and>
         globalType (frameRegs em' ! j) = globalType (frameRegs em ! j) \<and>
         globalReg (frameRegs em' ! j) = globalReg (frameRegs em ! j) \<and>
         (frameUpToDate (frameRegs em ! j) \<longrightarrow> frameUpToDate (frameRegs em' ! j)) \<and>
         (globalRegUpToDate (frameRegs em ! j) \<longrightarrow> globalRegUpToDate (frameRegs em' ! j))) \<and>
      (\<exists>code. emitted em' = emitted em @ code @ [I_bind label'] \<and>
               list_all (\<lambda>i. \<not> isCall i) code)) \<and>
   (wellFormed K em \<longrightarrow>
      (\<exists>em'. newBasicBlock K label' em = Some em' \<and> wellFormed K em' \<and>
         (\<forall>j < length (frameRegs em).
            authoritative (frameRegs em ! j) \<longrightarrow> backed (frameRegs em' ! j)) \<and>
         (\<forall>h. h \<noteq> NoReg \<longrightarrow> hwRegs em' h = NoFR) \<and>
         set (avail (gpTemp em')) = set (avail (gpTemp em)) \<union> {r. hwRegs em (gpX r) \<noteq> NoFR} \<and>
         set (lru (gpTemp em')) = set (lru (gpTemp em)) - {r. hwRegs em (gpX r) \<noteq> NoFR} \<and>
         set (avail (vecTemp em')) = set (avail (vecTemp em)) \<union> {r. hwRegs em (vecD r) \<noteq> NoFR} \<and>
         set (lru (vecTemp em')) = set (lru (vecTemp em)) - {r. hwRegs em (vecD r) \<noteq> NoFR}))"
proof (rule conjI)
  show "\<forall>em'. newBasicBlock K label' em = Some em' \<longrightarrow>
      length (frameRegs em') = length (frameRegs em) \<and>
      (\<forall>j < length (frameRegs em).
         localGpX (frameRegs em' ! j) = NoReg \<and> localVecD (frameRegs em' ! j) = NoReg \<and>
         localType (frameRegs em' ! j) = globalType (frameRegs em ! j) \<and>
         globalType (frameRegs em' ! j) = globalType (frameRegs em ! j) \<and>
         globalReg (frameRegs em' ! j) = globalReg (frameRegs em ! j) \<and>
         (frameUpToDate (frameRegs em ! j) \<longrightarrow> frameUpToDate (frameRegs em' ! j)) \<and>
         (globalRegUpToDate (frameRegs em ! j) \<longrightarrow> globalRegUpToDate (frameRegs em' ! j))) \<and>
      (\<exists>code. emitted em' = emitted em @ code @ [I_bind label'] \<and>
               list_all (\<lambda>i. \<not> isCall i) code)"
    by (intro allI impI, rule newBasicBlock_effect)
  show "wellFormed K em \<longrightarrow>
      (\<exists>em'. newBasicBlock K label' em = Some em' \<and> wellFormed K em' \<and>
         (\<forall>j < length (frameRegs em).
            authoritative (frameRegs em ! j) \<longrightarrow> backed (frameRegs em' ! j)) \<and>
         (\<forall>h. h \<noteq> NoReg \<longrightarrow> hwRegs em' h = NoFR) \<and>
         set (avail (gpTemp em')) = set (avail (gpTemp em)) \<union> {r. hwRegs em (gpX r) \<noteq> NoFR} \<and>
         set (lru (gpTemp em')) = set (lru (gpTemp em)) - {r. hwRegs em (gpX r) \<noteq> NoFR} \<and>
         set (avail (vecTemp em')) = set (avail (vecTemp em)) \<union> {r. hwRegs em (vecD r) \<noteq> NoFR} \<and>
         set (lru (vecTemp em')) = set (lru (vecTemp em)) - {r. hwRegs em (vecD r) \<noteq> NoFR})"
    by (intro impI, rule newBasicBlock_succeeds)
qed

theorem newBasicBlock_resets_bindings_witness:
  "wellFormed K2 emBusy \<and>
   localGpX (frameRegs emBusy ! 0) = gpX 0 \<and> localType (frameRegs emBusy ! 0) = Number \<and>
   globalType (frameRegs emBusy ! 0) = Unknown \<and>
   localVecD (frameRegs emBusy ! 1) = vecD 16 \<and>
   (\<exists>em'. newBasicBlock K2 (Label 0) emBusy = Some em' \<and> wellFormed K2 em' \<and>
      length (frameRegs em') = 3 \<and>
      localGpX (frameRegs em' ! 0) = NoReg \<and> localVecD (frameRegs em' ! 0) = NoReg \<and>
      localType (frameRegs em' ! 0) = Unknown \<and> frameUpToDate (frameRegs em' ! 0) \<and>
      localGpX (frameRegs em' ! 1) = NoReg \<and> localVecD (frameRegs em' ! 1) = NoReg \<and>
      localType (frameRegs em' ! 1) = Number \<and> globalReg (frameRegs em' ! 1) = gpX 22 \<and>
      globalRegUpToDate (frameRegs em' ! 1) \<and>
      hwRegs em' (gpX 0) = NoFR \<and> hwRegs em' (vecD 16) = NoFR \<and>
      set (avail (gpTemp em')) = {0, 1} \<and> set (lru (gpTemp em')) = {} \<and>
      set (avail (vecTemp em')) = {16, 17} \<and> set (lru (vecTemp em')) = {} \<and>
      emitted em' = [I_str (X 0) (Mem XFrame 0), I_fmov (X 22) (D 16), I_bind (Label 0)])"
proof -
  have wf: "wellFormed K2 emBusy"
    by (auto simp: sample_defs wellFormed_def ownership_def tempsInRange_def hwValid_def
        isTempGpX_def isTempVecD_def All_less_Suc numeral_3_eq_3 split: if_splits)
  have facts: "length (frameRegs emBusy) = 3"
    "localGpX (frameRegs emBusy ! 0) = gpX 0" "localType (frameRegs emBusy ! 0) = Number"
    "globalType (frameRegs emBusy ! 0) = Unknown" "localVecD (frameRegs emBusy ! 1) = vecD 16"
    "globalType (frameRegs emBusy ! 1) = Number" "globalReg (frameRegs emBusy ! 1) = gpX 22"
    "authoritative (frameRegs emBusy ! 0)" "authoritative (frameRegs emBusy ! 1)"
    "globalReg (frameRegs emBusy ! 0) = NoReg"
    "{r. hwRegs emBusy (gpX r) \<noteq> NoFR} = {0}" "{r. hwRegs emBusy (vecD r) \<noteq> NoFR} = {16}"
    "set (avail (gpTemp emBusy)) = {1}" "set (lru (gpTemp emBusy)) = {0}"
    "set (avail (vecTemp emBusy)) = {17}" "set (lru (vecTemp emBusy)) = {16}"
    by (auto simp: sample_defs authoritative_def)
  from newBasicBlock_resets_bindings[of K2 "Label 0" emBusy, THEN conjunct2, rule_format, OF wf]
  obtain em' where nb: "newBasicBlock K2 (Label 0) emBusy = Some em'" and w': "wellFormed K2 em'"
    and bk: "\<forall>j < length (frameRegs emBusy).
               authoritative (frameRegs emBusy ! j) \<longrightarrow> backed (frameRegs em' ! j)"
    and hw: "\<forall>h. h \<noteq> NoReg \<longrightarrow> hwRegs em' h = NoFR"
    and pl: "set (avail (gpTemp em')) = set (avail (gpTemp emBusy)) \<union> {r. hwRegs emBusy (gpX r) \<noteq> NoFR}"
       "set (lru (gpTemp em')) = set (lru (gpTemp emBusy)) - {r. hwRegs emBusy (gpX r) \<noteq> NoFR}"
       "set (avail (vecTemp em')) = set (avail (vecTemp emBusy)) \<union> {r. hwRegs emBusy (vecD r) \<noteq> NoFR}"
       "set (lru (vecTemp em')) = set (lru (vecTemp emBusy)) - {r. hwRegs emBusy (vecD r) \<noteq> NoFR}"
    by blast
  note eff = newBasicBlock_resets_bindings[of K2 "Label 0" emBusy, THEN conjunct1, rule_format, OF nb]
  from eff facts have r: "length (frameRegs em') = 3 \<and>
      localGpX (frameRegs em' ! 0) = NoReg \<and> localVecD (frameRegs em' ! 0) = NoReg \<and>
      localType (frameRegs em' ! 0) = Unknown \<and>
      localGpX (frameRegs em' ! 1) = NoReg \<and> localVecD (frameRegs em' ! 1) = NoReg \<and>
      localType (frameRegs em' ! 1) = Number \<and> globalReg (frameRegs em' ! 1) = gpX 22 \<and>
      globalReg (frameRegs em' ! 0) = NoReg"
    by (simp add: numeral_3_eq_3 All_less_Suc)
  from bk facts have b: "backed (frameRegs em' ! 0)"
    by (simp add: numeral_3_eq_3 All_less_Suc)
  with r have fl0: "frameUpToDate (frameRegs em' ! 0)"
    by (simp add: backed_def)
  from pl facts have p: "set (avail (gpTemp em')) = {0, 1}" "set (lru (gpTemp em')) = {}"
      "set (avail (vecTemp em')) = {16, 17}" "set (lru (vecTemp em')) = {}"
    by auto
  have code: "\<exists>e. newBasicBlock K2 (Label 0) emBusy = Some e \<and>
      globalRegUpToDate (frameRegs e ! 1) \<and>
      emitted e = [I_str (X 0) (Mem XFrame 0), I_fmov (X 22) (D 16), I_bind (Label 0)]"
    by (simp add: sample_defs emitter_defs newBasicBlock_def)
  with nb have em: "emitted em' = [I_str (X 0) (Mem XFrame 0), I_fmov (X 22) (D 16), I_bind (Label 0)]"
    and fl1: "globalRegUpToDate (frameRegs em' ! 1)"
    by auto
  from wf facts nb w' r fl0 fl1 hw p em show ?thesis by auto
qed






end
